(* ===== verification/Prelude.thy ===== *)
theory Prelude
  imports Main "HOL-Library.Word" "HOL-Library.Monad_Syntax"
begin

text \<open>
  Shared vocabulary of the development: the machine integers of the Rust sources, the
  error-as-value result type, the string operations of the Rust standard library the
  sources call, and the generic lemmas the component theories rely on.

  Strings are the UTF-8 bytes of a Rust \<open>String\<close> as an Isabelle \<open>string\<close> (a \<open>char\<close> is eight
  bits wide), so \<open>length\<close> is \<open>str::len\<close>. Byte vectors are \<open>8 word list\<close>. \<open>usize\<close> lengths are
  \<open>nat\<close>; \<open>u64\<close>, \<open>u32\<close> and \<open>u128\<close> arithmetic stays at its width and wraps, as it does under the
  workspace's release profile.
\<close>

named_theorems result_simps "case analysis of fallible steps"
named_theorems enc_simps "unfolding of byte encoders"

section \<open>Machine integers\<close>

type_synonym u8 = "8 word"
type_synonym u16 = "16 word"
type_synonym u32 = "32 word"
type_synonym u64 = "64 word"
type_synonym u128 = "128 word"
type_synonym bytes = "u8 list"

type_synonym ('e, 'a) result = "'e + 'a"

abbreviation Err :: "'e \<Rightarrow> ('e, 'a) result" where "Err \<equiv> Inl"
abbreviation Ok :: "'a \<Rightarrow> ('e, 'a) result" where "Ok \<equiv> Inr"

text \<open>\<open>Result::is_ok\<close> and \<open>Result::is_err\<close>.\<close>

definition is_ok :: "('e, 'a) result \<Rightarrow> bool" where
  "is_ok r = (case r of Inl _ \<Rightarrow> False | Inr _ \<Rightarrow> True)"

definition is_err :: "('e, 'a) result \<Rightarrow> bool" where
  "is_err r = (\<not> is_ok r)"

text \<open>The \<open>?\<close> operator: stop at the first error.\<close>

definition and_then :: "('e, 'a) result \<Rightarrow> ('a \<Rightarrow> ('e, 'b) result) \<Rightarrow> ('e, 'b) result" where
  "and_then r f = (case r of Inl e \<Rightarrow> Inl e | Inr a \<Rightarrow> f a)"

definition map_err :: "('e \<Rightarrow> 'f) \<Rightarrow> ('e, 'a) result \<Rightarrow> ('f, 'a) result" where
  "map_err f r = (case r of Inl e \<Rightarrow> Inl (f e) | Inr a \<Rightarrow> Inr a)"

text \<open>A guard clause: \<open>if b { return Err(e); }\<close> before the rest of a function.\<close>

definition reject_if :: "bool \<Rightarrow> 'e \<Rightarrow> ('e, 'a) result \<Rightarrow> ('e, 'a) result" where
  "reject_if b e rest = (if b then Inl e else rest)"

definition ok_or :: "'e \<Rightarrow> 'a option \<Rightarrow> ('e, 'a) result" where
  "ok_or e x = (case x of None \<Rightarrow> Inl e | Some a \<Rightarrow> Inr a)"

lemma is_ok_simps [simp]: "is_ok (Inr a)" "\<not> is_ok (Inl e)"
  by (simp_all add: is_ok_def)

lemma is_err_simps [simp]: "\<not> is_err (Inr a)" "is_err (Inl e)"
  by (simp_all add: is_err_def)

lemma is_ok_unit: "is_ok (r :: ('e, unit) result) \<longleftrightarrow> r = Inr ()"
  by (cases r) simp_all

lemma and_then_Ok [result_simps]:
  "and_then r f = Inr b \<longleftrightarrow> (\<exists>a. r = Inr a \<and> f a = Inr b)"
  by (cases r) (simp_all add: and_then_def)

lemma and_then_simps [simp]: "and_then (Inr a) f = f a" "and_then (Inl e) f = Inl e"
  by (simp_all add: and_then_def)

lemma map_err_Ok [result_simps]: "map_err f r = Inr b \<longleftrightarrow> r = Inr b"
  by (cases r) (simp_all add: map_err_def)

lemma map_err_simps [simp]: "map_err f (Inr a) = Inr a" "map_err f (Inl e) = Inl (f e)"
  by (simp_all add: map_err_def)

lemma reject_if_Ok [result_simps]: "reject_if b e r = Inr a \<longleftrightarrow> \<not> b \<and> r = Inr a"
  by (simp add: reject_if_def)

lemma reject_if_simps [simp]: "reject_if True e r = Inl e" "reject_if False e r = r"
  by (simp_all add: reject_if_def)

lemma ok_or_Ok [result_simps]: "ok_or e x = Inr a \<longleftrightarrow> x = Some a"
  by (cases x) (simp_all add: ok_or_def)

lemma ok_or_simps [simp]: "ok_or e (Some a) = Inr a" "ok_or e None = Inl e"
  by (simp_all add: ok_or_def)

text \<open>\<open>u64::saturating_add\<close>, \<open>u64::saturating_sub\<close> and \<open>u64::abs_diff\<close>.\<close>

definition saturating_add :: "u64 \<Rightarrow> u64 \<Rightarrow> u64" where
  "saturating_add a b = (if unat a + unat b < 2 ^ 64 then a + b else 18446744073709551615)"

definition saturating_sub :: "u64 \<Rightarrow> u64 \<Rightarrow> u64" where
  "saturating_sub a b = (if b \<le> a then a - b else 0)"

definition abs_diff :: "u64 \<Rightarrow> u64 \<Rightarrow> u64" where
  "abs_diff a b = (if b \<le> a then a - b else b - a)"

lemma word_eq_unatI: "unat a = unat b \<Longrightarrow> a = (b :: 'a::len word)"
  by (simp add: word_eq_iff_unsigned [where ?'a = nat])

lemma unat_add_u64: "unat (a + b :: u64) = (unat a + unat b) mod 2 ^ 64"
  by (simp add: unat_word_ariths)

lemma unat_lt_u64: "unat (a :: u64) < 2 ^ 64"
  using unsigned_less [of a] by simp

lemma unat_lt_u8: "unat (b :: u8) < 256"
  using unsigned_less [of b] by simp

lemma unat_saturating_add: "unat (saturating_add a b) = min (unat a + unat b) (2 ^ 64 - 1)"
proof (cases "unat a + unat b < 2 ^ 64")
  case True
  then have "unat (a + b) = unat a + unat b" by (simp only: unat_add_u64 mod_less)
  with True show ?thesis by (simp add: saturating_add_def min_def)
next
  case False
  then show ?thesis by (simp add: saturating_add_def min_def)
qed

lemma unat_saturating_sub: "unat (saturating_sub a b) = unat a - unat b"
  by (auto simp: saturating_sub_def word_le_nat_alt unat_sub)

lemma unat_abs_diff:
  "unat (abs_diff a b) = (if unat b \<le> unat a then unat a - unat b else unat b - unat a)"
  by (auto simp: abs_diff_def word_le_nat_alt unat_sub)

lemma saturating_sub_self [simp]: "saturating_sub a a = 0"
  by (simp add: saturating_sub_def)

lemma saturating_sub_0 [simp]: "saturating_sub a 0 = a"
  by (simp add: saturating_sub_def)

lemma saturating_sub_le: "saturating_sub a b \<le> a"
  by (simp add: word_le_nat_alt unat_saturating_sub)

lemmas u64_nat = word_le_nat_alt word_less_nat_alt unat_saturating_add unat_saturating_sub
  unat_abs_diff

end
