(* ===== verification/Rust_Strings.thy ===== *)
theory Rust_Strings
  imports Prelude
begin

text \<open>
  The string operations of Rust's standard library that the sources use, over the UTF-8
  bytes of the string. The character classes are the ASCII ones
  (\<open>char::is_ascii_lowercase\<close>, ...): a byte of a multi-byte code point is at least 128 and in
  none of them, so testing bytes and testing code points agree.
\<close>

section \<open>Characters\<close>

definition code :: "char \<Rightarrow> nat" where
  "code c = of_char c"

definition is_ascii :: "char \<Rightarrow> bool" where
  "is_ascii c = (code c < 128)"

definition is_ascii_lowercase :: "char \<Rightarrow> bool" where
  "is_ascii_lowercase c = (97 \<le> code c \<and> code c \<le> 122)"

definition is_ascii_uppercase :: "char \<Rightarrow> bool" where
  "is_ascii_uppercase c = (65 \<le> code c \<and> code c \<le> 90)"

definition is_ascii_digit :: "char \<Rightarrow> bool" where
  "is_ascii_digit c = (48 \<le> code c \<and> code c \<le> 57)"

definition is_ascii_alphanumeric :: "char \<Rightarrow> bool" where
  "is_ascii_alphanumeric c = (is_ascii_lowercase c \<or> is_ascii_uppercase c \<or> is_ascii_digit c)"

definition is_ascii_hexdigit :: "char \<Rightarrow> bool" where
  "is_ascii_hexdigit c =
     (is_ascii_digit c \<or> (97 \<le> code c \<and> code c \<le> 102) \<or> (65 \<le> code c \<and> code c \<le> 70))"

definition ascii_lower :: "char \<Rightarrow> char" where
  "ascii_lower c = (if is_ascii_uppercase c then char_of (code c + 32) else c)"

lemmas char_class_defs = is_ascii_def is_ascii_lowercase_def is_ascii_uppercase_def
  is_ascii_digit_def is_ascii_alphanumeric_def is_ascii_hexdigit_def

lemma ascii_lower_fixed: "\<not> is_ascii_uppercase c \<Longrightarrow> ascii_lower c = c"
  by (simp add: ascii_lower_def)

lemma code_ascii_lower:
  "code (ascii_lower c) = (if is_ascii_uppercase c then code c + 32 else code c)"
  by (auto simp: ascii_lower_def code_def is_ascii_uppercase_def)

lemma ascii_lower_not_upper: "\<not> is_ascii_uppercase (ascii_lower c)"
  by (auto simp: is_ascii_uppercase_def code_ascii_lower split: if_splits)

lemma ascii_lower_idem [simp]: "ascii_lower (ascii_lower c) = ascii_lower c"
  by (rule ascii_lower_fixed) (rule ascii_lower_not_upper)

section \<open>Strings\<close>

text \<open>
  \<open>str::to_lowercase\<close>. On an ASCII string it maps \<open>A..Z\<close> to \<open>a..z\<close>; on any other string it
  consults the standard library's Unicode tables, the parameter \<open>uni\<close>.
\<close>

definition to_lowercase :: "(string \<Rightarrow> string) \<Rightarrow> string \<Rightarrow> string" where
  "to_lowercase uni s = (if list_all is_ascii s then map ascii_lower s else uni s)"

definition eq_ignore_ascii_case :: "string \<Rightarrow> string \<Rightarrow> bool" where
  "eq_ignore_ascii_case a b = (map ascii_lower a = map ascii_lower b)"

definition starts_with :: "'a list \<Rightarrow> 'a list \<Rightarrow> bool" where
  "starts_with s p = (take (length p) s = p)"

definition ends_with :: "'a list \<Rightarrow> 'a list \<Rightarrow> bool" where
  "ends_with s p = (length p \<le> length s \<and> drop (length s - length p) s = p)"

definition strip_suffix :: "'a list \<Rightarrow> 'a list \<Rightarrow> 'a list option" where
  "strip_suffix s p = (if ends_with s p then Some (take (length s - length p) s) else None)"

text \<open>\<open>str::contains\<close> of a substring.\<close>

definition contains_str :: "'a list \<Rightarrow> 'a list \<Rightarrow> bool" where
  "contains_str s p = list_ex (\<lambda>i. starts_with (drop i s) p) [0..<Suc (length s)]"

text \<open>\<open>while s.ends_with(c) { s.pop(); }\<close>\<close>

definition pop_trailing :: "'a \<Rightarrow> 'a list \<Rightarrow> 'a list" where
  "pop_trailing c s = rev (dropWhile (\<lambda>x. x = c) (rev s))"

text \<open>\<open>str::split\<close> on a character: never empty, and empty parts are kept.\<close>

fun split_on :: "'a \<Rightarrow> 'a list \<Rightarrow> 'a list list" where
  "split_on c [] = [[]]"
| "split_on c (x # xs) =
     (if x = c then [] # split_on c xs
      else (case split_on c xs of [] \<Rightarrow> [[x]] | p # ps \<Rightarrow> (x # p) # ps))"

text \<open>The inverse of \<open>split_on\<close>: the parts joined by the separator.\<close>

fun join_with :: "'a \<Rightarrow> 'a list list \<Rightarrow> 'a list" where
  "join_with c [] = []"
| "join_with c [p] = p"
| "join_with c (p # q # ps) = p @ c # join_with c (q # ps)"

lemma starts_with_iff: "starts_with s p \<longleftrightarrow> (\<exists>t. s = p @ t)"
  by (metis append_eq_conv_conj append_take_drop_id starts_with_def)

lemma ends_with_iff: "ends_with s p \<longleftrightarrow> (\<exists>t. s = t @ p)"
proof
  assume "ends_with s p"
  then have "s = take (length s - length p) s @ p"
    by (metis append_take_drop_id ends_with_def)
  then show "\<exists>t. s = t @ p" by blast
qed (auto simp: ends_with_def)

lemma ends_with_append [simp]: "ends_with (t @ p) p"
  by (auto simp: ends_with_iff)

lemma strip_suffix_append [simp]: "strip_suffix (t @ p) p = Some t"
  by (simp add: strip_suffix_def)

lemma ends_with_last: "ends_with s [c] \<longleftrightarrow> s \<noteq> [] \<and> last s = c"
  by (metis append_butlast_last_id ends_with_iff last_snoc snoc_eq_iff_butlast)

lemma starts_with_hd: "starts_with s [c] \<longleftrightarrow> s \<noteq> [] \<and> hd s = c"
  by (cases s) (auto simp: starts_with_def)

lemma pop_trailing_snoc [simp]:
  "pop_trailing c (s @ [x]) = (if x = c then pop_trailing c s else s @ [x])"
  by (simp add: pop_trailing_def)

lemma pop_trailing_Nil [simp]: "pop_trailing c [] = []"
  by (simp add: pop_trailing_def)

lemma pop_trailing_fixed: "s = [] \<or> last s \<noteq> c \<Longrightarrow> pop_trailing c s = s"
  by (cases s rule: rev_cases) auto

lemma pop_trailing_last: "pop_trailing c s \<noteq> [] \<Longrightarrow> last (pop_trailing c s) \<noteq> c"
  by (induction s rule: rev_induct) auto

lemma pop_trailing_dots: "pop_trailing c (s @ replicate k c) = pop_trailing c s"
  by (induction k) (simp_all add: replicate_append_same [symmetric] flip: append_assoc)

lemma set_pop_trailing: "set (pop_trailing c s) \<subseteq> set s"
  by (auto simp: pop_trailing_def dest: set_dropWhileD)

lemma split_on_not_Nil [simp]: "split_on c s \<noteq> []"
  by (induction s) (auto split: list.splits)

lemma split_on_free: "p \<in> set (split_on c s) \<Longrightarrow> c \<notin> set p"
  by (induction s arbitrary: p) (auto split: list.splits if_splits)

lemma split_on_id: "c \<notin> set s \<Longrightarrow> split_on c s = [s]"
  by (induction s) auto

lemma split_on_append: "c \<notin> set a \<Longrightarrow> split_on c (a @ c # b) = a # split_on c b"
  by (induction a) auto

lemma join_split [simp]: "join_with c (split_on c s) = s"
proof (induction s)
  case (Cons x xs)
  then show ?case
    by (cases "split_on c xs"; cases "tl (split_on c xs)") auto
qed simp

lemma set_join: "set (join_with c ps) \<subseteq> insert c (\<Union> (set ` set ps))"
  by (induction c ps rule: join_with.induct) auto

lemma first_separator:
  "c \<notin> set a \<Longrightarrow> c \<notin> set b \<Longrightarrow> a @ c # s = b @ c # t \<Longrightarrow> a = b \<and> s = t"
proof (induction a arbitrary: b)
  case Nil
  then show ?case by (cases b) auto
next
  case (Cons x a)
  then show ?case by (cases b) auto
qed

lemma last_separator:
  assumes "c \<notin> set s" "c \<notin> set t" "a @ c # s = b @ c # t"
  shows "a = b \<and> s = t"
proof -
  have "rev (a @ c # s) = rev (b @ c # t)" using assms(3) by simp
  then have "rev s @ c # rev a = rev t @ c # rev b" by simp
  with assms(1,2) have "rev s = rev t \<and> rev a = rev b" by (intro first_separator) auto
  then show ?thesis by simp
qed

lemma length_split_on: "2 \<le> length (split_on c s) \<longleftrightarrow> c \<in> set s"
proof
  assume "2 \<le> length (split_on c s)"
  then show "c \<in> set s" using split_on_id [of c s] by fastforce
next
  assume "c \<in> set s"
  then obtain a b where "s = a @ c # b" "c \<notin> set a" by (meson split_list_first)
  then show "2 \<le> length (split_on c s)"
    by (cases "split_on c b") (simp_all add: split_on_append)
qed

section \<open>Strings as bytes\<close>

text \<open>\<open>str::as_bytes\<close> and the byte string literals \<open>b"..."\<close>.\<close>

definition as_bytes :: "string \<Rightarrow> bytes" where
  "as_bytes s = map (\<lambda>c. of_nat (code c)) s"

lemma length_as_bytes [simp]: "length (as_bytes s) = length s"
  by (simp add: as_bytes_def)

lemma byte_of_char_inj: "(of_nat (code c) :: u8) = of_nat (code d) \<longleftrightarrow> c = d"
proof
  assume eq: "(of_nat (code c) :: u8) = of_nat (code d)"
  have lt: "code e < 256" for e
    by (simp add: code_def)
  have "unat (of_nat (code c) :: u8) = unat (of_nat (code d) :: u8)" using eq by simp
  then have "code c = code d" using lt by (simp add: unat_of_nat)
  then have "char_of (code c) = (char_of (code d) :: char)" by (rule arg_cong)
  then show "c = d" by (simp add: code_def)
qed simp

lemma as_bytes_inj [simp]: "as_bytes s = as_bytes t \<longleftrightarrow> s = t"
  unfolding as_bytes_def by (rule inj_map_eq_map) (simp add: inj_def byte_of_char_inj)

lemma as_bytes_append [simp]: "as_bytes (s @ t) = as_bytes s @ as_bytes t"
  by (simp add: as_bytes_def)

end
