(* ===== verification/Encoding.thy ===== *)
theory Encoding
  imports Rust_Strings
begin

text \<open>
  Integer and length-prefixed byte encodings: \<open>to_be_bytes\<close>, \<open>from_be_bytes\<close>,
  \<open>to_le_bytes\<close> of the standard library and the \<open>u32\<close> length prefix that every canonical
  byte string of the sources uses. The lemmas give round trips and the unique-parsing
  facts the signable formats need.
\<close>

unbundle bit_operations_syntax

definition to_le_bytes :: "nat \<Rightarrow> 'a::len word \<Rightarrow> bytes" where
  "to_le_bytes n w = map (\<lambda>i. ucast (drop_bit (8 * i) w)) [0..<n]"

fun from_le_bytes :: "bytes \<Rightarrow> 'a::len word" where
  "from_le_bytes [] = 0"
| "from_le_bytes (b # bs) = ucast b OR push_bit 8 (from_le_bytes bs)"

definition to_be_bytes :: "nat \<Rightarrow> 'a::len word \<Rightarrow> bytes" where
  "to_be_bytes n w = rev (to_le_bytes n w)"

definition from_be_bytes :: "bytes \<Rightarrow> 'a::len word" where
  "from_be_bytes bs = from_le_bytes (rev bs)"

definition u64_to_be_bytes :: "u64 \<Rightarrow> bytes" where
  "u64_to_be_bytes w = to_be_bytes 8 w"

definition u64_from_be_bytes :: "bytes \<Rightarrow> u64" where
  "u64_from_be_bytes bs = from_be_bytes bs"

definition u32_to_be_bytes :: "u32 \<Rightarrow> bytes" where
  "u32_to_be_bytes w = to_be_bytes 4 w"

text \<open>\<open>(x.len() as u32).to_be_bytes()\<close> followed by \<open>x\<close>.\<close>

definition len_prefixed :: "bytes \<Rightarrow> bytes" where
  "len_prefixed x = u32_to_be_bytes (of_nat (length x)) @ x"

section \<open>Round trips\<close>

lemma length_to_le_bytes [simp]: "length (to_le_bytes n w) = n"
  by (simp add: to_le_bytes_def)

lemma length_to_be_bytes [simp]: "length (to_be_bytes n w) = n"
  by (simp add: to_be_bytes_def)

lemma length_u64_to_be_bytes [simp]: "length (u64_to_be_bytes w) = 8"
  by (simp add: u64_to_be_bytes_def)

lemma length_u32_to_be_bytes [simp]: "length (u32_to_be_bytes w) = 4"
  by (simp add: u32_to_be_bytes_def)

lemma to_le_bytes_Suc:
  "to_le_bytes (Suc n) (w :: 'a::len word) = ucast w # to_le_bytes n (drop_bit 8 w)"
  unfolding to_le_bytes_def upt_conv_Cons [OF zero_less_Suc]
  by (simp add: map_Suc_upt [symmetric] comp_def drop_bit_drop_bit add.commute del: upt_Suc map_Suc_upt)

lemma ucast_push_drop:
  "(ucast (ucast w :: u8) :: 'a::len word) OR push_bit 8 (drop_bit 8 w) = (w :: 'a word)"
proof (rule bit_word_eqI)
  fix k
  assume "k < LENGTH('a)"
  then show "bit ((ucast (ucast w :: u8) :: 'a word) OR push_bit 8 (drop_bit 8 w)) k = bit w k"
    by (cases "k < 8") (auto simp: bit_simps)
qed

lemma from_le_to_le_gen:
  "drop_bit (8 * n) (w :: 'a::len word) = 0 \<Longrightarrow> from_le_bytes (to_le_bytes n w) = w"
proof (induction n arbitrary: w)
  case 0
  then show ?case by (simp add: to_le_bytes_def)
next
  case (Suc n)
  then have "from_le_bytes (to_le_bytes n (drop_bit 8 w)) = drop_bit 8 w"
    by (simp add: drop_bit_drop_bit add.commute)
  then show ?case by (simp add: to_le_bytes_Suc ucast_push_drop)
qed

lemma from_le_to_le [simp]:
  assumes "LENGTH('a) \<le> 8 * n"
  shows "from_le_bytes (to_le_bytes n (w :: 'a::len word)) = w"
proof (rule from_le_to_le_gen)
  show "drop_bit (8 * n) w = 0"
    by (rule bit_word_eqI) (use assms in \<open>auto simp: bit_simps dest: bit_imp_le_length\<close>)
qed

lemma u64_from_to_be [simp]: "u64_from_be_bytes (u64_to_be_bytes w) = w"
  by (simp add: u64_from_be_bytes_def u64_to_be_bytes_def from_be_bytes_def to_be_bytes_def)

lemma u64_to_be_bytes_inj [simp]: "u64_to_be_bytes v = u64_to_be_bytes w \<longleftrightarrow> v = w"
  by (metis u64_from_to_be)

lemma u32_from_to_be [simp]: "from_be_bytes (u32_to_be_bytes w) = w"
  by (simp add: u32_to_be_bytes_def from_be_bytes_def to_be_bytes_def)

lemma u32_to_be_bytes_inj [simp]: "u32_to_be_bytes v = u32_to_be_bytes w \<longleftrightarrow> v = w"
  by (metis u32_from_to_be)

section \<open>Big-endian numbers\<close>

text \<open>\<open>BigUint::from_bytes_be\<close> and \<open>BigUint::to_bytes_be\<close>: the latter has no leading zero
  byte, except for the single byte of 0.\<close>

fun be_value :: "bytes \<Rightarrow> nat" where
  "be_value [] = 0"
| "be_value (b # bs) = unat b * 256 ^ length bs + be_value bs"

lemma digit_less: "v < M \<Longrightarrow> b * M + v < c * M \<longleftrightarrow> b < c" for M v b c :: nat
proof
  assume "b * M + v < c * M"
  then have "b * M < c * M" by linarith
  then show "b < c" by simp
next
  assume "v < M" "b < c"
  then have "Suc b * M \<le> c * M" by (intro mult_le_mono1) simp
  with \<open>v < M\<close> show "b * M + v < c * M" by simp
qed

lemma be_value_less: "be_value bs < 256 ^ length bs"
  by (induction bs) (simp_all add: digit_less unat_lt_u8)

lemma byte_less_power: "unat (b :: u8) < 2 ^ n \<longleftrightarrow> (\<forall>j<8. n \<le> j \<longrightarrow> \<not> bit b j)"
proof -
  have "unat b < 2 ^ n \<longleftrightarrow> take_bit n (unat b) = unat b"
    by (simp add: take_bit_nat_eq_self_iff)
  also have "\<dots> \<longleftrightarrow> take_bit n b = b"
    by (metis unsigned_take_bit_eq unsigned_word_eqI word_eq_unatI)
  also have "\<dots> \<longleftrightarrow> (\<forall>j<8. n \<le> j \<longrightarrow> \<not> bit b j)"
    by (auto simp: bit_eq_iff bit_simps not_less [symmetric])
  finally show ?thesis .
qed

fun nat_to_le_bytes :: "nat \<Rightarrow> bytes" where
  "nat_to_le_bytes n = (if n < 256 then [of_nat n] else of_nat (n mod 256) # nat_to_le_bytes (n div 256))"

declare nat_to_le_bytes.simps [simp del]

definition nat_to_be_bytes :: "nat \<Rightarrow> bytes" where
  "nat_to_be_bytes n = rev (nat_to_le_bytes n)"

lemma be_value_append: "be_value (xs @ ys) = be_value xs * 256 ^ length ys + be_value ys"
  by (induction xs) (simp_all add: power_add algebra_simps)

lemma be_value_zeros [simp]: "be_value (replicate k 0 @ bs) = be_value bs"
  by (induction k) simp_all

lemma be_value_all_zero [simp]: "be_value (replicate k 0) = 0"
  using be_value_zeros [of k "[]"] by simp

lemma unat_of_nat_byte: "n < 256 \<Longrightarrow> unat (of_nat n :: u8) = n"
  by (simp add: unat_of_nat)

lemma be_value_nat_to_be [simp]: "be_value (nat_to_be_bytes n) = n"
proof (induction n rule: nat_to_le_bytes.induct)
  case (1 n)
  show ?case
  proof (cases "n < 256")
    case True
    then show ?thesis by (simp add: nat_to_be_bytes_def nat_to_le_bytes.simps [of n] unat_of_nat_byte)
  next
    case False
    with 1 have "be_value (rev (nat_to_le_bytes (n div 256))) = n div 256"
      by (simp add: nat_to_be_bytes_def)
    with False show ?thesis
      by (simp add: nat_to_be_bytes_def nat_to_le_bytes.simps [of n] be_value_append unat_of_nat_byte)
  qed
qed

lemma length_nat_to_le_bytes: "n < 256 ^ k \<Longrightarrow> 0 < k \<Longrightarrow> length (nat_to_le_bytes n) \<le> k"
proof (induction n arbitrary: k rule: nat_to_le_bytes.induct)
  case (1 n)
  show ?case
  proof (cases "n < 256")
    case True
    with 1 show ?thesis by (simp add: nat_to_le_bytes.simps [of n])
  next
    case False
    with 1(2) have "k \<noteq> 1" by auto
    with 1(3) have k: "k = Suc (k - 1)" "0 < k - 1" by auto
    have "n < 256 ^ (k - 1) * 256" using 1(2) k by (metis power_Suc2)
    then have "n div 256 < 256 ^ (k - 1)" by (rule less_mult_imp_div_less)
    with 1(1) [OF False, of "k - 1"] k have "length (nat_to_le_bytes (n div 256)) \<le> k - 1" by simp
    with False k show ?thesis by (simp add: nat_to_le_bytes.simps [of n])
  qed
qed

lemma length_nat_to_be_bytes: "n < 256 ^ k \<Longrightarrow> 0 < k \<Longrightarrow> length (nat_to_be_bytes n) \<le> k"
  by (simp add: nat_to_be_bytes_def length_nat_to_le_bytes)

section \<open>Unique parsing\<close>

text \<open>
  Canonical byte strings are concatenations. A fixed-width field splits off by its
  length; a length-prefixed field splits off because its prefix determines its length
  whenever it is shorter than \<open>2 ^ 32\<close> bytes.
\<close>

lemma length_len_prefixed [simp]: "length (len_prefixed x) = 4 + length x"
  by (simp add: len_prefixed_def)

lemma len_prefixed_append [enc_simps]:
  assumes "length x < 2 ^ 32" and "length y < 2 ^ 32"
  shows "len_prefixed x @ s = len_prefixed y @ t \<longleftrightarrow> x = y \<and> s = t"
proof
  assume eq: "len_prefixed x @ s = len_prefixed y @ t"
  then have "take 4 (len_prefixed x @ s) = take 4 (len_prefixed y @ t)" by simp
  then have "(of_nat (length x) :: u32) = of_nat (length y)"
    by (simp add: len_prefixed_def)
  then have "unat (of_nat (length x) :: u32) = unat (of_nat (length y) :: u32)" by simp
  then have "length x = length y" using assms by (simp add: unat_of_nat)
  with eq show "x = y \<and> s = t" by (simp add: len_prefixed_def)
qed simp

lemma len_prefixed_inj [enc_simps]:
  assumes "length x < 2 ^ 32" and "length y < 2 ^ 32"
  shows "len_prefixed x = len_prefixed y \<longleftrightarrow> x = y"
  using len_prefixed_append [OF assms, of "[]" "[]"] by simp

lemma fixed_append [enc_simps]:
  "length x = length y \<Longrightarrow> x @ s = y @ t \<longleftrightarrow> x = y \<and> s = t"
  by simp

lemma u64_append [enc_simps]:
  "u64_to_be_bytes v @ s = u64_to_be_bytes w @ t \<longleftrightarrow> v = w \<and> s = t"
  by (simp add: fixed_append)

end
