(* ===== verification/Network_Config.thy ===== *)
theory Network_Config
  imports Encoding
begin

text \<open>
  The parameters of the model.

  \<open>network_constants\<close> holds the constants that \<open>kinetic-core/build.rs\<close> and
  \<open>kinetic-kid/build.rs\<close> generate from \<open>network.json\<close> (\<open>network_constants.rs\<close>,
  \<open>kid_limits.rs\<close>) and the compile-time feature behind \<open>is_dev_mode\<close>. \<open>crypto\<close> extends it with
  the third-party functions the sources call: SHA-256, ML-DSA-65, the drand BLS verifier,
  hex and base64url codecs, and the Unicode lower-casing tables of the standard library.
  Nothing is assumed of them in the definitions; a theorem that relies on documented
  behaviour states it as a hypothesis.

  \<open>default_network\<close> are the values of the workspace's \<open>network.json\<close>, used by the
  witnesses.
\<close>

section \<open>Constants generated by the build\<close>

record network_constants =
  NSP :: string
  NSP_SUFFIX :: string
  DID_PREFIX :: string
  NETWORK_SALT :: bytes
  dev_mode :: bool
  BASE_ITERATIONS :: u64
  TARGET_MINUTES :: u64
  TAKEOVER_TARGET_KYNS :: u64
  DEV_MODE_ITERATIONS :: u64
  NDC_LEN_0_TO_1 :: u64
  NDC_LEN_2 :: u64
  NDC_LEN_3 :: u64
  NDC_LEN_4 :: u64
  NDC_LEN_5 :: u64
  NDC_LEN_6 :: u64
  NDC_LEN_7 :: u64
  NDC_LEN_8_TO_10 :: u64
  NDC_LEN_11_TO_17 :: u64
  NDC_LEN_18_TO_20 :: u64
  VDF_DISCOUNT_MIN_ITERATIONS :: u64
  VDF_DISCOUNT_PERCENTAGE :: u64
  MINIMUM_COMMIT_AGE_KYNS :: u64
  BEACON_GENESIS :: u64
  KYN_PERIOD :: u64
  BEACON_PUBLIC_KEY :: string
  STORAGE_MAX_VALUE_BYTES :: nat
  KID_MAX_PUBLIC_KEY_BYTES :: nat
  KID_MAX_LOCATION_BYTES :: nat
  KID_MAX_ENDPOINT_BYTES :: nat

record crypto = network_constants +
  unicode_lowercase :: "string \<Rightarrow> string"
  sha256 :: "bytes \<Rightarrow> bytes"
  mldsa_key_ok :: "bytes \<Rightarrow> bool"
  mldsa_sig_ok :: "bytes \<Rightarrow> bool"
  mldsa_verify :: "bytes \<Rightarrow> bytes \<Rightarrow> bytes \<Rightarrow> bool"
  bls_key_ok :: "bytes \<Rightarrow> bool"
  bls_verify :: "bytes \<Rightarrow> u64 \<Rightarrow> bytes \<Rightarrow> bool option"
  hex_decode :: "string \<Rightarrow> bytes option"
  b64_decode :: "string \<Rightarrow> bytes option"
  b64_encode :: "bytes \<Rightarrow> string"

definition KINETIC_PUBKEY_LENGTH :: nat where
  "KINETIC_PUBKEY_LENGTH = 1952"

definition KINETIC_SIGNATURE_LENGTH :: nat where
  "KINETIC_SIGNATURE_LENGTH = 3309"

text \<open>What \<open>build.rs\<close> writes for any \<open>network.json\<close>: the suffix and the DID prefix are derived
  from the same namespace label.\<close>

definition nsp_derived :: "'x network_constants_scheme \<Rightarrow> bool" where
  "nsp_derived E \<longleftrightarrow> NSP_SUFFIX E = CHR ''.'' # NSP E \<and> DID_PREFIX E = ''did:'' @ NSP E @ '':''"

definition default_network :: network_constants where
  "default_network = \<lparr>
     NSP = ''kin'', NSP_SUFFIX = ''.kin'', DID_PREFIX = ''did:kin:'',
     NETWORK_SALT = replicate 32 7, dev_mode = False,
     BASE_ITERATIONS = 238819830, TARGET_MINUTES = 30,
     TAKEOVER_TARGET_KYNS = 23652000, DEV_MODE_ITERATIONS = 1000,
     NDC_LEN_0_TO_1 = 157788000, NDC_LEN_2 = 129600, NDC_LEN_3 = 103680, NDC_LEN_4 = 64800,
     NDC_LEN_5 = 4320, NDC_LEN_6 = 2160, NDC_LEN_7 = 450, NDC_LEN_8_TO_10 = 360,
     NDC_LEN_11_TO_17 = 270, NDC_LEN_18_TO_20 = 180,
     VDF_DISCOUNT_MIN_ITERATIONS = 1000, VDF_DISCOUNT_PERCENTAGE = 15,
     MINIMUM_COMMIT_AGE_KYNS = 30, BEACON_GENESIS = 1692803367, KYN_PERIOD = 1,
     BEACON_PUBLIC_KEY = ''00'', STORAGE_MAX_VALUE_BYTES = 81920,
     KID_MAX_PUBLIC_KEY_BYTES = 8192, KID_MAX_LOCATION_BYTES = 2048,
     KID_MAX_ENDPOINT_BYTES = 256\<rparr>"

lemmas default_network_simps = default_network_def network_constants.simps

text \<open>Concrete stand-ins for the third-party functions, for witnesses: the digest is the identity,
  codecs pass the character codes through, and a signature is valid when it repeats the
  message.\<close>

definition sample_crypto :: crypto where
  "sample_crypto = network_constants.extend default_network (crypto.fields
     (\<lambda>_. []) id (\<lambda>_. True) (\<lambda>_. True) (\<lambda>pk m s. s = m) (\<lambda>_. True) (\<lambda>pk i s. Some True)
     (\<lambda>s. Some (as_bytes s)) (\<lambda>s. Some (as_bytes s)) (map (\<lambda>b. char_of (unat b))))"

lemmas sample_crypto_simps = sample_crypto_def default_network_def network_constants.defs crypto.defs

section \<open>Signature verification of kinetic-primitives\<close>

datatype signature_error = InvalidSignatureEncoding | InvalidPublicKeyFormat | VerificationFailed

text \<open>\<open>kinetic_primitives::verify_signature\<close>; every \<open>*PubKey::verify\<close> of \<open>keypairs.rs\<close> is this
  function on the wrapped bytes.\<close>

definition verify_signature ::
  "'x crypto_scheme \<Rightarrow> bytes \<Rightarrow> bytes \<Rightarrow> bytes \<Rightarrow> (signature_error, unit) result" where
  "verify_signature E pubkey msg sig =
     reject_if (\<not> mldsa_key_ok E pubkey) InvalidPublicKeyFormat
    (reject_if (\<not> mldsa_sig_ok E sig) InvalidSignatureEncoding
    (reject_if (\<not> mldsa_verify E pubkey msg sig) VerificationFailed
    (Inr ())))"

text \<open>The abstract meaning of a successful verification: both encodings parse and the scheme
  accepts the triple.\<close>

definition signed_by :: "'x crypto_scheme \<Rightarrow> bytes \<Rightarrow> bytes \<Rightarrow> bytes \<Rightarrow> bool" where
  "signed_by E pubkey msg sig \<longleftrightarrow>
     mldsa_key_ok E pubkey \<and> mldsa_sig_ok E sig \<and> mldsa_verify E pubkey msg sig"

lemma verify_signature_ok [simp]: "is_ok (verify_signature E pk m s) \<longleftrightarrow> signed_by E pk m s"
  by (auto simp: verify_signature_def signed_by_def reject_if_def)

lemma verify_signature_Ok_iff: "verify_signature E pk m s = Inr u \<longleftrightarrow> signed_by E pk m s"
  by (auto simp: verify_signature_def signed_by_def result_simps)

lemma verify_signature_err [simp]: "is_err (verify_signature E pk m s) \<longleftrightarrow> \<not> signed_by E pk m s"
  by (simp add: is_err_def)

end
