(* ===== verification/Kyn.thy ===== *)
theory Kyn
  imports Network_Config
begin

text \<open>
  \<open>kinetic-kyn\<close>: network time (\<open>types.rs\<close>, \<open>math.rs\<close>) and the randomness beacon
  (\<open>beacon.rs\<close>). The newtypes around \<open>u64\<close> (\<open>Kyn\<close>, \<open>UKyn\<close>, \<open>TargetKyn\<close>, \<open>CurrentKyn\<close>, ...)
  carry no behaviour beyond their number and are synonyms here.
\<close>

type_synonym kyn = u64
type_synonym ukyn = u64

section \<open>Conversions (math.rs)\<close>

definition to_ukyn :: "kyn \<Rightarrow> u64 \<Rightarrow> ukyn" where
  "to_ukyn self genesis = saturating_add genesis self"

definition to_kyn :: "ukyn \<Rightarrow> u64 \<Rightarrow> kyn" where
  "to_kyn self genesis = saturating_sub self genesis"

record crystallized_kyn =
  prism :: u64
  facet :: u64
  ck_kyn :: u64
  total :: u64

definition from_kyn :: "kyn \<Rightarrow> kyn \<Rightarrow> crystallized_kyn" where
  "from_kyn current_kyn genesis_kyn =
     (if current_kyn < genesis_kyn then \<lparr>prism = 0, facet = 0, ck_kyn = 0, total = 0\<rparr>
      else let total' = current_kyn - genesis_kyn;
               prism' = total' div 86400;
               remainder_after_prism = total' mod 86400;
               facet' = remainder_after_prism div 3600;
               kyn' = remainder_after_prism mod 3600
           in \<lparr>prism = prism', facet = facet', ck_kyn = kyn', total = total'\<rparr>)"

section \<open>Beacon pulses (beacon.rs)\<close>

record raw_kyn =
  beacon_idx :: u64
  randomness :: string
  rk_signature :: string
  is_from_cache :: bool
  is_unavailable :: bool

definition MAX_STALE_ROUNDS_FOR_HEARTBEAT :: u64 where
  "MAX_STALE_ROUNDS_FOR_HEARTBEAT = 600"

text \<open>The beacon public key has to decode to exactly 96 bytes.\<close>

definition verify_beacon_signature :: "'x crypto_scheme \<Rightarrow> u64 \<Rightarrow> string \<Rightarrow> bool \<Rightarrow> bool" where
  "verify_beacon_signature E idx signature_hex bypass_signature =
     (if bypass_signature then True
      else case hex_decode E (BEACON_PUBLIC_KEY E) of
        None \<Rightarrow> False
      | Some pk \<Rightarrow>
          if length pk \<noteq> 96 then False
          else if \<not> bls_key_ok E pk then False
          else case hex_decode E signature_hex of
            None \<Rightarrow> False
          | Some sig \<Rightarrow> (case bls_verify E pk idx sig of None \<Rightarrow> False | Some b \<Rightarrow> b))"

definition rk_kyn :: "'x network_constants_scheme \<Rightarrow> raw_kyn \<Rightarrow> u64" where
  "rk_kyn E self = beacon_idx self * KYN_PERIOD E"

definition unavailable :: raw_kyn where
  "unavailable = \<lparr>beacon_idx = 0, randomness = '''', rk_signature = '''', is_from_cache = False,
     is_unavailable = True\<rparr>"

definition can_register :: "raw_kyn \<Rightarrow> bool" where
  "can_register self = (\<not> is_unavailable self \<and> \<not> is_from_cache self)"

definition can_heartbeat :: "'x network_constants_scheme \<Rightarrow> raw_kyn \<Rightarrow> kyn \<Rightarrow> bool" where
  "can_heartbeat E self current_live_kyn =
     (if is_unavailable self then False
      else if \<not> is_from_cache self then True
      else saturating_sub current_live_kyn (rk_kyn E self) \<le> MAX_STALE_ROUNDS_FOR_HEARTBEAT)"

definition verify_beacon :: "'x crypto_scheme \<Rightarrow> raw_kyn \<Rightarrow> bool \<Rightarrow> bool" where
  "verify_beacon E self bypass_signature =
     (if is_unavailable self then True
      else if bypass_signature then True
      else if \<not> verify_beacon_signature E (beacon_idx self) (rk_signature self) False then False
      else case hex_decode E (rk_signature self) of
        None \<Rightarrow> False
      | Some sig_bytes \<Rightarrow>
          (case hex_decode E (randomness self) of
             None \<Rightarrow> False
           | Some r \<Rightarrow> r = sha256 E sig_bytes))"

section \<open>Properties\<close>

lemma kyn_ukyn_round_trip:
  "unat g + unat k < 2 ^ 64 \<Longrightarrow> to_kyn (to_ukyn k g) g = k"
  by (intro word_eq_unatI) (simp add: to_kyn_def to_ukyn_def u64_nat min_def)

lemma from_kyn_decomposes:
  assumes "g \<le> k"
  shows "unat (prism (from_kyn k g)) * 86400 + unat (facet (from_kyn k g)) * 3600
      + unat (ck_kyn (from_kyn k g)) = unat k - unat g"
    and "unat (facet (from_kyn k g)) < 24" and "unat (ck_kyn (from_kyn k g)) < 3600"
proof -
  let ?t = "unat k - unat g"
  have t: "unat (k - g) = ?t" using assms by (simp add: unat_sub word_le_nat_alt)
  have *: "from_kyn k g = \<lparr>prism = (k - g) div 86400, facet = (k - g) mod 86400 div 3600,
      ck_kyn = (k - g) mod 86400 mod 3600, total = k - g\<rparr>"
    using assms by (simp add: from_kyn_def Let_def not_less [symmetric])
  have p: "unat (prism (from_kyn k g)) = ?t div 86400"
    and f: "unat (facet (from_kyn k g)) = ?t mod 86400 div 3600"
    and c: "unat (ck_kyn (from_kyn k g)) = ?t mod 86400 mod 3600"
    by (simp_all add: * unat_div unat_mod t)
  show "unat (prism (from_kyn k g)) * 86400 + unat (facet (from_kyn k g)) * 3600
      + unat (ck_kyn (from_kyn k g)) = ?t"
    unfolding p f c by (simp only: add.assoc div_mult_mod_eq)
  show "unat (facet (from_kyn k g)) < 24"
    unfolding f by (rule less_mult_imp_div_less) simp
  show "unat (ck_kyn (from_kyn k g)) < 3600" unfolding c by simp
qed

lemma verify_beacon_binds:
  assumes "verify_beacon E r False" and "\<not> is_unavailable r"
  shows "\<exists>pk sig. hex_decode E (BEACON_PUBLIC_KEY E) = Some pk \<and> length pk = 96
      \<and> hex_decode E (rk_signature r) = Some sig \<and> bls_verify E pk (beacon_idx r) sig = Some True
      \<and> hex_decode E (randomness r) = Some (sha256 E sig)"
  using assms by (auto simp: verify_beacon_def verify_beacon_signature_def split: if_splits option.splits)

section \<open>Correctness of network time\<close>

text \<open>The branded time units decompose the age of the network exactly, with fewer than 24
  facets and 3,600 kyns, and Unix conversion round-trips while the sum fits \<open>u64\<close>.\<close>

lemma kyn_decomposition:
  assumes "g \<le> k" and "unat genesis + unat k < 2 ^ 64"
  shows "unat (prism (from_kyn k g)) * 86400 + unat (facet (from_kyn k g)) * 3600
      + unat (ck_kyn (from_kyn k g)) = unat k - unat g
    \<and> unat (facet (from_kyn k g)) < 24 \<and> unat (ck_kyn (from_kyn k g)) < 3600
    \<and> to_kyn (to_ukyn k genesis) genesis = k"
  using from_kyn_decomposes [OF assms(1)] kyn_ukyn_round_trip [OF assms(2)] by blast

text \<open>A beacon pulse that verifies without bypass carries a signature of its own round under
  the 96-byte network key, and its randomness is the digest of that signature.\<close>

lemma beacon_randomness_bound:
  assumes "verify_beacon E r False" and "\<not> is_unavailable r"
  shows "\<exists>pk sig. hex_decode E (BEACON_PUBLIC_KEY E) = Some pk \<and> length pk = 96
      \<and> hex_decode E (rk_signature r) = Some sig \<and> bls_verify E pk (beacon_idx r) sig = Some True
      \<and> hex_decode E (randomness r) = Some (sha256 E sig)"
  using assms by (rule verify_beacon_binds)

end
