(* ===== verification/Kid.thy ===== *)
theory Kid
  imports Kyn
begin

text \<open>
  \<open>kinetic-kid\<close>: decentralised identifiers (\<open>did.rs\<close>), identity documents
  (\<open>document.rs\<close>), capability manifests (\<open>manifest.rs\<close>) and the bounded sequence visitor
  (\<open>bounded.rs\<close>).

  JCS canonicalisation, base64url and ML-DSA signing are third-party code and parameters
  (\<open>identity_env\<close>); the text a third-party error carries is not kept.
\<close>

section \<open>Identifiers (did.rs)\<close>

datatype kid_error =
    InvalidDidPrefix | InvalidDidHexLength | InvalidDidHexCharacters
  | JsonParseError string | CanonicalizationError
  | KidInvalidSignature | MissingSignature | Base64Error | StringLengthExceeded string
  | UnauthorizedManifestSignature | KeyLimitExceeded | ServiceLimitExceeded
  | LocationLimitExceeded | InvalidValidFrom | ManifestExpired | DidKeyMismatch

datatype did = Did (as_str: string)

definition lower_hex_char :: "char \<Rightarrow> bool" where
  "lower_hex_char c = (is_ascii_hexdigit c \<and> \<not> is_ascii_uppercase c)"

definition did_new :: "'x network_constants_scheme \<Rightarrow> string \<Rightarrow> (kid_error, did) result" where
  "did_new E id_str =
     reject_if (\<not> starts_with id_str (DID_PREFIX E)) InvalidDidPrefix
     (let method_specific_id = drop (length (DID_PREFIX E)) id_str in
      reject_if (length method_specific_id \<noteq> 64) InvalidDidHexLength
     (reject_if (\<not> list_all lower_hex_char method_specific_id) InvalidDidHexCharacters
     (Ok (Did id_str))))"

section \<open>Documents (document.rs)\<close>

record controller_key =
  ck_id :: string
  key_type :: string
  public_key :: string

record manifest_pointer =
  mp_hash :: "string option"
  locations :: "string list"

record document =
  doc_type :: string
  doc_kid :: did
  created_at :: ukyn
  controller_keys :: "controller_key list"
  doc_manifest :: "manifest_pointer option"
  revocation_keys :: "string list"
  deactivated :: bool
  doc_signature :: "string option"

record service =
  svc_id :: string
  service_type :: string
  protocol :: string
  endpoint :: string

record manifest =
  man_type :: string
  man_kid :: did
  version :: u64
  valid_from :: ukyn
  expires_at :: "ukyn option"
  services :: "service list"
  man_signature :: "string option"

text \<open>\<open>serde_jcs::to_string\<close> on both types, and the ML-DSA key pair operations.\<close>

record identity_env = crypto +
  jcs_document :: "document \<Rightarrow> string option"
  jcs_manifest :: "manifest \<Rightarrow> string option"
  mldsa_pubkey :: "bytes \<Rightarrow> bytes"
  mldsa_sign :: "bytes \<Rightarrow> bytes \<Rightarrow> bytes"

definition doc_canonicalize :: "'x identity_env_scheme \<Rightarrow> document \<Rightarrow> (kid_error, string) result" where
  "doc_canonicalize E self = ok_or CanonicalizationError (jcs_document E (self\<lparr>doc_signature := None\<rparr>))"

text \<open>\<open>format!("{}-kid-v1\0", NSP)\<close> and the canonical text: the signed message.\<close>

definition kid_message :: "'x network_constants_scheme \<Rightarrow> string \<Rightarrow> bytes" where
  "kid_message E msg_str = as_bytes (NSP E @ ''-kid-v1'' @ [CHR 0x00]) @ as_bytes msg_str"

fun check_controller_keys :: "'x network_constants_scheme \<Rightarrow> controller_key list \<Rightarrow> (kid_error, unit) result" where
  "check_controller_keys E [] = Ok ()"
| "check_controller_keys E (key # keys) =
     reject_if (256 < length (ck_id key)) (StringLengthExceeded ''controller_key.id'')
    (reject_if (KID_MAX_PUBLIC_KEY_BYTES E < length (public_key key))
       (StringLengthExceeded ''controller_key.public_key'')
    (reject_if (32 < length (key_type key)) (StringLengthExceeded ''controller_key.key_type'')
    (check_controller_keys E keys)))"

fun check_lengths :: "nat \<Rightarrow> string \<Rightarrow> string list \<Rightarrow> (kid_error, unit) result" where
  "check_lengths bound what [] = Ok ()"
| "check_lengths bound what (s # ss) =
     reject_if (bound < length s) (StringLengthExceeded what) (check_lengths bound what ss)"

definition check_pointer :: "'x network_constants_scheme \<Rightarrow> manifest_pointer \<Rightarrow> (kid_error, unit) result" where
  "check_pointer E mp =
     reject_if (20 < length (locations mp)) LocationLimitExceeded
    (and_then (check_lengths (KID_MAX_LOCATION_BYTES E) ''manifest.location'' (locations mp)) (\<lambda>_.
     case mp_hash mp of
       Some h \<Rightarrow> reject_if (256 < length h) (StringLengthExceeded ''manifest.hash'') (Ok ())
     | None \<Rightarrow> Ok ()))"

text \<open>One iteration of the key loops: the listed key decodes and verifies the message.\<close>

definition key_verifies :: "'x crypto_scheme \<Rightarrow> bytes \<Rightarrow> bytes \<Rightarrow> string \<Rightarrow> bool" where
  "key_verifies E msg sig key_b64 =
     (case b64_decode E key_b64 of
        None \<Rightarrow> False
      | Some pk \<Rightarrow> is_ok (verify_signature E pk msg sig))"

definition controller_verifies :: "'x crypto_scheme \<Rightarrow> bytes \<Rightarrow> bytes \<Rightarrow> controller_key \<Rightarrow> bool" where
  "controller_verifies E msg sig key =
     (eq_ignore_ascii_case (key_type key) ''Controller'' \<and> key_verifies E msg sig (public_key key))"

definition doc_verify :: "'x identity_env_scheme \<Rightarrow> document \<Rightarrow> (kid_error, unit) result" where
  "doc_verify E self =
     reject_if (20 < length (controller_keys self) \<or> 20 < length (revocation_keys self)) KeyLimitExceeded
    (and_then (check_controller_keys E (controller_keys self)) (\<lambda>_.
     and_then (check_lengths (KID_MAX_PUBLIC_KEY_BYTES E) ''revocation_keys.item'' (revocation_keys self)) (\<lambda>_.
     and_then (case doc_manifest self of None \<Rightarrow> Ok () | Some mp \<Rightarrow> check_pointer E mp) (\<lambda>_.
     and_then (ok_or MissingSignature (doc_signature self)) (\<lambda>sig_b64.
     and_then (ok_or Base64Error (b64_decode E sig_b64)) (\<lambda>sig.
     and_then (doc_canonicalize E self) (\<lambda>msg_str.
     let msg = kid_message E msg_str in
     if (if deactivated self then list_ex (key_verifies E msg sig) (revocation_keys self)
         else list_ex (controller_verifies E msg sig) (controller_keys self))
     then Ok () else Err KidInvalidSignature)))))))"

definition hex_digit :: "nat \<Rightarrow> char" where
  "hex_digit n = char_of (if n < 10 then 48 + n else 87 + n)"

definition to_hex :: "bytes \<Rightarrow> string" where
  "to_hex bs = concat (map (\<lambda>b. [hex_digit (unat b div 16), hex_digit (unat b mod 16)]) bs)"

definition verify_genesis :: "'x crypto_scheme \<Rightarrow> document \<Rightarrow> (kid_error, unit) result" where
  "verify_genesis E self =
     (case controller_keys self of
        [] \<Rightarrow> Err KidInvalidSignature
      | primary_key # _ \<Rightarrow>
          and_then (ok_or Base64Error (b64_decode E (public_key primary_key))) (\<lambda>pubkey_bytes.
          reject_if (as_str (doc_kid self) \<noteq> DID_PREFIX E @ to_hex (sha256 E pubkey_bytes)) DidKeyMismatch
          (Ok ())))"

definition is_authorized :: "'x identity_env_scheme \<Rightarrow> document \<Rightarrow> document \<Rightarrow> bool" where
  "is_authorized E self previous_doc =
     (case doc_signature self of None \<Rightarrow> False | Some sig_b64 \<Rightarrow>
      (case b64_decode E sig_b64 of None \<Rightarrow> False | Some sig \<Rightarrow>
       (case doc_canonicalize E self of Inl _ \<Rightarrow> False | Inr msg_str \<Rightarrow>
        (let msg = kid_message E msg_str;
             authorized = list_ex (controller_verifies E msg sig) (controller_keys previous_doc)
         in if \<not> authorized \<and> deactivated self
            then list_ex (key_verifies E msg sig) (revocation_keys previous_doc)
            else authorized))))"

text \<open>\<open>sign_with_controller\<close> and \<open>sign_with_revoke\<close> differ in the type of the key only.\<close>

definition doc_sign :: "'x identity_env_scheme \<Rightarrow> document \<Rightarrow> bytes \<Rightarrow> (kid_error, document) result" where
  "doc_sign E self key =
     and_then (doc_canonicalize E self) (\<lambda>msg_str.
     Ok (self\<lparr>doc_signature := Some (b64_encode E (mldsa_sign E key (kid_message E msg_str)))\<rparr>))"

section \<open>Manifests (manifest.rs)\<close>

definition man_canonicalize :: "'x identity_env_scheme \<Rightarrow> manifest \<Rightarrow> (kid_error, string) result" where
  "man_canonicalize E self = ok_or CanonicalizationError (jcs_manifest E (self\<lparr>man_signature := None\<rparr>))"

definition manifest_message :: "'x network_constants_scheme \<Rightarrow> string \<Rightarrow> bytes" where
  "manifest_message E msg_str = as_bytes (NSP E @ ''-manifest-v1'' @ [CHR 0x00]) @ as_bytes msg_str"

fun check_services :: "'x network_constants_scheme \<Rightarrow> service list \<Rightarrow> (kid_error, unit) result" where
  "check_services E [] = Ok ()"
| "check_services E (svc # svcs) =
     reject_if (256 < length (svc_id svc)) (StringLengthExceeded ''service.id'')
    (reject_if (256 < length (service_type svc)) (StringLengthExceeded ''service.service_type'')
    (reject_if (64 < length (protocol svc)) (StringLengthExceeded ''service.protocol'')
    (reject_if (KID_MAX_ENDPOINT_BYTES E < length (endpoint svc)) (StringLengthExceeded ''service.endpoint'')
    (check_services E svcs))))"

definition verify_at_time ::
  "'x identity_env_scheme \<Rightarrow> manifest \<Rightarrow> document \<Rightarrow> ukyn \<Rightarrow> (kid_error, unit) result" where
  "verify_at_time E self kid_document unix_time =
     reject_if (20 < length (controller_keys kid_document)) KeyLimitExceeded
    (reject_if (man_kid self \<noteq> doc_kid kid_document) UnauthorizedManifestSignature
    (reject_if (unix_time + 300 < valid_from self) InvalidValidFrom
    (reject_if (case expires_at self of None \<Rightarrow> False | Some e \<Rightarrow> e \<le> unix_time) ManifestExpired
    (reject_if (50 < length (services self)) ServiceLimitExceeded
    (and_then (check_services E (services self)) (\<lambda>_.
     and_then (ok_or MissingSignature (man_signature self)) (\<lambda>sig_b64.
     and_then (ok_or Base64Error (b64_decode E sig_b64)) (\<lambda>sig.
     and_then (man_canonicalize E self) (\<lambda>msg_str.
     if list_ex (controller_verifies E (manifest_message E msg_str) sig) (controller_keys kid_document)
     then Ok () else Err UnauthorizedManifestSignature)))))))))"

definition man_sign :: "'x identity_env_scheme \<Rightarrow> manifest \<Rightarrow> bytes \<Rightarrow> (kid_error, manifest) result" where
  "man_sign E self key =
     and_then (man_canonicalize E self) (\<lambda>msg_str.
     Ok (self\<lparr>man_signature := Some (b64_encode E (mldsa_sign E key (manifest_message E msg_str)))\<rparr>))"

section \<open>Bounded sequences (bounded.rs)\<close>

datatype 'e visit_error = InvalidLength nat | ExceededMaximum nat | ElementError 'e

text \<open>The sequence access is the list of what \<open>next_element\<close> returns before its final \<open>None\<close>.\<close>

fun visit_loop :: "nat \<Rightarrow> nat \<Rightarrow> 'a list \<Rightarrow> ('e, 'a) result list \<Rightarrow> ('e visit_error, 'a list) result" where
  "visit_loop max' count vec [] = Ok vec"
| "visit_loop max' count vec (Inl e # rest) = Err (ElementError e)"
| "visit_loop max' count vec (Inr element # rest) =
     (if max' \<le> count then Err (ExceededMaximum max')
      else visit_loop max' (count + 1) (vec @ [element]) rest)"

definition visit_seq ::
  "nat \<Rightarrow> nat option \<Rightarrow> ('e, 'a) result list \<Rightarrow> ('e visit_error, 'a list) result" where
  "visit_seq max' size_hint seq =
     (case size_hint of
        Some n \<Rightarrow> reject_if (max' < n) (InvalidLength n) (visit_loop max' 0 [] seq)
      | None \<Rightarrow> visit_loop max' 0 [] seq)"

definition deserialize_max_20 :: "nat option \<Rightarrow> ('e, 'a) result list \<Rightarrow> ('e visit_error, 'a list) result" where
  "deserialize_max_20 = visit_seq 20"

definition deserialize_max_50 :: "nat option \<Rightarrow> ('e, 'a) result list \<Rightarrow> ('e visit_error, 'a list) result" where
  "deserialize_max_50 = visit_seq 50"

section \<open>What the checks establish\<close>

lemma did_new_Ok:
  "did_new E s = Ok d \<longleftrightarrow>
     d = Did s \<and> (\<exists>h. s = DID_PREFIX E @ h \<and> length h = 64 \<and> list_all lower_hex_char h)"
  by (auto simp: did_new_def Let_def result_simps starts_with_iff)

lemma check_lengths_Ok: "check_lengths b w ss = Ok () \<longleftrightarrow> (\<forall>s\<in>set ss. length s \<le> b)"
  by (induction ss) (auto simp: result_simps not_less)

definition controller_key_bounded :: "'x network_constants_scheme \<Rightarrow> controller_key \<Rightarrow> bool" where
  "controller_key_bounded E k \<longleftrightarrow> length (ck_id k) \<le> 256
     \<and> length (public_key k) \<le> KID_MAX_PUBLIC_KEY_BYTES E \<and> length (key_type k) \<le> 32"

definition pointer_bounded :: "'x network_constants_scheme \<Rightarrow> manifest_pointer \<Rightarrow> bool" where
  "pointer_bounded E mp \<longleftrightarrow> length (locations mp) \<le> 20
     \<and> (\<forall>l\<in>set (locations mp). length l \<le> KID_MAX_LOCATION_BYTES E)
     \<and> (\<forall>h. mp_hash mp = Some h \<longrightarrow> length h \<le> 256)"

definition document_bounded :: "'x network_constants_scheme \<Rightarrow> document \<Rightarrow> bool" where
  "document_bounded E d \<longleftrightarrow> length (controller_keys d) \<le> 20 \<and> length (revocation_keys d) \<le> 20
     \<and> list_all (controller_key_bounded E) (controller_keys d)
     \<and> list_all (\<lambda>k. length k \<le> KID_MAX_PUBLIC_KEY_BYTES E) (revocation_keys d)
     \<and> (case doc_manifest d of None \<Rightarrow> True | Some mp \<Rightarrow> pointer_bounded E mp)"

definition service_bounded :: "'x network_constants_scheme \<Rightarrow> service \<Rightarrow> bool" where
  "service_bounded E s \<longleftrightarrow> length (svc_id s) \<le> 256 \<and> length (service_type s) \<le> 256
     \<and> length (protocol s) \<le> 64 \<and> length (endpoint s) \<le> KID_MAX_ENDPOINT_BYTES E"

text \<open>The signature of a document or manifest, decoded, covers its canonical text.\<close>

definition doc_signed :: "'x identity_env_scheme \<Rightarrow> document \<Rightarrow> (bytes \<Rightarrow> bytes \<Rightarrow> bool) \<Rightarrow> bool" where
  "doc_signed E d accepts \<longleftrightarrow> (\<exists>sig_b64 sig txt. doc_signature d = Some sig_b64
     \<and> b64_decode E sig_b64 = Some sig \<and> doc_canonicalize E d = Ok txt
     \<and> accepts (kid_message E txt) sig)"

definition man_signed :: "'x identity_env_scheme \<Rightarrow> manifest \<Rightarrow> (bytes \<Rightarrow> bytes \<Rightarrow> bool) \<Rightarrow> bool" where
  "man_signed E m accepts \<longleftrightarrow> (\<exists>sig_b64 sig txt. man_signature m = Some sig_b64
     \<and> b64_decode E sig_b64 = Some sig \<and> man_canonicalize E m = Ok txt
     \<and> accepts (manifest_message E txt) sig)"

definition some_controller :: "'x crypto_scheme \<Rightarrow> document \<Rightarrow> bytes \<Rightarrow> bytes \<Rightarrow> bool" where
  "some_controller E d msg sig \<longleftrightarrow> (\<exists>k\<in>set (controller_keys d).
     eq_ignore_ascii_case (key_type k) ''Controller''
     \<and> (\<exists>pk. b64_decode E (public_key k) = Some pk \<and> signed_by E pk msg sig))"

definition some_revocation :: "'x crypto_scheme \<Rightarrow> document \<Rightarrow> bytes \<Rightarrow> bytes \<Rightarrow> bool" where
  "some_revocation E d msg sig \<longleftrightarrow> (\<exists>k\<in>set (revocation_keys d).
     \<exists>pk. b64_decode E k = Some pk \<and> signed_by E pk msg sig)"

lemma check_controller_keys_Ok:
  "check_controller_keys E ks = Ok () \<longleftrightarrow> list_all (controller_key_bounded E) ks"
  by (induction ks) (auto simp: result_simps controller_key_bounded_def not_less)

lemma check_services_Ok: "check_services E ss = Ok () \<longleftrightarrow> list_all (service_bounded E) ss"
  by (induction ss) (auto simp: result_simps service_bounded_def not_less)

lemma check_pointer_Ok: "check_pointer E mp = Ok () \<longleftrightarrow> pointer_bounded E mp"
  by (auto simp: check_pointer_def pointer_bounded_def result_simps check_lengths_Ok not_less
      split: option.split)

lemma key_verifies_iff: "key_verifies E m s k \<longleftrightarrow> (\<exists>pk. b64_decode E k = Some pk \<and> signed_by E pk m s)"
  by (simp add: key_verifies_def split: option.split)

lemma controller_loop_iff:
  "list_ex (controller_verifies E m s) (controller_keys d) \<longleftrightarrow> some_controller E d m s"
  by (auto simp: list_ex_iff some_controller_def controller_verifies_def key_verifies_iff)

lemma revocation_loop_iff:
  "list_ex (key_verifies E m s) (revocation_keys d) \<longleftrightarrow> some_revocation E d m s"
  by (auto simp: list_ex_iff some_revocation_def key_verifies_iff)

lemmas key_loops = controller_loop_iff revocation_loop_iff

lemma if_Ok_unit: "(if b then Ok () else Err e) = Ok () \<longleftrightarrow> b"
  by simp

lemma doc_verify_Ok:
  "doc_verify E d = Ok () \<longleftrightarrow> document_bounded E d
     \<and> doc_signed E d (if deactivated d then some_revocation E d else some_controller E d)"
proof -
  have mp: "(case doc_manifest d of None \<Rightarrow> Ok () | Some mp \<Rightarrow> check_pointer E mp) = Ok ()
      \<longleftrightarrow> (case doc_manifest d of None \<Rightarrow> True | Some mp \<Rightarrow> pointer_bounded E mp)"
    by (simp add: check_pointer_Ok split: option.split)
  show ?thesis
    by (simp add: doc_verify_def result_simps check_controller_keys_Ok check_lengths_Ok mp
        key_loops document_bounded_def doc_signed_def Let_def not_less list_all_iff) blast
qed

lemma is_authorized_iff:
  "is_authorized E d p \<longleftrightarrow>
     doc_signed E d (\<lambda>m s. some_controller E p m s \<or> deactivated d \<and> some_revocation E p m s)"
  by (auto simp: is_authorized_def doc_signed_def key_loops Let_def split: option.split sum.split)

lemma verify_at_time_Ok:
  "verify_at_time E m d t = Ok () \<longleftrightarrow>
     length (controller_keys d) \<le> 20 \<and> man_kid m = doc_kid d
     \<and> valid_from m \<le> t + 300 \<and> (\<forall>e. expires_at m = Some e \<longrightarrow> t < e)
     \<and> length (services m) \<le> 50 \<and> list_all (service_bounded E) (services m)
     \<and> man_signed E m (some_controller E d)"
  by (simp add: verify_at_time_def result_simps check_services_Ok key_loops man_signed_def not_less
      if_Ok_unit split: option.split) (auto simp: not_le)

section \<open>Messages\<close>

lemma nul_separated:
  assumes "a @ x # s = b @ x # t" and "x \<notin> set a" and "x \<notin> set b"
  shows "a = b \<and> s = t"
  using assms first_separator by metis

lemma kid_message_eq:
  assumes "CHR 0x00 \<notin> set (NSP E)" and "CHR 0x00 \<notin> set (NSP F)"
  shows "kid_message E x = kid_message F y \<longleftrightarrow> NSP E = NSP F \<and> x = y"
proof -
  have "kid_message E x = kid_message F y \<longleftrightarrow>
      (NSP E @ ''-kid-v1'') @ CHR 0x00 # x = (NSP F @ ''-kid-v1'') @ CHR 0x00 # y"
    unfolding kid_message_def as_bytes_append [symmetric] as_bytes_inj by simp
  also have "\<dots> \<longleftrightarrow> NSP E @ ''-kid-v1'' = NSP F @ ''-kid-v1'' \<and> x = y"
    using assms nul_separated [of "NSP E @ ''-kid-v1''" "CHR 0x00" x "NSP F @ ''-kid-v1''" y] by auto
  finally show ?thesis by simp
qed

lemma manifest_message_eq:
  assumes "CHR 0x00 \<notin> set (NSP E)" and "CHR 0x00 \<notin> set (NSP F)"
  shows "manifest_message E x = manifest_message F y \<longleftrightarrow> NSP E = NSP F \<and> x = y"
proof -
  have "manifest_message E x = manifest_message F y \<longleftrightarrow>
      (NSP E @ ''-manifest-v1'') @ CHR 0x00 # x = (NSP F @ ''-manifest-v1'') @ CHR 0x00 # y"
    unfolding manifest_message_def as_bytes_append [symmetric] as_bytes_inj by simp
  also have "\<dots> \<longleftrightarrow> NSP E @ ''-manifest-v1'' = NSP F @ ''-manifest-v1'' \<and> x = y"
    using assms nul_separated [of "NSP E @ ''-manifest-v1''" "CHR 0x00" x "NSP F @ ''-manifest-v1''" y] by auto
  finally show ?thesis by simp
qed

lemma kid_not_manifest_message:
  assumes "CHR 0x00 \<notin> set (NSP E)" and "CHR 0x00 \<notin> set (NSP F)"
  shows "kid_message E x \<noteq> manifest_message F y"
proof
  assume "kid_message E x = manifest_message F y"
  then have "(NSP E @ ''-kid-v1'') @ CHR 0x00 # x = (NSP F @ ''-manifest-v1'') @ CHR 0x00 # y"
    unfolding manifest_message_def kid_message_def as_bytes_append [symmetric] as_bytes_inj by simp
  then have "NSP E @ ''-kid-v1'' = NSP F @ ''-manifest-v1''"
    using assms nul_separated [of "NSP E @ ''-kid-v1''" "CHR 0x00" x "NSP F @ ''-manifest-v1''" y] by auto
  then have "rev (NSP E @ ''-kid-v1'') = rev (NSP F @ ''-manifest-v1'')" by simp
  then show False by simp
qed

section \<open>Signing\<close>

text \<open>The documented behaviour of the signature and base64 libraries.\<close>

definition signing_sound :: "'x identity_env_scheme \<Rightarrow> bytes \<Rightarrow> bool" where
  "signing_sound E key \<longleftrightarrow> (\<forall>m. signed_by E (mldsa_pubkey E key) m (mldsa_sign E key m))
     \<and> (\<forall>b. b64_decode E (b64_encode E b) = Some b)"

lemma canonicalize_unsigned [simp]:
  "doc_canonicalize E (d\<lparr>doc_signature := s\<rparr>) = doc_canonicalize E d"
  "man_canonicalize E (m\<lparr>man_signature := s\<rparr>) = man_canonicalize E m"
  by (simp_all add: doc_canonicalize_def man_canonicalize_def)

lemma doc_sign_signed:
  assumes "doc_sign E d key = Ok d'" and "signing_sound E key"
    and "\<And>m s. signed_by E (mldsa_pubkey E key) m s \<Longrightarrow> accepts m s"
  shows "doc_signed E d' accepts"
  using assms by (auto simp: doc_sign_def result_simps doc_signed_def signing_sound_def)

lemma man_sign_signed:
  assumes "man_sign E d key = Ok d'" and "signing_sound E key"
    and "\<And>m s. signed_by E (mldsa_pubkey E key) m s \<Longrightarrow> accepts m s"
  shows "man_signed E d' accepts"
  using assms by (auto simp: man_sign_def result_simps man_signed_def signing_sound_def)

section \<open>Hexadecimal identifiers\<close>

lemma length_to_hex [simp]: "length (to_hex bs) = 2 * length bs"
  by (induction bs) (simp_all add: to_hex_def)

lemma hex_digit_lower: "n < 16 \<Longrightarrow> lower_hex_char (hex_digit n)"
  by (auto simp: lower_hex_char_def hex_digit_def char_class_defs code_def of_char_of)

lemma to_hex_lower: "list_all lower_hex_char (to_hex bs)"
proof (induction bs)
  case (Cons b bs)
  have "unat b < 256" using unsigned_less [of b] by simp
  then have "unat b div 16 < 16" by simp
  then show ?case using Cons by (simp add: to_hex_def hex_digit_lower)
qed (simp add: to_hex_def)

section \<open>Bounded sequences\<close>

lemma visit_loop_Ok:
  "count = length vec \<Longrightarrow> count \<le> max' \<Longrightarrow> visit_loop max' count vec seq = Ok v \<longleftrightarrow>
     (\<exists>xs. seq = map Inr xs \<and> v = vec @ xs \<and> length v \<le> max')"
proof (induction max' count vec seq rule: visit_loop.induct)
  case (3 max' count vec element rest)
  have "map Inr xs = Inr element # rest \<longleftrightarrow> (\<exists>ys. xs = element # ys \<and> rest = map Inr ys)" for xs
    by (cases xs) auto
  then have *: "Inr element # rest = map Inr xs \<longleftrightarrow> (\<exists>ys. xs = element # ys \<and> rest = map Inr ys)" for xs
    by metis
  show ?case using 3 by (auto simp: *)
next
  case (2 max' count vec e rest)
  have "Inl e # rest \<noteq> map Inr xs" for xs by (cases xs) auto
  then show ?case by simp
qed auto

lemma visit_seq_Ok:
  "visit_seq max' hint seq = Ok v \<longleftrightarrow>
     (\<forall>n. hint = Some n \<longrightarrow> n \<le> max') \<and> seq = map Inr v \<and> length v \<le> max'"
  by (auto simp: visit_seq_def result_simps visit_loop_Ok split: option.split)

lemma of_hex_digit: "n < 16 \<Longrightarrow> of_char (hex_digit n) = (if n < 10 then 48 + n else 87 + n)"
  by (simp add: hex_digit_def of_char_of)

lemma hex_digit_inj:
  assumes "m < 16" and "n < 16"
  shows "hex_digit m = hex_digit n \<longleftrightarrow> m = n"
proof
  assume "hex_digit m = hex_digit n"
  then have "(of_char (hex_digit m) :: nat) = of_char (hex_digit n)" by simp
  with assms show "m = n" by (auto simp: of_hex_digit split: if_splits)
qed simp

lemma to_hex_inj: "to_hex a = to_hex b \<Longrightarrow> a = b"
proof (induction a arbitrary: b)
  case Nil
  then have "length (to_hex b) = 0" by (simp add: to_hex_def)
  then show ?case by simp
next
  case (Cons x a)
  have "length (to_hex (x # a)) = length (to_hex b)" using Cons.prems by simp
  then obtain y c where b: "b = y # c" by (cases b) auto
  have bounds: "unat (z :: u8) div 16 < 16" "unat z mod 16 < 16" for z
    using unat_lt_u8 [of z] by auto
  from Cons.prems b have "hex_digit (unat x div 16) = hex_digit (unat y div 16)"
    "hex_digit (unat x mod 16) = hex_digit (unat y mod 16)" and rest: "to_hex a = to_hex c"
    by (simp_all add: to_hex_def)
  then have "unat x div 16 = unat y div 16" "unat x mod 16 = unat y mod 16"
    using bounds by (simp_all add: hex_digit_inj)
  then have "unat x = unat y" by (metis div_mult_mod_eq)
  then have "x = y" by (rule word_eq_unatI)
  with rest Cons.IH b show ?case by simp
qed

lemma verify_genesis_Ok:
  "verify_genesis E d = Ok () \<longleftrightarrow>
     (\<exists>k ks pk. controller_keys d = k # ks \<and> b64_decode E (public_key k) = Some pk
        \<and> as_str (doc_kid d) = DID_PREFIX E @ to_hex (sha256 E pk))"
  by (auto simp: verify_genesis_def result_simps split: list.split)

section \<open>Correctness of identities\<close>

definition sample_identity :: identity_env where
  "sample_identity = crypto.extend sample_crypto (identity_env.fields
     (\<lambda>d. Some (as_str (doc_kid d))) (\<lambda>m. Some (as_str (man_kid m))) id (\<lambda>k m. m))"

lemmas sample_identity_simps = sample_identity_def sample_crypto_simps identity_env.defs

definition sample_key :: controller_key where
  "sample_key = \<lparr>ck_id = ''k'', key_type = ''Controller'', public_key = ''K''\<rparr>"

definition sample_did :: did where
  "sample_did = Did (''did:kin:'' @ replicate 64 CHR ''a'')"

definition sample_document :: document where
  "sample_document = \<lparr>doc_type = ''kinetic.kid.v1'', doc_kid = sample_did, created_at = 1000,
     controller_keys = [sample_key], doc_manifest = None, revocation_keys = [], deactivated = False,
     doc_signature = None\<rparr>"

text \<open>A DID parses exactly when it is the network's prefix followed by 64 lower-case
  hexadecimal digits, and it then denotes itself.\<close>

lemma did_new_exact:
  "did_new E s = Ok d \<longleftrightarrow>
     d = Did s \<and> (\<exists>h. s = DID_PREFIX E @ h \<and> length h = 64 \<and> list_all lower_hex_char h)"
  by (rule did_new_Ok)

text \<open>Messages signed for documents and for manifests never coincide, and equal messages
  come from the same namespace and the same canonical text: signatures are portable between
  networks of one namespace and isolated from every other namespace.\<close>

lemma identity_messages_separated:
  assumes "CHR 0x00 \<notin> set (NSP E)" and "CHR 0x00 \<notin> set (NSP F)"
  shows "(kid_message E x = kid_message F y \<longleftrightarrow> NSP E = NSP F \<and> x = y)
    \<and> (manifest_message E x = manifest_message F y \<longleftrightarrow> NSP E = NSP F \<and> x = y)
    \<and> kid_message E x \<noteq> manifest_message F y"
  by (intro conjI kid_message_eq [OF assms] manifest_message_eq [OF assms] kid_not_manifest_message [OF assms])

text \<open>Signing an active document with a key listed among its controllers gives a document
  that verifies, and one that is an authorised update of every document listing the key.\<close>

lemma signed_document_verifies:
  assumes "doc_sign E d key = Ok d'" and "signing_sound E key" and "document_bounded E d"
    and "\<not> deactivated d" and "k \<in> set (controller_keys d)"
    and "eq_ignore_ascii_case (key_type k) ''Controller''"
    and "b64_decode E (public_key k) = Some (mldsa_pubkey E key)"
  shows "doc_verify E d' = Ok ()
    \<and> (k \<in> set (controller_keys prev) \<longrightarrow> is_authorized E d' prev)"
proof -
  from assms(1) obtain sg where d': "d' = d\<lparr>doc_signature := sg\<rparr>"
    by (auto simp: doc_sign_def result_simps)
  have acc: "some_controller E p m s" if "signed_by E (mldsa_pubkey E key) m s" "k \<in> set (controller_keys p)" for p m s
    using that assms(6,7) by (auto simp: some_controller_def)
  have "document_bounded E d'" "controller_keys d' = controller_keys d" "\<not> deactivated d'"
    using assms(3,4) by (simp_all add: d' document_bounded_def)
  moreover have signed: "doc_signed E d' (some_controller E p)" if "k \<in> set (controller_keys p)" for p
    using acc that by (intro doc_sign_signed [OF assms(1,2)])
  ultimately have "doc_verify E d' = Ok ()"
    using assms(5) signed [of d'] by (simp add: doc_verify_Ok)
  moreover have "is_authorized E d' prev" if "k \<in> set (controller_keys prev)"
    using signed [OF that] by (auto simp: is_authorized_iff doc_signed_def)
  ultimately show ?thesis by blast
qed

lemma sample_b64: "as_bytes (map (\<lambda>b. char_of (unat b)) bs) = bs"
proof (induction bs)
  case (Cons b bs)
  have "unat b < 256" using unsigned_less [of b] by simp
  then have "of_nat (code (char_of (unat b))) = b" by (simp add: code_def)
  with Cons show ?case by (simp add: as_bytes_def)
qed (simp add: as_bytes_def)

lemma sample_signing: "signing_sound sample_identity key"
  by (simp add: signing_sound_def signed_by_def sample_identity_simps sample_b64)

text \<open>Genesis binding: a document that passes \<open>verify_genesis\<close> carries a well-formed DID that
  is the digest of its primary key, and two such documents with one DID have primary keys with
  the same digest.\<close>

lemma genesis_binds_primary_key:
  assumes "verify_genesis E d = Ok ()" and "\<And>b. length (sha256 E b) = 32"
  shows "did_new E (as_str (doc_kid d)) = Ok (doc_kid d)
    \<and> (verify_genesis E d' = Ok () \<and> doc_kid d' = doc_kid d \<longrightarrow>
        (\<exists>pk pk'. b64_decode E (public_key (hd (controller_keys d))) = Some pk
          \<and> b64_decode E (public_key (hd (controller_keys d'))) = Some pk' \<and> sha256 E pk = sha256 E pk'))"
proof -
  have "did_new E (as_str (doc_kid d)) = Ok (doc_kid d)"
    using assms by (auto simp: verify_genesis_Ok did_new_Ok to_hex_lower)
  moreover have "\<exists>pk pk'. b64_decode E (public_key (hd (controller_keys d))) = Some pk
      \<and> b64_decode E (public_key (hd (controller_keys d'))) = Some pk' \<and> sha256 E pk = sha256 E pk'"
    if "verify_genesis E d' = Ok ()" "doc_kid d' = doc_kid d"
    using that assms(1) to_hex_inj by (auto simp: verify_genesis_Ok)
  ultimately show ?thesis by blast
qed

text \<open>A manifest verifies at a time exactly when it belongs to the document, is in its
  validity period (with 300 seconds of skew), respects every size limit and carries a signature
  over its canonical text by a controller of the document.\<close>

lemma manifest_verification_exact:
  "verify_at_time E m d t = Ok () \<longleftrightarrow>
     length (controller_keys d) \<le> 20 \<and> man_kid m = doc_kid d \<and> valid_from m \<le> t + 300
     \<and> (case expires_at m of None \<Rightarrow> True | Some e \<Rightarrow> t < e)
     \<and> length (services m) \<le> 50 \<and> list_all (service_bounded E) (services m)
     \<and> man_signed E m (some_controller E d)"
  by (simp add: verify_at_time_Ok split: option.split)

text \<open>The bounded sequence visitor returns exactly the elements of the stream and only when
  the stream has no element error, its size hint and its length respect the maximum.\<close>

lemma bounded_visitor_exact:
  "visit_seq max' hint seq = Ok v \<longleftrightarrow>
     (case hint of None \<Rightarrow> True | Some n \<Rightarrow> n \<le> max') \<and> seq = map Inr v \<and> length v \<le> max'"
  by (simp add: visit_seq_Ok split: option.split)

end
