(* ===== verification/Names.thy ===== *)
theory Names
  imports Network_Config
begin

text \<open>
  \<open>kinetic-core/src/types/names.rs\<close>: normalisation of names, extraction of the apex name,
  the RFC reservation list and the validation of names that may be registered.
\<close>

datatype names_error =
    NameTooLong | EmptyLabel | LabelTooLong | InvalidCharacter | InvalidHyphenPlacement
  | NotAnApexName | ReservedName

definition normalize_name :: "'x crypto_scheme \<Rightarrow> string \<Rightarrow> string" where
  "normalize_name E name =
     (let norm = pop_trailing CHR ''.'' (to_lowercase (unicode_lowercase E) name)
      in if ends_with norm (NSP_SUFFIX E) then norm else norm @ NSP_SUFFIX E)"

definition RESERVED_NAMES :: "string list" where
  "RESERVED_NAMES = [''test'', ''example'', ''invalid'', ''localhost'', ''local'', ''onion'',
     ''arpa'', ''null'', ''none'', ''zero'', ''corp'', ''lan'', ''internal'', ''home'']"

definition is_reserved_name :: "'x crypto_scheme \<Rightarrow> string \<Rightarrow> bool" where
  "is_reserved_name E name =
     (let name_lower = to_lowercase (unicode_lowercase E) name
      in list_ex (\<lambda>r. r @ NSP_SUFFIX E = name_lower) RESERVED_NAMES)"

definition extract_apex_name :: "'x crypto_scheme \<Rightarrow> string \<Rightarrow> string" where
  "extract_apex_name E name =
     (let norm = normalize_name E name; parts = split_on CHR ''.'' norm
      in if 2 \<le> length parts
         then parts ! (length parts - 2) @ CHR ''.'' # parts ! (length parts - 1)
         else norm)"

definition ldh_char :: "char \<Rightarrow> bool" where
  "ldh_char c = (is_ascii_lowercase c \<or> is_ascii_digit c \<or> c = CHR ''-'')"

text \<open>The checks of one dot-separated label, in the order of the loop body.\<close>

definition check_label :: "string \<Rightarrow> (names_error, unit) result" where
  "check_label part =
     reject_if (part = []) EmptyLabel
    (reject_if (63 < length part) LabelTooLong
    (reject_if (\<not> list_all ldh_char part) InvalidCharacter
    (reject_if (starts_with part ''-'' \<or> ends_with part ''-'') InvalidHyphenPlacement
    (Inr ()))))"

fun check_labels :: "string list \<Rightarrow> (names_error, unit) result" where
  "check_labels [] = Inr ()"
| "check_labels (part # parts) = and_then (check_label part) (\<lambda>_. check_labels parts)"

definition is_valid_apex_name :: "'x crypto_scheme \<Rightarrow> string \<Rightarrow> (names_error, unit) result" where
  "is_valid_apex_name E name =
     (let norm = normalize_name E name in
      reject_if (253 < length norm) NameTooLong
     (and_then (check_labels (split_on CHR ''.'' norm)) (\<lambda>_.
      reject_if (norm \<noteq> extract_apex_name E norm) NotAnApexName
     (reject_if (is_reserved_name E norm) ReservedName
     (Inr ())))))"

section \<open>Labels\<close>

text \<open>The LDH rule as a predicate, the specification of \<open>check_label\<close>.\<close>

definition valid_label :: "string \<Rightarrow> bool" where
  "valid_label l \<longleftrightarrow> l \<noteq> [] \<and> length l \<le> 63 \<and> list_all ldh_char l
     \<and> hd l \<noteq> CHR ''-'' \<and> last l \<noteq> CHR ''-''"

text \<open>What a namespace needs for its names to be registrable: a valid label as namespace, and
  lower-casing that leaves no ASCII capital.\<close>

definition names_ok :: "'x crypto_scheme \<Rightarrow> bool" where
  "names_ok E \<longleftrightarrow> NSP_SUFFIX E = CHR ''.'' # NSP E \<and> valid_label (NSP E)
     \<and> (\<forall>s. list_all (\<lambda>c. \<not> is_ascii_uppercase c) (unicode_lowercase E s))"

lemma check_label_iff: "check_label l = Inr () \<longleftrightarrow> valid_label l"
  by (auto simp: check_label_def valid_label_def result_simps starts_with_hd ends_with_last not_less)

lemma check_labels_iff: "check_labels ps = Inr () \<longleftrightarrow> list_all valid_label ps"
  by (induction ps) (auto simp: result_simps check_label_iff)

lemma ldh_charD:
  assumes "ldh_char c"
  shows "c \<noteq> CHR ''.''" and "is_ascii c" and "\<not> is_ascii_uppercase c"
proof -
  have "code (CHR ''-'') = 45" "code (CHR ''.'') = 46" by (simp_all add: code_def)
  with assms show "c \<noteq> CHR ''.''" "is_ascii c" "\<not> is_ascii_uppercase c"
    by (auto simp: ldh_char_def char_class_defs)
qed

lemma valid_labelD:
  assumes "valid_label l"
  shows "l \<noteq> []" and "CHR ''.'' \<notin> set l" and "length l \<le> 63"
    and "list_all is_ascii l" and "list_all (\<lambda>c. \<not> is_ascii_uppercase c) l"
  using assms by (auto simp: valid_label_def list_all_iff dest: ldh_charD)

section \<open>Normalisation\<close>

lemma normalize_ends_with: "ends_with (normalize_name E n) (NSP_SUFFIX E)"
  by (simp add: normalize_name_def Let_def)

lemma lowercase_fixed:
  "list_all is_ascii s \<Longrightarrow> list_all (\<lambda>c. \<not> is_ascii_uppercase c) s \<Longrightarrow> to_lowercase u s = s"
  by (auto simp: to_lowercase_def list_all_iff ascii_lower_fixed intro: map_idI)

lemma lowercase_no_upper:
  assumes "\<forall>s. list_all (\<lambda>c. \<not> is_ascii_uppercase c) (u s)"
  shows "list_all (\<lambda>c. \<not> is_ascii_uppercase c) (to_lowercase u s)"
  using assms by (auto simp: to_lowercase_def list_all_iff ascii_lower_not_upper)

lemma normalize_no_upper:
  assumes "names_ok E"
  shows "list_all (\<lambda>c. \<not> is_ascii_uppercase c) (normalize_name E n)"
proof -
  have u: "list_all (\<lambda>c. \<not> is_ascii_uppercase c) (to_lowercase (unicode_lowercase E) n)"
    using assms by (auto simp: names_ok_def intro: lowercase_no_upper)
  have "\<not> is_ascii_uppercase (CHR ''.'')" by (simp add: is_ascii_uppercase_def code_def)
  moreover have "list_all (\<lambda>c. \<not> is_ascii_uppercase c) (NSP E)"
    using assms by (auto simp: names_ok_def dest: valid_labelD)
  ultimately have "list_all (\<lambda>c. \<not> is_ascii_uppercase c) (NSP_SUFFIX E)"
    using assms by (simp add: names_ok_def)
  with u set_pop_trailing show ?thesis
    by (fastforce simp: normalize_name_def Let_def list_all_iff)
qed

lemma normalize_not_dot:
  assumes "names_ok E"
  shows "normalize_name E n \<noteq> []" and "last (normalize_name E n) \<noteq> CHR ''.''"
proof -
  obtain t where t: "normalize_name E n = t @ CHR ''.'' # NSP E"
    using normalize_ends_with [of E n] assms by (auto simp: ends_with_iff names_ok_def)
  have "NSP E \<noteq> []" "CHR ''.'' \<notin> set (NSP E)"
    using assms by (auto simp: names_ok_def dest: valid_labelD)
  moreover from this have "last (NSP E) \<noteq> CHR ''.''" by (metis last_in_set)
  ultimately show "normalize_name E n \<noteq> []" "last (normalize_name E n) \<noteq> CHR ''.''"
    by (simp_all add: t)
qed

lemma normalize_fixed:
  assumes "names_ok E" and "list_all is_ascii (normalize_name E n)"
  shows "normalize_name E (normalize_name E n) = normalize_name E n"
proof -
  let ?m = "normalize_name E n"
  have "to_lowercase (unicode_lowercase E) ?m = ?m"
    using assms normalize_no_upper by (blast intro: lowercase_fixed)
  moreover have "pop_trailing CHR ''.'' ?m = ?m"
    using normalize_not_dot [OF assms(1)] by (simp add: pop_trailing_fixed)
  ultimately show ?thesis
    by (subst (1) normalize_name_def) (simp add: Let_def normalize_ends_with)
qed

lemma normalize_in_suffix:
  assumes "names_ok E" "valid_label l"
  shows "normalize_name E (l @ NSP_SUFFIX E) = l @ NSP_SUFFIX E"
proof -
  let ?m = "l @ NSP_SUFFIX E"
  have nsp: "valid_label (NSP E)" "NSP_SUFFIX E = CHR ''.'' # NSP E"
    using assms by (auto simp: names_ok_def)
  have dot: "is_ascii (CHR ''.'')" "\<not> is_ascii_uppercase (CHR ''.'')"
    by (simp_all add: char_class_defs code_def)
  have "to_lowercase (unicode_lowercase E) ?m = ?m"
    using valid_labelD(4,5) [OF assms(2)] valid_labelD(4,5) [OF nsp(1)] nsp(2) dot
    by (intro lowercase_fixed) simp_all
  moreover have "pop_trailing CHR ''.'' ?m = ?m"
    using valid_labelD(1,2) [OF nsp(1)] nsp(2) by (intro pop_trailing_fixed) (auto dest: last_in_set)
  ultimately show ?thesis by (simp add: normalize_name_def Let_def)
qed

section \<open>Apex names\<close>

lemma split_apex:
  assumes "names_ok E" "valid_label l"
  shows "split_on CHR ''.'' (l @ NSP_SUFFIX E) = [l, NSP E]"
  using assms by (simp add: names_ok_def split_on_append split_on_id valid_labelD(2))

lemma extract_apex_in_suffix:
  assumes "names_ok E" "valid_label l"
  shows "extract_apex_name E (l @ NSP_SUFFIX E) = l @ NSP_SUFFIX E"
  using assms
  by (simp add: extract_apex_name_def Let_def normalize_in_suffix split_apex)
     (simp add: names_ok_def)

lemma list_all_join_ascii:
  assumes "list_all valid_label (split_on CHR ''.'' s)"
  shows "list_all is_ascii s"
proof -
  have "set (join_with CHR ''.'' (split_on CHR ''.'' s))
      \<subseteq> insert (CHR ''.'') (\<Union> (set ` set (split_on CHR ''.'' s)))"
    by (rule set_join)
  then have "set s \<subseteq> insert (CHR ''.'') (\<Union> (set ` set (split_on CHR ''.'' s)))" by simp
  moreover have "is_ascii (CHR ''.'')" by (simp add: char_class_defs code_def)
  ultimately show ?thesis
    using assms by (fastforce simp: list_all_iff dest: valid_labelD(4))
qed

text \<open>When every label is valid and the name is its own apex, it has exactly one label in front
  of the namespace suffix.\<close>

lemma own_apex_shape:
  assumes E: "names_ok E"
    and labels: "list_all valid_label (split_on CHR ''.'' (normalize_name E n))"
    and own: "normalize_name E n = extract_apex_name E (normalize_name E n)"
  shows "\<exists>l. normalize_name E n = l @ NSP_SUFFIX E \<and> valid_label l"
proof -
  let ?m = "normalize_name E n" and ?p = "split_on CHR ''.'' (normalize_name E n)"
  let ?a = "?p ! (length ?p - 2)" and ?b = "?p ! (length ?p - 1)"
  have fixed: "normalize_name E ?m = ?m"
    using E labels by (intro normalize_fixed list_all_join_ascii)
  obtain t where t: "?m = t @ CHR ''.'' # NSP E"
    using normalize_ends_with [of E n] E by (auto simp: ends_with_iff names_ok_def)
  then have two: "2 \<le> length ?p" by (simp add: length_split_on)
  with own fixed have m: "?m = ?a @ CHR ''.'' # ?b"
    by (simp add: extract_apex_name_def Let_def)
  have in_p: "?a \<in> set ?p" "?b \<in> set ?p" using two by auto
  then have va: "valid_label ?a" and vb: "valid_label ?b" using labels by (auto simp: list_all_iff)
  have "?a = t"
    using last_separator [of "CHR ''.''" ?b "NSP E" ?a t] m t vb E
    by (simp add: names_ok_def valid_labelD(2))
  with t va E show ?thesis by (auto simp: names_ok_def)
qed

lemma is_reserved_in_suffix:
  assumes "names_ok E" "valid_label l"
  shows "is_reserved_name E (l @ NSP_SUFFIX E) \<longleftrightarrow> l \<in> set RESERVED_NAMES"
proof -
  have "to_lowercase (unicode_lowercase E) (l @ NSP_SUFFIX E) = l @ NSP_SUFFIX E"
  proof (rule lowercase_fixed)
    have "is_ascii (CHR ''.'')" "\<not> is_ascii_uppercase (CHR ''.'')"
      by (simp_all add: char_class_defs code_def)
    then show "list_all is_ascii (l @ NSP_SUFFIX E)"
      "list_all (\<lambda>c. \<not> is_ascii_uppercase c) (l @ NSP_SUFFIX E)"
      using assms by (auto simp: names_ok_def dest: valid_labelD)
  qed
  then show ?thesis by (auto simp: is_reserved_name_def Let_def list_ex_iff)
qed

lemma valid_apex_shape:
  assumes "names_ok E"
  shows "is_valid_apex_name E n = Inr () \<longleftrightarrow>
    (\<exists>l. normalize_name E n = l @ NSP_SUFFIX E \<and> valid_label l \<and> l \<notin> set RESERVED_NAMES)"
    (is "?lhs \<longleftrightarrow> ?rhs")
proof
  assume ?lhs
  then have *: "list_all valid_label (split_on CHR ''.'' (normalize_name E n))"
    "normalize_name E n = extract_apex_name E (normalize_name E n)"
    "\<not> is_reserved_name E (normalize_name E n)"
    by (auto simp: is_valid_apex_name_def Let_def result_simps check_labels_iff)
  then obtain l where "normalize_name E n = l @ NSP_SUFFIX E" "valid_label l"
    using own_apex_shape [OF assms] by blast
  with * assms show ?rhs by (auto simp: is_reserved_in_suffix)
next
  assume ?rhs
  then obtain l where l: "normalize_name E n = l @ NSP_SUFFIX E" "valid_label l"
    "l \<notin> set RESERVED_NAMES" by blast
  have nsp: "valid_label (NSP E)" "NSP_SUFFIX E = CHR ''.'' # NSP E"
    using assms by (auto simp: names_ok_def)
  then have "length (l @ NSP_SUFFIX E) \<le> 253"
    using valid_labelD(3) [OF l(2)] valid_labelD(3) [OF nsp(1)] by simp
  then show ?lhs
    using l assms nsp(1)
    by (simp add: is_valid_apex_name_def Let_def result_simps check_label_iff split_apex
        extract_apex_in_suffix is_reserved_in_suffix)
qed

section \<open>Correctness of names\<close>

text \<open>The witnesses use the namespace of \<open>default_network.json\<close>.\<close>

lemma sample_names_ok:
  assumes "NSP E = ''kin''" and "NSP_SUFFIX E = ''.kin''" and "unicode_lowercase E = (\<lambda>_. [])"
  shows "names_ok E"
  using assms by (simp add: names_ok_def valid_label_def ldh_char_def char_class_defs code_def)

lemma satoshi_label: "valid_label ''satoshi'' \<and> ''satoshi'' \<notin> set RESERVED_NAMES"
  by (simp add: valid_label_def ldh_char_def char_class_defs code_def RESERVED_NAMES_def)

text \<open>A name is registrable exactly when its normal form is one LDH label of 1 to 63
  characters, not reserved and with no hyphen at either end, followed by the namespace
  suffix.\<close>

lemma valid_apex_name_exact:
  assumes "names_ok E"
  shows "is_valid_apex_name E n = Ok () \<longleftrightarrow>
    (\<exists>l. normalize_name E n = l @ NSP_SUFFIX E \<and> valid_label l \<and> l \<notin> set RESERVED_NAMES)"
  using assms by (rule valid_apex_shape)

text \<open>Normalisation is a projection on names with an ASCII normal form: it ends in the suffix,
  has no capitals, and normalising again changes nothing.\<close>

lemma normalize_name_projects:
  assumes "names_ok E" and "list_all is_ascii (normalize_name E n)"
  shows "normalize_name E (normalize_name E n) = normalize_name E n
    \<and> ends_with (normalize_name E n) (NSP_SUFFIX E)
    \<and> list_all (\<lambda>c. \<not> is_ascii_uppercase c) (normalize_name E n)"
  using normalize_fixed [OF assms] normalize_ends_with [of E n] normalize_no_upper [OF assms(1)] by simp

end
