(* ===== verification/Records.thy ===== *)
theory Records
  imports Kid Names
begin

text \<open>
  The records of the wire protocol and their canonical byte strings:
  \<open>kinetic-types/src/vdf.rs\<close>, \<open>name_record.rs\<close>, \<open>identity.rs\<close>, \<open>nrs.rs\<close>; the structural
  validation of a reveal (\<open>kinetic-core/src/types/vdf.rs\<close>) and the signature rules of
  \<open>kinetic-verify/src/signatures.rs\<close>.

  The locale \<open>signable\<close> is the shape every signed byte string has: the network salt, a domain
  tag, and a body that determines the signed content.
\<close>

section \<open>Identity attachments (identity.rs)\<close>

record authorized_kid =
  ak_name :: string
  ak_kid_doc :: document
  ak_owner_signature :: bytes

record authorized_manifest =
  am_name :: string
  am_manifest :: manifest
  am_kid_doc :: "document option"
  am_owner_signature :: bytes

text \<open>\<open>canonicalize().unwrap_or_default()\<close>\<close>

definition or_default :: "('e, string) result \<Rightarrow> string" where
  "or_default r = (case r of Inl _ \<Rightarrow> [] | Inr s \<Rightarrow> s)"

definition kid_signable_bytes :: "'x identity_env_scheme \<Rightarrow> authorized_kid \<Rightarrow> bytes \<Rightarrow> bytes" where
  "kid_signable_bytes E self network_salt =
     network_salt @ as_bytes ''-auth-kid-v1'' @ len_prefixed (as_bytes (ak_name self))
     @ len_prefixed (as_bytes (or_default (doc_canonicalize E (ak_kid_doc self))))"

definition manifest_signable_bytes :: "'x identity_env_scheme \<Rightarrow> authorized_manifest \<Rightarrow> bytes \<Rightarrow> bytes" where
  "manifest_signable_bytes E self network_salt =
     network_salt @ as_bytes ''-auth-manifest-v1'' @ len_prefixed (as_bytes (am_name self))
     @ len_prefixed (as_bytes (or_default (man_canonicalize E (am_manifest self))))"

section \<open>Commitments and reveals (vdf.rs)\<close>

record commitment =
  cm_hash :: bytes

definition derive :: "'x crypto_scheme \<Rightarrow> bytes \<Rightarrow> string \<Rightarrow> bytes \<Rightarrow> bytes \<Rightarrow> bytes \<Rightarrow> commitment" where
  "derive E network_salt name user_salt beacon_signature_bytes pubkey =
     (let drand_rand = sha256 E beacon_signature_bytes
      in \<lparr>cm_hash = sha256 E (network_salt @ as_bytes name @ user_salt @ drand_rand @ pubkey)\<rparr>)"

record vdf_proof =
  proof_bytes :: bytes

record previous_proof =
  pp_salt :: bytes
  pp_kyn :: kyn
  pp_beacon_signature :: string
  pp_iterations :: u64
  pp_vdf_proof :: vdf_proof
  pp_identity_signature :: bytes

definition previous_proof_bytes :: "previous_proof \<Rightarrow> bytes \<Rightarrow> bytes" where
  "previous_proof_bytes self network_salt =
     network_salt @ as_bytes ''vdf-prev-proof-v1'' @ pp_salt self @ u64_to_be_bytes (pp_kyn self)
     @ len_prefixed (as_bytes (pp_beacon_signature self)) @ u64_to_be_bytes (pp_iterations self)
     @ len_prefixed (proof_bytes (pp_vdf_proof self)) @ len_prefixed (pp_identity_signature self)"

definition previous_signable_bytes :: "previous_proof \<Rightarrow> bytes \<Rightarrow> bytes" where
  "previous_signable_bytes self network_salt =
     network_salt @ as_bytes ''vdf-prev-v1'' @ pp_salt self @ u64_to_be_bytes (pp_kyn self)
     @ len_prefixed (as_bytes (pp_beacon_signature self)) @ u64_to_be_bytes (pp_iterations self)
     @ len_prefixed (proof_bytes (pp_vdf_proof self))"

record reveal =
  protocol_version :: u8
  rv_name :: string
  embedded_nrs :: bytes
  rv_salt :: bytes
  rv_kyn :: kyn
  beacon_signature :: string
  rv_iterations :: u64
  rv_vdf_proof :: vdf_proof
  rv_pubkey :: bytes
  identity_signature :: bytes
  rv_authorization :: "authorized_manifest option"
  rv_previous_proof :: "previous_proof option"

definition reveal_signable_bytes :: "reveal \<Rightarrow> bytes \<Rightarrow> bytes" where
  "reveal_signable_bytes self network_salt =
     network_salt @ as_bytes ''vdf-reveal-v1'' @ [protocol_version self]
     @ len_prefixed (as_bytes (rv_name self)) @ len_prefixed (embedded_nrs self)
     @ rv_salt self @ u64_to_be_bytes (rv_kyn self)
     @ len_prefixed (as_bytes (beacon_signature self)) @ u64_to_be_bytes (rv_iterations self)
     @ len_prefixed (proof_bytes (rv_vdf_proof self)) @ len_prefixed (rv_pubkey self)
     @ (case rv_previous_proof self of
          Some p \<Rightarrow> 1 # len_prefixed (previous_proof_bytes p network_salt)
        | None \<Rightarrow> [0])"

section \<open>Name records (name_record.rs)\<close>

record heartbeat =
  hb_name :: string
  latest_kyn :: kyn
  hb_owner_signature :: bytes
  hb_authorization :: "authorized_manifest option"

definition heartbeat_signable_bytes :: "heartbeat \<Rightarrow> bytes \<Rightarrow> bytes" where
  "heartbeat_signable_bytes self network_salt =
     network_salt @ as_bytes ''-heartbeat-v1'' @ len_prefixed (as_bytes (hb_name self))
     @ u64_to_be_bytes (latest_kyn self)
     @ (case hb_authorization self of
          Some auth \<Rightarrow> 1 # len_prefixed (am_owner_signature auth)
        | None \<Rightarrow> [0])"

datatype name_envelope = Standard (standard_reveal: reveal)

definition env_name :: "name_envelope \<Rightarrow> string" where
  "env_name self = (case self of Standard r \<Rightarrow> rv_name r)"

definition env_pubkey :: "name_envelope \<Rightarrow> bytes" where
  "env_pubkey self = (case self of Standard r \<Rightarrow> rv_pubkey r)"

definition env_embedded_nrs :: "name_envelope \<Rightarrow> bytes" where
  "env_embedded_nrs self = (case self of Standard r \<Rightarrow> embedded_nrs r)"

definition env_signature :: "name_envelope \<Rightarrow> bytes" where
  "env_signature self = (case self of Standard r \<Rightarrow> identity_signature r)"

definition env_authorization :: "name_envelope \<Rightarrow> authorized_manifest option" where
  "env_authorization self = (case self of Standard r \<Rightarrow> rv_authorization r)"

lemmas env_simps [simp] = env_name_def env_pubkey_def env_embedded_nrs_def env_signature_def
  env_authorization_def

definition M_REDUNDANCY :: nat where
  "M_REDUNDANCY = 32"

text \<open>The normalisation of \<open>name_record.rs\<close>, which appends no suffix.\<close>

definition record_normalize_name :: "'x crypto_scheme \<Rightarrow> string \<Rightarrow> string" where
  "record_normalize_name E name = pop_trailing CHR ''.'' (to_lowercase (unicode_lowercase E) name)"

definition derive_storage_keys :: "'x crypto_scheme \<Rightarrow> string \<Rightarrow> bytes \<Rightarrow> bytes list" where
  "derive_storage_keys E name network_salt =
     (let normalized = record_normalize_name E name
      in map (\<lambda>i. sha256 E (network_salt @ as_bytes ''storage'' @ as_bytes normalized @ [of_nat i]))
           [0..<M_REDUNDANCY])"

definition derive_heartbeat_keys :: "'x crypto_scheme \<Rightarrow> string \<Rightarrow> bytes \<Rightarrow> bytes list" where
  "derive_heartbeat_keys E name network_salt =
     (let normalized = record_normalize_name E name
      in map (\<lambda>i. sha256 E (network_salt @ as_bytes ''heartbeat'' @ as_bytes normalized @ [of_nat i]))
           [0..<M_REDUNDANCY])"

section \<open>Host routes (nrs.rs)\<close>

record host_route =
  host_id :: string
  current_peer_id :: string
  hr_kyn :: kyn
  host_signature :: bytes

definition route_signable_bytes :: "host_route \<Rightarrow> bytes \<Rightarrow> bytes" where
  "route_signable_bytes self network_salt =
     network_salt @ as_bytes ''-nrs-routing-v1'' @ len_prefixed (as_bytes (host_id self))
     @ len_prefixed (as_bytes (current_peer_id self)) @ u64_to_be_bytes (hr_kyn self)"

section \<open>Validation of a reveal (kinetic-core/src/types/vdf.rs)\<close>

definition RESQUARING_EPOCH_KYNS :: u64 where
  "RESQUARING_EPOCH_KYNS = 5256000"

definition MAX_PAYLOAD_SIZE :: nat where
  "MAX_PAYLOAD_SIZE = 65536"

datatype reveal_validation_error =
    InvalidProtocolVersion u8 | InvalidNameError names_error | RevealPayloadTooLarge nat nat
  | InvalidBeaconSignatureLength nat nat | RevealPubkeyLength nat nat | InvalidSignatureLength nat nat
  | VdfProofTooLarge nat nat

definition validate :: "'x crypto_scheme \<Rightarrow> reveal \<Rightarrow> (reveal_validation_error, unit) result" where
  "validate E self =
     reject_if (protocol_version self \<noteq> 1) (InvalidProtocolVersion (protocol_version self))
    (and_then (map_err InvalidNameError (is_valid_apex_name E (rv_name self))) (\<lambda>_.
     reject_if (MAX_PAYLOAD_SIZE < length (embedded_nrs self))
       (RevealPayloadTooLarge (length (embedded_nrs self)) MAX_PAYLOAD_SIZE)
    (reject_if (length (beacon_signature self) \<noteq> 192)
       (InvalidBeaconSignatureLength 192 (length (beacon_signature self)))
    (reject_if (length (rv_pubkey self) \<noteq> KINETIC_PUBKEY_LENGTH)
       (RevealPubkeyLength KINETIC_PUBKEY_LENGTH (length (rv_pubkey self)))
    (reject_if (length (identity_signature self) \<noteq> KINETIC_SIGNATURE_LENGTH)
       (InvalidSignatureLength KINETIC_SIGNATURE_LENGTH (length (identity_signature self)))
    (reject_if (2048 < length (proof_bytes (rv_vdf_proof self)))
       (VdfProofTooLarge (length (proof_bytes (rv_vdf_proof self))) 2048)
    (Ok ())))))))"

section \<open>Signatures of a reveal (kinetic-verify/src/signatures.rs)\<close>

datatype signature_verify_error =
    SigMalformedPublicKey | SigMalformedSignature | SigInvalid | DelegatedCapabilityMissing | DelegatedAuthorizationInvalid
  | DelegatedScopeViolation | DelegatedKidDocumentMissing

text \<open>The loop over the controller keys of a delegate, also used for heartbeats.\<close>

definition delegate_verifies :: "'x crypto_scheme \<Rightarrow> bytes \<Rightarrow> bytes \<Rightarrow> document \<Rightarrow> bool" where
  "delegate_verifies E signable sig kid_doc =
     list_ex (\<lambda>ck. key_type ck = ''Delegated'' \<and> key_verifies E signable sig (public_key ck))
       (controller_keys kid_doc)"

definition has_capability :: "string \<Rightarrow> authorized_manifest \<Rightarrow> bool" where
  "has_capability cap auth = list_ex (\<lambda>s. service_type s = cap) (services (am_manifest auth))"

definition reveal_verify_signature ::
  "'x identity_env_scheme \<Rightarrow> reveal \<Rightarrow> bytes \<Rightarrow> (signature_verify_error, unit) result" where
  "reveal_verify_signature E self network_salt =
     (let signable = reveal_signable_bytes self network_salt in
      and_then
        (case rv_authorization self of
           Some auth \<Rightarrow>
             reject_if (am_name auth \<noteq> rv_name self) DelegatedScopeViolation
            (reject_if (is_err (verify_signature E (rv_pubkey self)
                          (manifest_signable_bytes E auth network_salt) (am_owner_signature auth)))
               DelegatedAuthorizationInvalid
            (reject_if (\<not> has_capability ''kinetic.capability.dns_update'' auth) DelegatedCapabilityMissing
            (and_then (ok_or DelegatedKidDocumentMissing (am_kid_doc auth)) (\<lambda>kid_doc.
             reject_if (\<not> delegate_verifies E signable (identity_signature self) kid_doc) SigInvalid
            (Ok ())))))
         | None \<Rightarrow>
             reject_if (is_err (verify_signature E (rv_pubkey self) signable (identity_signature self)))
               SigInvalid (Ok ()))
        (\<lambda>_.
         case rv_previous_proof self of
           Some prev \<Rightarrow>
             reject_if (is_err (verify_signature E (rv_pubkey self)
                          (previous_signable_bytes prev network_salt) (pp_identity_signature prev)))
               SigInvalid (Ok ())
         | None \<Rightarrow> Ok ()))"

definition envelope_verify_signature ::
  "'x identity_env_scheme \<Rightarrow> name_envelope \<Rightarrow> bytes \<Rightarrow> (signature_verify_error, unit) result" where
  "envelope_verify_signature E self network_salt =
     (case self of Standard r \<Rightarrow> reveal_verify_signature E r network_salt)"

end
