(* ===== verification/Signable.thy ===== *)
theory Signable
  imports Records
begin

text \<open>
  The signed byte strings of \<open>kinetic-types\<close> as one interface. \<open>signable\<close> is the contract of
  a \<open>signable_bytes\<close> method: salt, domain tag, and a body that determines what is signed. All
  six record types interpret it; replay protection across networks, separation of the record
  types and the derivation of DHT keys and commitments follow.
\<close>

section \<open>The contract\<close>

locale signable =
  fixes tag :: string and enc :: "'r \<Rightarrow> bytes \<Rightarrow> bytes" and body :: "'r \<Rightarrow> bytes \<Rightarrow> bytes"
    and content :: "'r \<Rightarrow> 'c" and fits :: "'r \<Rightarrow> bool"
  assumes layout: "enc r salt = salt @ as_bytes tag @ body r salt"
    and body_content: "length salt = 32 \<Longrightarrow> fits r \<Longrightarrow> fits r' \<Longrightarrow> body r salt = body r' salt
      \<Longrightarrow> content r = content r'"
begin

lemma same_salt:
  assumes "length s = 32" and "length s' = 32" and "enc r s = enc r' s'"
  shows "s = s'"
  using assms by (simp add: layout)

lemma content_determined:
  assumes "length s = 32" and "length s' = 32" and "fits r" and "fits r'" and "enc r s = enc r' s'"
  shows "s = s' \<and> content r = content r'"
proof -
  have s: "s = s'" by (rule same_salt [OF assms(1,2,5)])
  with assms(5) have "body r s = body r' s" by (simp add: layout)
  then have "content r = content r'" by (rule body_content [OF assms(1,3,4)])
  with s show ?thesis ..
qed

end

text \<open>Two tags are separated when neither is a prefix of the other.\<close>

definition tags_differ :: "string \<Rightarrow> string \<Rightarrow> bool" where
  "tags_differ t t' = (take (min (length t) (length t')) t \<noteq> take (min (length t) (length t')) t')"

lemma tag_separation:
  assumes "tags_differ t t'" and "length s = length s'"
  shows "s @ as_bytes t @ b \<noteq> s' @ as_bytes t' @ b'"
proof
  let ?n = "min (length t) (length t')"
  assume "s @ as_bytes t @ b = s' @ as_bytes t' @ b'"
  then have "as_bytes t @ b = as_bytes t' @ b'" using assms(2) by simp
  then have "take ?n (as_bytes t @ b) = take ?n (as_bytes t' @ b')" by simp
  then have "take ?n (as_bytes t) = take ?n (as_bytes t')" by simp
  then have "as_bytes (take ?n t) = as_bytes (take ?n t')" by (simp add: as_bytes_def take_map)
  with assms(1) show False by (simp add: tags_differ_def)
qed

section \<open>The record types\<close>

abbreviation short :: "'a list \<Rightarrow> bool" where
  "short x \<equiv> length x < 2 ^ 32"

definition previous_fits :: "previous_proof \<Rightarrow> bool" where
  "previous_fits p \<longleftrightarrow> length (pp_salt p) = 32 \<and> short (pp_beacon_signature p)
     \<and> short (proof_bytes (pp_vdf_proof p)) \<and> short (pp_identity_signature p)
     \<and> length (previous_proof_bytes p (replicate 32 0)) < 2 ^ 32"

definition reveal_fits :: "reveal \<Rightarrow> bool" where
  "reveal_fits r \<longleftrightarrow> length (rv_salt r) = 32 \<and> short (rv_name r) \<and> short (embedded_nrs r)
     \<and> short (beacon_signature r) \<and> short (proof_bytes (rv_vdf_proof r)) \<and> short (rv_pubkey r)
     \<and> (case rv_previous_proof r of None \<Rightarrow> True | Some p \<Rightarrow> previous_fits p)"

definition heartbeat_fits :: "heartbeat \<Rightarrow> bool" where
  "heartbeat_fits h \<longleftrightarrow> short (hb_name h)
     \<and> (case hb_authorization h of None \<Rightarrow> True | Some a \<Rightarrow> short (am_owner_signature a))"

definition route_fits :: "host_route \<Rightarrow> bool" where
  "route_fits h \<longleftrightarrow> short (host_id h) \<and> short (current_peer_id h)"

definition kid_fits :: "'x identity_env_scheme \<Rightarrow> authorized_kid \<Rightarrow> bool" where
  "kid_fits E a \<longleftrightarrow> short (ak_name a) \<and> short (or_default (doc_canonicalize E (ak_kid_doc a)))"

definition manifest_fits :: "'x identity_env_scheme \<Rightarrow> authorized_manifest \<Rightarrow> bool" where
  "manifest_fits E a \<longleftrightarrow> short (am_name a) \<and> short (or_default (man_canonicalize E (am_manifest a)))"

text \<open>What each signature binds: a reveal without its own signature and authorisation, a
  previous proof without its signature, and the listed fields of the others.\<close>

datatype signed_content =
    SignedReveal reveal
  | SignedPrevious previous_proof
  | SignedHeartbeat string kyn "bytes option"
  | SignedKid string string
  | SignedManifest string string
  | SignedRoute string string kyn

definition reveal_content :: "reveal \<Rightarrow> signed_content" where
  "reveal_content r = SignedReveal (r\<lparr>identity_signature := [], rv_authorization := None\<rparr>)"

definition previous_content :: "previous_proof \<Rightarrow> signed_content" where
  "previous_content p = SignedPrevious (p\<lparr>pp_identity_signature := []\<rparr>)"

definition heartbeat_content :: "heartbeat \<Rightarrow> signed_content" where
  "heartbeat_content h = SignedHeartbeat (hb_name h) (latest_kyn h)
     (map_option am_owner_signature (hb_authorization h))"

definition kid_content :: "'x identity_env_scheme \<Rightarrow> authorized_kid \<Rightarrow> signed_content" where
  "kid_content E a = SignedKid (ak_name a) (or_default (doc_canonicalize E (ak_kid_doc a)))"

definition manifest_content :: "'x identity_env_scheme \<Rightarrow> authorized_manifest \<Rightarrow> signed_content" where
  "manifest_content E a = SignedManifest (am_name a) (or_default (man_canonicalize E (am_manifest a)))"

definition route_content :: "host_route \<Rightarrow> signed_content" where
  "route_content h = SignedRoute (host_id h) (current_peer_id h) (hr_kyn h)"

lemmas content_defs = reveal_content_def previous_content_def heartbeat_content_def kid_content_def
  manifest_content_def route_content_def

lemmas fits_defs = reveal_fits_def previous_fits_def heartbeat_fits_def kid_fits_def
  manifest_fits_def route_fits_def

lemma previous_bytes_inj:
  assumes "length s = 32" and "previous_fits p" and "previous_fits q"
    and "previous_proof_bytes p s = previous_proof_bytes q s"
  shows "p = q"
  using assms
  by (cases "pp_vdf_proof p"; cases "pp_vdf_proof q")
     (auto simp: previous_proof_bytes_def previous_fits_def enc_simps intro!: previous_proof.equality)

lemma length_previous_bytes:
  "length (previous_proof_bytes p s) = length s + length (previous_proof_bytes p [])"
  by (simp add: previous_proof_bytes_def)

definition reveal_body :: "reveal \<Rightarrow> bytes \<Rightarrow> bytes" where
  "reveal_body r s = drop (length s + 13) (reveal_signable_bytes r s)"

definition previous_body :: "previous_proof \<Rightarrow> bytes \<Rightarrow> bytes" where
  "previous_body p s = drop (length s + 11) (previous_signable_bytes p s)"

definition heartbeat_body :: "heartbeat \<Rightarrow> bytes \<Rightarrow> bytes" where
  "heartbeat_body h s = drop (length s + 13) (heartbeat_signable_bytes h s)"

definition kid_body :: "'x identity_env_scheme \<Rightarrow> authorized_kid \<Rightarrow> bytes \<Rightarrow> bytes" where
  "kid_body E a s = drop (length s + 12) (kid_signable_bytes E a s)"

definition manifest_body :: "'x identity_env_scheme \<Rightarrow> authorized_manifest \<Rightarrow> bytes \<Rightarrow> bytes" where
  "manifest_body E a s = drop (length s + 17) (manifest_signable_bytes E a s)"

definition route_body :: "host_route \<Rightarrow> bytes \<Rightarrow> bytes" where
  "route_body h s = drop (length s + 15) (route_signable_bytes h s)"

lemma reveal_body_content:
  assumes s: "length s = 32" and "reveal_fits r" and "reveal_fits r'" and eq: "reveal_body r s = reveal_body r' s"
  shows "reveal_content r = reveal_content r'"
proof -
  have len: "length (previous_proof_bytes p s) < 2 ^ 32" if "previous_fits p" for p
    using that s length_previous_bytes [of p s] length_previous_bytes [of p "replicate 32 0"]
    by (simp add: previous_fits_def)
  have opt: "rv_previous_proof r = rv_previous_proof r'"
    if "(case rv_previous_proof r of Some p \<Rightarrow> 1 # len_prefixed (previous_proof_bytes p s) | None \<Rightarrow> [0 :: u8])
      = (case rv_previous_proof r' of Some p \<Rightarrow> 1 # len_prefixed (previous_proof_bytes p s) | None \<Rightarrow> [0])"
    using that assms len previous_bytes_inj [OF s]
    by (auto simp: reveal_fits_def enc_simps split: option.splits)
  from eq assms opt show ?thesis
    by (cases "rv_vdf_proof r"; cases "rv_vdf_proof r'")
       (auto simp: reveal_body_def reveal_signable_bytes_def reveal_fits_def enc_simps
         reveal_content_def intro!: reveal.equality)
qed

lemma previous_body_content:
  assumes "length s = 32" and "previous_fits r" and "previous_fits r'" and "previous_body r s = previous_body r' s"
  shows "previous_content r = previous_content r'"
  using assms
  by (cases "pp_vdf_proof r"; cases "pp_vdf_proof r'")
     (auto simp: previous_body_def previous_signable_bytes_def previous_fits_def enc_simps
       previous_content_def intro!: previous_proof.equality)

lemma heartbeat_body_content:
  assumes "length s = 32" and "heartbeat_fits r" and "heartbeat_fits r'" and "heartbeat_body r s = heartbeat_body r' s"
  shows "heartbeat_content r = heartbeat_content r'"
  using assms
  by (auto simp: heartbeat_body_def heartbeat_signable_bytes_def heartbeat_fits_def enc_simps
      heartbeat_content_def split: option.splits)

lemma kid_body_content:
  assumes "length s = 32" and "kid_fits E r" and "kid_fits E r'" and "kid_body E r s = kid_body E r' s"
  shows "kid_content E r = kid_content E r'"
  using assms
  by (auto simp: kid_body_def kid_signable_bytes_def kid_fits_def enc_simps kid_content_def)

lemma manifest_body_content:
  assumes "length s = 32" and "manifest_fits E r" and "manifest_fits E r'" and "manifest_body E r s = manifest_body E r' s"
  shows "manifest_content E r = manifest_content E r'"
  using assms
  by (auto simp: manifest_body_def manifest_signable_bytes_def manifest_fits_def enc_simps manifest_content_def)

lemma route_body_content:
  assumes "length s = 32" and "route_fits r" and "route_fits r'" and "route_body r s = route_body r' s"
  shows "route_content r = route_content r'"
  using assms
  by (auto simp: route_body_def route_signable_bytes_def route_fits_def enc_simps route_content_def)

interpretation reveal_sig: signable "''vdf-reveal-v1''" reveal_signable_bytes reveal_body reveal_content reveal_fits
  by unfold_locales (simp add: reveal_body_def reveal_signable_bytes_def, rule reveal_body_content)

interpretation previous_sig: signable "''vdf-prev-v1''" previous_signable_bytes previous_body previous_content previous_fits
  by unfold_locales (simp add: previous_body_def previous_signable_bytes_def, rule previous_body_content)

interpretation heartbeat_sig: signable "''-heartbeat-v1''" heartbeat_signable_bytes heartbeat_body heartbeat_content heartbeat_fits
  by unfold_locales (simp add: heartbeat_body_def heartbeat_signable_bytes_def, rule heartbeat_body_content)

interpretation kid_sig: signable "''-auth-kid-v1''" "kid_signable_bytes E" "kid_body E" "kid_content E" "kid_fits E" for E
  by unfold_locales (simp add: kid_body_def kid_signable_bytes_def, rule kid_body_content)

interpretation manifest_sig: signable "''-auth-manifest-v1''" "manifest_signable_bytes E" "manifest_body E"
    "manifest_content E" "manifest_fits E" for E
  by unfold_locales (simp add: manifest_body_def manifest_signable_bytes_def, rule manifest_body_content)

interpretation route_sig: signable "''-nrs-routing-v1''" route_signable_bytes route_body route_content route_fits
  by unfold_locales (simp add: route_body_def route_signable_bytes_def, rule route_body_content)

section \<open>One signature space\<close>

datatype signed_record =
    RReveal reveal | RPrevious previous_proof | RHeartbeat heartbeat
  | RKid authorized_kid | RManifest authorized_manifest | RRoute host_route

fun record_bytes :: "'x identity_env_scheme \<Rightarrow> signed_record \<Rightarrow> bytes \<Rightarrow> bytes" where
  "record_bytes E (RReveal r) = reveal_signable_bytes r"
| "record_bytes E (RPrevious r) = previous_signable_bytes r"
| "record_bytes E (RHeartbeat r) = heartbeat_signable_bytes r"
| "record_bytes E (RKid r) = kid_signable_bytes E r"
| "record_bytes E (RManifest r) = manifest_signable_bytes E r"
| "record_bytes E (RRoute r) = route_signable_bytes r"

fun record_content :: "'x identity_env_scheme \<Rightarrow> signed_record \<Rightarrow> signed_content" where
  "record_content E (RReveal r) = reveal_content r"
| "record_content E (RPrevious r) = previous_content r"
| "record_content E (RHeartbeat r) = heartbeat_content r"
| "record_content E (RKid r) = kid_content E r"
| "record_content E (RManifest r) = manifest_content E r"
| "record_content E (RRoute r) = route_content r"

fun record_fits :: "'x identity_env_scheme \<Rightarrow> signed_record \<Rightarrow> bool" where
  "record_fits E (RReveal r) = reveal_fits r"
| "record_fits E (RPrevious r) = previous_fits r"
| "record_fits E (RHeartbeat r) = heartbeat_fits r"
| "record_fits E (RKid r) = kid_fits E r"
| "record_fits E (RManifest r) = manifest_fits E r"
| "record_fits E (RRoute r) = route_fits r"

fun record_tag :: "signed_record \<Rightarrow> string" where
  "record_tag (RReveal _) = ''vdf-reveal-v1''"
| "record_tag (RPrevious _) = ''vdf-prev-v1''"
| "record_tag (RHeartbeat _) = ''-heartbeat-v1''"
| "record_tag (RKid _) = ''-auth-kid-v1''"
| "record_tag (RManifest _) = ''-auth-manifest-v1''"
| "record_tag (RRoute _) = ''-nrs-routing-v1''"

lemma record_layout: "\<exists>b. record_bytes E x s = s @ as_bytes (record_tag x) @ b"
  by (cases x) (simp_all only: record_bytes.simps record_tag.simps reveal_sig.layout previous_sig.layout
      heartbeat_sig.layout kid_sig.layout manifest_sig.layout route_sig.layout, blast+)

lemma record_tags:
  "tags_differ (record_tag x) (record_tag y) \<or> record_tag x = record_tag y"
  by (cases x; cases y) (simp_all add: tags_differ_def min_def)

lemma same_tag:
  assumes "length s = length s'" and "record_bytes E x s = record_bytes E y s'"
  shows "record_tag x = record_tag y"
proof -
  obtain b b' where "record_bytes E x s = s @ as_bytes (record_tag x) @ b"
    "record_bytes E y s' = s' @ as_bytes (record_tag y) @ b'"
    using record_layout by metis
  with assms tag_separation [of "record_tag x" "record_tag y" s s' b b'] record_tags [of x y]
  show ?thesis by auto
qed

lemma record_content_determined:
  assumes "length s = 32" and "length s' = 32" and "record_fits E x" and "record_fits E y"
    and "record_bytes E x s = record_bytes E y s'"
  shows "s = s' \<and> record_content E x = record_content E y"
proof -
  have tag: "record_tag x = record_tag y" using assms by (intro same_tag [of s s' E]) simp_all
  show ?thesis
  proof (cases x)
    case (RReveal r)
    with tag obtain r' where "y = RReveal r'" by (cases y) simp_all
    with assms RReveal reveal_sig.content_determined [of s s' r r'] show ?thesis by simp
  next
    case (RPrevious r)
    with tag obtain r' where "y = RPrevious r'" by (cases y) simp_all
    with assms RPrevious previous_sig.content_determined [of s s' r r'] show ?thesis by simp
  next
    case (RHeartbeat r)
    with tag obtain r' where "y = RHeartbeat r'" by (cases y) simp_all
    with assms RHeartbeat heartbeat_sig.content_determined [of s s' r r'] show ?thesis by simp
  next
    case (RKid r)
    with tag obtain r' where "y = RKid r'" by (cases y) simp_all
    with assms RKid kid_sig.content_determined [of s s' E r r'] show ?thesis by simp
  next
    case (RManifest r)
    with tag obtain r' where "y = RManifest r'" by (cases y) simp_all
    with assms RManifest manifest_sig.content_determined [of s s' E r r'] show ?thesis by simp
  next
    case (RRoute r)
    with tag obtain r' where "y = RRoute r'" by (cases y) simp_all
    with assms RRoute route_sig.content_determined [of s s' r r'] show ?thesis by simp
  qed
qed

section \<open>Derived keys\<close>

definition key_preimage :: "bytes \<Rightarrow> string \<Rightarrow> string \<Rightarrow> nat \<Rightarrow> bytes" where
  "key_preimage salt tag name i = salt @ as_bytes tag @ as_bytes name @ [of_nat i]"

text \<open>The digests computed for a name.\<close>

definition key_preimages :: "'x crypto_scheme \<Rightarrow> bytes \<Rightarrow> string \<Rightarrow> bytes set" where
  "key_preimages E salt name =
     (\<Union>tag\<in>{''storage'', ''heartbeat''}. key_preimage salt tag (record_normalize_name E name) ` {0..<32})"

lemma small_byte_inj: "i < 32 \<Longrightarrow> j < 32 \<Longrightarrow> (of_nat i :: u8) = of_nat j \<longleftrightarrow> i = j"
proof -
  assume "i < 32" "j < 32"
  then have "unat (of_nat i :: u8) = i" "unat (of_nat j :: u8) = j"
    by (simp_all add: unat_of_nat)
  then show ?thesis by metis
qed

lemma key_preimage_eq:
  assumes "i < 32" and "j < 32"
  shows "key_preimage s t n i = key_preimage s t n' j \<longleftrightarrow> n = n' \<and> i = j"
  using small_byte_inj [OF assms] by (simp add: key_preimage_def)

lemma key_preimage_tags: "key_preimage s ''storage'' n i \<noteq> key_preimage s ''heartbeat'' n' j"
  by (simp add: key_preimage_def as_bytes_def code_def)

lemma storage_keys_eq:
  "derive_storage_keys E name s = map (\<lambda>i. sha256 E (key_preimage s ''storage'' (record_normalize_name E name) i)) [0..<32]"
  by (simp add: derive_storage_keys_def key_preimage_def M_REDUNDANCY_def Let_def)

lemma heartbeat_keys_eq:
  "derive_heartbeat_keys E name s = map (\<lambda>i. sha256 E (key_preimage s ''heartbeat'' (record_normalize_name E name) i)) [0..<32]"
  by (simp add: derive_heartbeat_keys_def key_preimage_def M_REDUNDANCY_def Let_def)

lemma in_key_preimages:
  "i < 32 \<Longrightarrow> key_preimage s ''storage'' (record_normalize_name E a) i \<in> key_preimages E s a"
  "i < 32 \<Longrightarrow> key_preimage s ''heartbeat'' (record_normalize_name E a) i \<in> key_preimages E s a"
  by (auto simp: key_preimages_def)

lemma derived_keys_distinct:
  assumes inj: "inj_on (sha256 E) (key_preimages E s a)"
  shows "distinct (derive_storage_keys E a s @ derive_heartbeat_keys E a s)"
proof -
  let ?n = "record_normalize_name E a"
  have eq: "sha256 E (key_preimage s t ?n i) = sha256 E (key_preimage s t' ?n j)
      \<longleftrightarrow> key_preimage s t ?n i = key_preimage s t' ?n j"
    if "i < 32" "j < 32" "t = ''storage'' \<or> t = ''heartbeat''" "t' = ''storage'' \<or> t' = ''heartbeat''" for t t' i j
    using inj_on_eq_iff [OF inj] in_key_preimages that by metis
  have "inj_on (\<lambda>i. sha256 E (key_preimage s t ?n i)) {0..<32}" if "t = ''storage'' \<or> t = ''heartbeat''" for t
    using that by (intro inj_onI) (simp add: eq key_preimage_eq)
  then have d: "distinct (derive_storage_keys E a s)" "distinct (derive_heartbeat_keys E a s)"
    by (simp_all add: storage_keys_eq heartbeat_keys_eq distinct_map)
  have "set (derive_storage_keys E a s) \<inter> set (derive_heartbeat_keys E a s) = {}"
    by (auto simp: storage_keys_eq heartbeat_keys_eq eq key_preimage_tags)
  with d show ?thesis by simp
qed

lemma storage_keys_of_names:
  assumes inj: "inj_on (sha256 E) (key_preimages E s a \<union> key_preimages E s b)"
    and "k \<in> set (derive_storage_keys E a s)" and "k \<in> set (derive_storage_keys E b s)"
  shows "record_normalize_name E a = record_normalize_name E b"
proof -
  obtain i j where ij: "i < 32" "j < 32"
    "sha256 E (key_preimage s ''storage'' (record_normalize_name E a) i)
     = sha256 E (key_preimage s ''storage'' (record_normalize_name E b) j)"
    using assms(2,3) by (auto simp: storage_keys_eq)
  then have "key_preimage s ''storage'' (record_normalize_name E a) i
      = key_preimage s ''storage'' (record_normalize_name E b) j"
    using inj_on_eq_iff [OF inj] in_key_preimages by (metis UnI1 UnI2)
  with ij show ?thesis by (simp add: key_preimage_eq)
qed

section \<open>Commitments\<close>

text \<open>The preimage of a commitment has no length prefixes; the fixed sizes of salts, digests and
  keys make it parse in one way only.\<close>

lemma commitment_preimage_inj:
  assumes "ns @ n @ us @ d @ pk = ns' @ n' @ us' @ d' @ pk'"
    and "length ns = length ns'" "length us = length us'" "length d = length d'" "length pk = length pk'"
  shows "ns = ns' \<and> n = n' \<and> us = us' \<and> d = d' \<and> pk = pk'"
proof -
  have "ns = ns'" and r: "n @ (us @ d @ pk) = n' @ (us' @ d' @ pk')" using assms by simp_all
  moreover have "length (us @ d @ pk) = length (us' @ d' @ pk')" using assms by simp
  ultimately have "n = n'" "us @ d @ pk = us' @ d' @ pk'" by (metis append_eq_append_conv)+
  with assms \<open>ns = ns'\<close> show ?thesis by simp
qed

section \<open>Correctness of the signed formats\<close>

definition sample_heartbeat :: heartbeat where
  "sample_heartbeat = \<lparr>hb_name = ''alice.kin'', latest_kyn = 100, hb_owner_signature = [],
     hb_authorization = None\<rparr>"

definition sample_route :: host_route where
  "sample_route = \<lparr>host_id = ''alice.kin'', current_peer_id = [], hr_kyn = 100, host_signature = []\<rparr>"

text \<open>C35. Replay protection and domain separation: over all six signed record types, equal signed
  bytes imply the same network salt, the same record type and the same signed content.\<close>

theorem signatures_bind_content:
  assumes "length s = 32" and "length s' = 32" and "record_fits E x" and "record_fits E y"
    and "record_bytes E x s = record_bytes E y s'"
  shows "s = s' \<and> record_content E x = record_content E y"
  using assms by (rule record_content_determined)

theorem signatures_bind_content_witness:
  "record_bytes sample_identity (RHeartbeat sample_heartbeat) (replicate 32 7)
     \<noteq> record_bytes sample_identity (RHeartbeat sample_heartbeat) (replicate 32 8)
   \<and> record_bytes sample_identity (RHeartbeat sample_heartbeat) (replicate 32 7)
     \<noteq> record_bytes sample_identity (RRoute sample_route) (replicate 32 7)"
proof -
  have fits: "record_fits sample_identity (RHeartbeat sample_heartbeat)"
    "record_fits sample_identity (RRoute sample_route)"
    by (simp_all add: heartbeat_fits_def route_fits_def sample_heartbeat_def sample_route_def)
  have "replicate 32 7 \<noteq> (replicate 32 8 :: bytes)" by (simp add: replicate_eq_replicate)
  then show ?thesis
    using signatures_bind_content [of "replicate 32 7" "replicate 32 8" sample_identity
        "RHeartbeat sample_heartbeat" "RHeartbeat sample_heartbeat"]
      signatures_bind_content [of "replicate 32 7" "replicate 32 7" sample_identity
        "RHeartbeat sample_heartbeat" "RRoute sample_route"] fits
    by (auto simp: heartbeat_content_def route_content_def)
qed

text \<open>When the digest has no collision on the preimages of a name, its 32 storage keys and 32
  heartbeat keys are 64 distinct keys; two names share a storage key only when they have the
  same normal form.\<close>

lemma dht_keys_separated:
  assumes "inj_on (sha256 E) (key_preimages E s a \<union> key_preimages E s b)"
  shows "length (derive_storage_keys E a s @ derive_heartbeat_keys E a s) = 64
    \<and> distinct (derive_storage_keys E a s @ derive_heartbeat_keys E a s)
    \<and> (set (derive_storage_keys E a s) \<inter> set (derive_storage_keys E b s) \<noteq> {}
        \<longleftrightarrow> record_normalize_name E a = record_normalize_name E b)"
proof -
  have len: "length (derive_storage_keys E a s @ derive_heartbeat_keys E a s) = 64"
    by (simp add: storage_keys_eq heartbeat_keys_eq)
  have "inj_on (sha256 E) (key_preimages E s a)" using assms by (rule inj_on_subset) simp
  then have d: "distinct (derive_storage_keys E a s @ derive_heartbeat_keys E a s)"
    by (rule derived_keys_distinct)
  have "record_normalize_name E a = record_normalize_name E b"
    if "set (derive_storage_keys E a s) \<inter> set (derive_storage_keys E b s) \<noteq> {}"
    using that storage_keys_of_names [OF assms] by blast
  moreover have "set (derive_storage_keys E a s) \<inter> set (derive_storage_keys E b s) \<noteq> {}"
    if "record_normalize_name E a = record_normalize_name E b"
    using that by (simp add: storage_keys_eq)
  ultimately show ?thesis using len d by blast
qed

text \<open>A commitment binds its name, its blinding salt, the beacon digest and the owner key:
  on preimages where the digest does not collide, equal commitments on one network agree on
  all four.\<close>

lemma commitment_binds:
  assumes "derive E ns name salt bs pk = derive E ns name' salt' bs' pk'"
    and "length salt = 32" and "length salt' = 32" and "length pk = length pk'"
    and "\<And>b. length (sha256 E b) = 32"
    and "inj_on (sha256 E) {ns @ as_bytes name @ salt @ sha256 E bs @ pk,
            ns @ as_bytes name' @ salt' @ sha256 E bs' @ pk'}"
  shows "name = name' \<and> salt = salt' \<and> sha256 E bs = sha256 E bs' \<and> pk = pk'"
proof -
  let ?A = "ns @ as_bytes name @ salt @ sha256 E bs @ pk"
    and ?B = "ns @ as_bytes name' @ salt' @ sha256 E bs' @ pk'"
  have "sha256 E ?A = sha256 E ?B" 
    using arg_cong [OF assms(1), of cm_hash] by (simp only: derive_def Let_def commitment.select_convs)
  then have eq: "?A = ?B" by (rule inj_onD [OF assms(6)]) blast+
  have "length (sha256 E bs) = length (sha256 E bs')" by (simp only: assms(5))
  then have "as_bytes name = as_bytes name' \<and> salt = salt' \<and> sha256 E bs = sha256 E bs' \<and> pk = pk'"
    using commitment_preimage_inj [OF eq refl _ _ assms(4)] assms(2,3) by simp
  then show ?thesis by simp
qed

end
