(* ===== verification/Physics.thy ===== *)
theory Physics
  imports Names
begin

text \<open>
  \<open>kinetic-core/src/physics.rs\<close>: the Name Difficulty Curve and the inverse-square takeover
  decay, at the widths of the source (\<open>u64\<close> results of \<open>u128\<close> intermediate products).
\<close>

record network_physics =
  takeover_target_kyns :: u64

definition default_physics :: "'x network_constants_scheme \<Rightarrow> network_physics" where
  "default_physics E = \<lparr>takeover_target_kyns = TAKEOVER_TARGET_KYNS E\<rparr>"

definition anchor :: "'x network_constants_scheme \<Rightarrow> u64" where
  "anchor E = BASE_ITERATIONS E"

text \<open>
  The closure \<open>calc\<close>: scales the anchor to a target number of minutes. \<open>TARGET_MINUTES\<close> is the
  value of the cast \<open>TARGET_MINUTES as u64\<close>; a build with 0 there panics on the division, so
  every theorem below asks for a positive value.
\<close>

definition calc :: "'x network_constants_scheme \<Rightarrow> u64 \<Rightarrow> u64" where
  "calc E target_minutes =
     ucast ((ucast (anchor E) * ucast target_minutes :: u128) div ucast (TARGET_MINUTES E))"

definition label_iters :: "'x network_constants_scheme \<Rightarrow> string \<Rightarrow> u64" where
  "label_iters E label =
     (if dev_mode E then DEV_MODE_ITERATIONS E
      else let len = length label; base = anchor E in
        if len \<le> 1 then calc E (NDC_LEN_0_TO_1 E)
        else if len = 2 then calc E (NDC_LEN_2 E)
        else if len = 3 then calc E (NDC_LEN_3 E)
        else if len = 4 then calc E (NDC_LEN_4 E)
        else if len = 5 then calc E (NDC_LEN_5 E)
        else if len = 6 then calc E (NDC_LEN_6 E)
        else if len = 7 then calc E (NDC_LEN_7 E)
        else if len \<le> 10 then calc E (NDC_LEN_8_TO_10 E)
        else if len \<le> 17 then calc E (NDC_LEN_11_TO_17 E)
        else if len \<le> 20 then calc E (NDC_LEN_18_TO_20 E)
        else base)"

definition iterations :: "'x crypto_scheme \<Rightarrow> string \<Rightarrow> u64" where
  "iterations E name =
     (let normalized_name = normalize_name E name;
          apex = extract_apex_name E normalized_name;
          label = (case strip_suffix apex (NSP_SUFFIX E) of Some l \<Rightarrow> l | None \<Rightarrow> apex)
      in label_iters E label)"

definition takeover_iterations :: "network_physics \<Rightarrow> u64 \<Rightarrow> u64 \<Rightarrow> u64" where
  "takeover_iterations self base_iterations kyns_idle =
     (let idle_plus = (ucast (saturating_add kyns_idle 1) :: u128);
          target_kyns = ucast (takeover_target_kyns self);
          multiplier = (if idle_plus < target_kyns
                        then (target_kyns * target_kyns) div (idle_plus * idle_plus) else 1);
          difficulty = ucast base_iterations * max 1 multiplier
      in if ucast (18446744073709551615 :: u64) < difficulty
         then 18446744073709551615 else ucast difficulty)"

section \<open>Arithmetic of the casts\<close>

lemma unat_ucast_128 [simp]: "unat (ucast (a :: u64) :: u128) = unat a"
  using unat_lt_u64 [of a] by (simp add: unsigned_ucast_eq take_bit_nat_eq_self_iff)

lemma u128_mult_exact:
  "unat (ucast (a :: u64) * ucast (b :: u64) :: u128) = unat a * unat b"
proof -
  have "unat a * unat b < 2 ^ 64 * 2 ^ 64"
    using unat_lt_u64 [of a] unat_lt_u64 [of b] by (intro mult_strict_mono) simp_all
  also have "\<dots> = (2 :: nat) ^ 128" by simp
  finally show ?thesis by (simp add: unat_word_ariths)
qed

lemma unat_ucast_64: "unat (ucast (x :: u128) :: u64) = unat x mod 2 ^ 64"
  by (simp add: unsigned_ucast_eq take_bit_eq_mod)

lemma unat_calc:
  "unat (calc E m) = (unat (BASE_ITERATIONS E) * unat m div unat (TARGET_MINUTES E)) mod 2 ^ 64"
  by (simp only: calc_def anchor_def unat_ucast_64 unat_div u128_mult_exact unat_ucast_128)

section \<open>Takeover decay\<close>

text \<open>The multiplier over the natural numbers.\<close>

definition decay :: "nat \<Rightarrow> nat \<Rightarrow> nat" where
  "decay target idle_plus =
     (if idle_plus < target then max 1 (target * target div (idle_plus * idle_plus)) else 1)"

lemma decay_ge_1: "1 \<le> decay t i"
  by (simp add: decay_def)

lemma decay_antimono: "0 < i \<Longrightarrow> i \<le> j \<Longrightarrow> decay t j \<le> decay t i"
proof -
  assume "0 < i" "i \<le> j"
  then have "i * i \<le> j * j" by (simp add: mult_le_mono)
  then have "t * t div (j * j) \<le> t * t div (i * i)"
    using \<open>0 < i\<close> by (simp add: div_le_mono2)
  then show ?thesis using \<open>i \<le> j\<close> by (auto simp: decay_def)
qed

lemma decay_le: "0 < i \<Longrightarrow> decay t i \<le> max 1 (t * t)"
  by (auto simp: decay_def intro: le_trans [OF div_le_dividend])

lemma unat_multiplier:
  fixes i t :: u64
  assumes "0 < unat i"
  shows "unat (max 1 (if (ucast i :: u128) < ucast t
      then (ucast t * ucast t) div (ucast i * ucast i) else 1) :: u128) = decay (unat t) (unat i)"
proof (cases "unat i < unat t")
  case True
  then have lt: "(ucast i :: u128) < ucast t" by (simp add: word_less_nat_alt)
  have q: "unat ((ucast t * ucast t :: u128) div (ucast i * ucast i))
      = unat t * unat t div (unat i * unat i)"
    by (simp only: unat_div u128_mult_exact)
  have "unat i * unat i \<le> unat t * unat t" using True by (intro mult_le_mono) simp_all
  then have "1 \<le> unat t * unat t div (unat i * unat i)"
    using assms by (simp add: div_greater_zero_iff Suc_le_eq)
  then have "1 \<le> (ucast t * ucast t :: u128) div (ucast i * ucast i)"
    by (simp only: word_le_nat_alt q) simp
  then have "max 1 ((ucast t * ucast t :: u128) div (ucast i * ucast i))
      = (ucast t * ucast t) div (ucast i * ucast i)" by (simp add: max_def)
  with lt True q \<open>1 \<le> unat t * unat t div (unat i * unat i)\<close> show ?thesis
    by (simp add: decay_def max_def)
next
  case False
  then have "\<not> (ucast i :: u128) < ucast t" by (simp add: word_less_nat_alt)
  with False show ?thesis by (simp add: decay_def)
qed

lemma unat_takeover:
  assumes t: "unat (takeover_target_kyns P) \<le> 2 ^ 32"
  shows "unat (takeover_iterations P b k) =
    min (unat b * decay (unat (takeover_target_kyns P)) (unat (saturating_add k 1))) (2 ^ 64 - 1)"
proof -
  let ?i = "saturating_add k 1" and ?t = "takeover_target_kyns P"
  define m :: u128 where "m = max 1 (if (ucast ?i :: u128) < ucast ?t
      then (ucast ?t * ucast ?t) div (ucast ?i * ucast ?i) else 1)"
  have i: "0 < unat ?i" by (simp add: unat_saturating_add)
  have um: "unat m = decay (unat ?t) (unat ?i)"
    unfolding m_def by (rule unat_multiplier) (rule i)
  have "unat ?t * unat ?t \<le> 2 ^ 32 * 2 ^ 32" using t by (intro mult_le_mono)
  then have "unat m \<le> 2 ^ 64" using decay_le [OF i, of "unat ?t"] um by simp
  then have "unat b * unat m < 2 ^ 64 * 2 ^ 64"
    using unat_lt_u64 [of b] um decay_ge_1 [of "unat ?t" "unat ?i"]
    by (intro mult_less_le_imp_less) simp_all
  then have d: "unat (ucast b * m) = unat b * unat m" by (simp add: unat_word_ariths)
  have "takeover_iterations P b k = (if (18446744073709551615 :: u128) < ucast b * m
      then 18446744073709551615 else ucast (ucast b * m))"
    by (simp add: takeover_iterations_def Let_def m_def)
  then show ?thesis
    using d um by (auto simp: word_less_nat_alt unat_ucast_64 min_def)
qed

lemma takeover_ge_base:
  assumes "unat (takeover_target_kyns P) \<le> 2 ^ 32"
  shows "b \<le> takeover_iterations P b k"
proof -
  have "unat b \<le> unat b * decay (unat (takeover_target_kyns P)) (unat (saturating_add k 1))"
    using decay_ge_1 by simp
  then show ?thesis
    using unat_lt_u64 [of b] by (simp add: word_le_nat_alt unat_takeover [OF assms])
qed

lemma takeover_antimono:
  assumes "unat (takeover_target_kyns P) \<le> 2 ^ 32" and "k \<le> k'"
  shows "takeover_iterations P b k' \<le> takeover_iterations P b k"
proof -
  have "0 < unat (saturating_add k 1)" by (simp add: unat_saturating_add)
  moreover have "unat (saturating_add k 1) \<le> unat (saturating_add k' 1)"
    using assms(2) by (auto simp: unat_saturating_add word_le_nat_alt)
  ultimately have "unat b * decay (unat (takeover_target_kyns P)) (unat (saturating_add k' 1))
      \<le> unat b * decay (unat (takeover_target_kyns P)) (unat (saturating_add k 1))"
    by (intro mult_le_mono2 decay_antimono)
  then show ?thesis
    unfolding word_le_nat_alt unat_takeover [OF assms(1)] by (rule min.mono) (rule order_refl)
qed

lemma takeover_decayed:
  assumes "unat (takeover_target_kyns P) \<le> 2 ^ 32"
    and "unat (takeover_target_kyns P) \<le> unat k + 1"
  shows "takeover_iterations P b k = b"
proof -
  have "unat (takeover_target_kyns P) \<le> unat (saturating_add k 1)"
    using assms by (simp add: unat_saturating_add)
  then have "unat (takeover_iterations P b k) = unat b"
    using unat_lt_u64 [of b] by (simp add: unat_takeover [OF assms(1)] decay_def)
  then show ?thesis by (rule word_eq_unatI)
qed

section \<open>The Name Difficulty Curve\<close>

text \<open>The shape a network configuration has to give the curve: minutes that never increase with
  the label length, the anchor's own target last, and products that fit \<open>u64\<close>.\<close>

definition ndc_curve :: "'x network_constants_scheme \<Rightarrow> u64 list" where
  "ndc_curve E = [NDC_LEN_0_TO_1 E, NDC_LEN_2 E, NDC_LEN_3 E, NDC_LEN_4 E, NDC_LEN_5 E, NDC_LEN_6 E,
     NDC_LEN_7 E, NDC_LEN_8_TO_10 E, NDC_LEN_11_TO_17 E, NDC_LEN_18_TO_20 E, TARGET_MINUTES E]"

definition ndc_ok :: "'x network_constants_scheme \<Rightarrow> bool" where
  "ndc_ok E \<longleftrightarrow> sorted (rev (map unat (ndc_curve E))) \<and> 0 < TARGET_MINUTES E
     \<and> unat (BASE_ITERATIONS E) * unat (NDC_LEN_0_TO_1 E) < 2 ^ 64"

text \<open>The position on the curve of a label length.\<close>

definition ndc_index :: "nat \<Rightarrow> nat" where
  "ndc_index len = (if len \<le> 1 then 0 else if len \<le> 7 then len - 1 else if len \<le> 10 then 7
     else if len \<le> 17 then 8 else if len \<le> 20 then 9 else 10)"

lemma ndc_index_mono: "m \<le> n \<Longrightarrow> ndc_index m \<le> ndc_index n"
  by (auto simp: ndc_index_def)

lemma calc_target:
  assumes "ndc_ok E"
  shows "calc E (TARGET_MINUTES E) = BASE_ITERATIONS E"
proof -
  have "unat (calc E (TARGET_MINUTES E)) = unat (BASE_ITERATIONS E)"
    using assms unat_lt_u64 [of "BASE_ITERATIONS E"]
    by (simp add: unat_calc ndc_ok_def word_less_nat_alt)
  then show ?thesis by (rule word_eq_unatI)
qed

lemma label_iters_curve:
  assumes "ndc_ok E" "\<not> dev_mode E"
  shows "label_iters E l = calc E (ndc_curve E ! ndc_index (length l))"
proof -
  consider "length l \<le> 1" | "length l = 2" | "length l = 3" | "length l = 4" | "length l = 5"
    | "length l = 6" | "length l = 7" | "8 \<le> length l" "length l \<le> 10"
    | "11 \<le> length l" "length l \<le> 17" | "18 \<le> length l" "length l \<le> 20" | "21 \<le> length l"
    by linarith
  then show ?thesis
    using assms by cases (simp_all add: label_iters_def Let_def ndc_index_def ndc_curve_def
        calc_target anchor_def numeral_eq_Suc)
qed

lemma ndc_curve_antimono:
  assumes "ndc_ok E" "i \<le> j" "j \<le> 10"
  shows "unat (ndc_curve E ! j) \<le> unat (ndc_curve E ! i)"
proof -
  let ?xs = "map unat (ndc_curve E)"
  have len: "length ?xs = 11" by (simp add: ndc_curve_def)
  have "rev ?xs ! (10 - j) \<le> rev ?xs ! (10 - i)"
    using assms len by (intro sorted_nth_mono) (simp_all add: ndc_ok_def)
  then show ?thesis using assms len by (simp add: rev_nth)
qed

lemma calc_mono:
  assumes "ndc_ok E" "unat m \<le> unat m'" "unat m' \<le> unat (NDC_LEN_0_TO_1 E)"
  shows "calc E m \<le> calc E m'"
proof -
  have *: "unat (BASE_ITERATIONS E) * unat k div unat (TARGET_MINUTES E) < 2 ^ 64"
    if "unat k \<le> unat (NDC_LEN_0_TO_1 E)" for k
  proof -
    have "unat (BASE_ITERATIONS E) * unat k div unat (TARGET_MINUTES E)
        \<le> unat (BASE_ITERATIONS E) * unat k" by (rule div_le_dividend)
    also have "\<dots> \<le> unat (BASE_ITERATIONS E) * unat (NDC_LEN_0_TO_1 E)"
      using that by (rule mult_le_mono2)
    finally show ?thesis using assms(1) by (simp add: ndc_ok_def)
  qed
  show ?thesis
    using * [of m] * [of m'] assms(2,3)
    by (simp add: word_le_nat_alt unat_calc div_le_mono)
qed

lemma label_iters_antimono:
  assumes E: "ndc_ok E" and le: "length l \<le> length l'"
  shows "label_iters E l' \<le> label_iters E l"
proof (cases "dev_mode E")
  case True
  then show ?thesis by (simp add: label_iters_def)
next
  case False
  have hi: "ndc_index n \<le> 10" for n by (auto simp: ndc_index_def)
  have "unat (ndc_curve E ! ndc_index (length l)) \<le> unat (ndc_curve E ! 0)"
    using E hi by (intro ndc_curve_antimono) simp_all
  moreover have "ndc_curve E ! 0 = NDC_LEN_0_TO_1 E" by (simp add: ndc_curve_def)
  moreover have "unat (ndc_curve E ! ndc_index (length l'))
      \<le> unat (ndc_curve E ! ndc_index (length l))"
    using E le hi by (intro ndc_curve_antimono ndc_index_mono)
  ultimately show ?thesis
    using E False by (simp add: label_iters_curve calc_mono)
qed

lemma label_iters_ge_base:
  assumes E: "ndc_ok E" and "\<not> dev_mode E"
  shows "BASE_ITERATIONS E \<le> label_iters E l"
proof -
  have "label_iters E (replicate (21 + length l) CHR ''a'') \<le> label_iters E l"
    using E by (rule label_iters_antimono) simp
  moreover have "label_iters E (replicate (21 + length l) CHR ''a'') = BASE_ITERATIONS E"
    using assms by (simp add: label_iters_def Let_def anchor_def)
  ultimately show ?thesis by simp
qed

lemma iterations_apex:
  assumes "names_ok E" "normalize_name E n = l @ NSP_SUFFIX E" "valid_label l"
  shows "iterations E n = label_iters E l"
  using assms by (simp add: iterations_def Let_def extract_apex_in_suffix)

section \<open>Correctness of the difficulty rules\<close>

lemma default_ndc_ok:
  assumes "network_constants.truncate E = default_network"
  shows "ndc_ok E"
proof -
  have "ndc_curve E = ndc_curve default_network" "TARGET_MINUTES E = TARGET_MINUTES default_network"
    "BASE_ITERATIONS E = BASE_ITERATIONS default_network" "NDC_LEN_0_TO_1 E = NDC_LEN_0_TO_1 default_network"
    by (simp_all add: ndc_curve_def flip: assms) (simp_all add: network_constants.defs)
  then show ?thesis by (simp add: ndc_ok_def ndc_curve_def default_network_def)
qed

text \<open>Takeover decay: for a target period of at most \<open>2 ^ 32\<close> kyns the takeover difficulty never
  falls below the base difficulty, never grows as the name stays idle longer, and is the base
  difficulty once the name has been idle for the target period, with no overflow anywhere.\<close>

lemma takeover_difficulty:
  assumes "unat (takeover_target_kyns P) \<le> 2 ^ 32"
  shows "b \<le> takeover_iterations P b k
    \<and> (k \<le> k' \<longrightarrow> takeover_iterations P b k' \<le> takeover_iterations P b k)
    \<and> (unat (takeover_target_kyns P) \<le> unat k + 1 \<longrightarrow> takeover_iterations P b k = b)"
  using takeover_ge_base [OF assms] takeover_antimono [OF assms] takeover_decayed [OF assms] by blast

text \<open>C39. The Name Difficulty Curve: a longer label never costs more iterations than a shorter one,
  and outside development mode no label costs less than the anchor.\<close>

theorem difficulty_curve:
  assumes "ndc_ok E" and "length l \<le> length l'"
  shows "label_iters E l' \<le> label_iters E l \<and> (dev_mode E \<or> BASE_ITERATIONS E \<le> label_iters E l)"
  using label_iters_antimono [OF assms] label_iters_ge_base [OF assms(1)] by blast

theorem difficulty_curve_witness:
  "ndc_ok default_network \<and> label_iters default_network ''satoshi'' \<le> label_iters default_network ''bob''
    \<and> BASE_ITERATIONS default_network \<le> label_iters default_network ''bob''"
proof -
  have "ndc_ok default_network" by (rule default_ndc_ok) (simp add: network_constants.defs default_network_def)
  from difficulty_curve [OF this, of "''bob''" "''satoshi''"] this show ?thesis
    by (simp add: default_network_def)
qed

end
