(* ===== verification/Action.thy ===== *)
theory Action
  imports Kyn
begin

text \<open>
  Privileged network actions: \<open>kinetic-types/src/action.rs\<close> (messages and their canonical
  bytes) and \<open>kinetic-action\<close> (\<open>types.rs\<close>, \<open>logic.rs\<close>, \<open>traits.rs\<close>, \<open>engine/\<close>).

  A Rust panic (\<open>panic!\<close> for an unknown model, \<open>unreachable!\<close> in the permissionless engine)
  is the value \<open>None\<close>. The \<open>ActionEngine\<close> trait object is a record of its two methods; the
  locale \<open>engine_contract\<close> states what the message processor relies on and both drivers
  interpret it.
\<close>

section \<open>Messages (kinetic-types/src/action.rs)\<close>

datatype network_action =
    RotateSovereignKey (new_key: bytes)
  | EmergencyHalt
  | EmergencyResume

record signed_network_action =
  sna_action :: network_action
  timestamp_kyn :: kyn
  sovereign_signatures :: "bytes list"

definition action_payload :: "network_action \<Rightarrow> bytes" where
  "action_payload a =
     (case a of
        RotateSovereignKey k \<Rightarrow> 0x0B # k
      | EmergencyHalt \<Rightarrow> [0x0C]
      | EmergencyResume \<Rightarrow> [0x0D])"

definition to_bytes :: "signed_network_action \<Rightarrow> bytes" where
  "to_bytes self = action_payload (sna_action self) @ u64_to_be_bytes (timestamp_kyn self)"

datatype action_parse_error = BufferTooSmall | UnknownOpcode u8 | InvalidPubkeyLength

definition parse_payload :: "bytes \<Rightarrow> (action_parse_error, network_action \<times> kyn) result" where
  "parse_payload bs =
     reject_if (length bs < 9) BufferTooSmall
     (let ts = u64_from_be_bytes (drop (length bs - 8) bs);
          payload = take (length bs - 8) bs
      in case payload of
           [] \<Rightarrow> Err BufferTooSmall
         | opcode # action_data \<Rightarrow>
             if opcode = 0x0B then
               reject_if (length action_data \<noteq> KINETIC_PUBKEY_LENGTH) InvalidPubkeyLength
                 (Ok (RotateSovereignKey action_data, ts))
             else if opcode = 0x0C then Ok (EmergencyHalt, ts)
             else if opcode = 0x0D then Ok (EmergencyResume, ts)
             else Err (UnknownOpcode opcode))"

section \<open>State (types.rs)\<close>

datatype action_effect = SovereignKeyRotated bytes | NetworkHalted | NetworkResumed

datatype action_error =
    MissingSovereignKey | MalformedSovereignKey | KeyLengthMismatch | StaleProposal
  | AlreadyExecuted | ActionDisabled | InvalidSignature | StateSaveFailed | P2pPublishFailed | InvalidSeedState
  | StateCorrupted | StateReadFailed | BootstrapFetchFailed

record action_state =
  genesis_kyn :: kyn
  active_sovereign_key :: "bytes option"
  is_halted :: bool
  halt_start_kyn :: "kyn option"
  total_paused_kyns :: u64
  pause_history :: "(kyn \<times> kyn) list"
  executed_hashes :: "bytes \<rightharpoonup> kyn"
  action_log :: "signed_network_action list"

record action_config =
  sovereign_key_hex :: string
  max_age_kyns :: u64
  cfg_dev_mode :: bool
  action_model :: string

definition verify_sovereign_signature :: "'x crypto_scheme \<Rightarrow> bytes \<Rightarrow> bytes \<Rightarrow> bytes \<Rightarrow> bool" where
  "verify_sovereign_signature E pubkey msg sig = is_ok (verify_signature E pubkey msg sig)"

fun sum_paused :: "(kyn \<times> kyn) list \<Rightarrow> kyn \<Rightarrow> u64 \<Rightarrow> u64" where
  "sum_paused [] target acc = acc"
| "sum_paused ((start, end') # rest) target acc =
     (if end' \<le> target then sum_paused rest target acc
      else if target \<le> start then sum_paused rest target (acc + saturating_sub end' start)
      else sum_paused rest target (acc + saturating_sub end' target))"

definition paused_kyns_since :: "action_state \<Rightarrow> kyn \<Rightarrow> u64" where
  "paused_kyns_since self target_kyn = sum_paused (pause_history self) target_kyn 0"

section \<open>State transitions (logic.rs)\<close>

definition validate_keys_initialized ::
  "'x crypto_scheme \<Rightarrow> string \<Rightarrow> bool \<Rightarrow> (action_error, unit) result" where
  "validate_keys_initialized E key_hex is_dev_mode =
     (if is_dev_mode then Ok ()
      else reject_if (contains_str key_hex ''REPLACE_ME'') MissingSovereignKey
       (and_then (ok_or MalformedSovereignKey (hex_decode E key_hex)) (\<lambda>bs.
        reject_if (length bs \<noteq> KINETIC_PUBKEY_LENGTH) KeyLengthMismatch
       (Ok ()))))"

definition action_state_new :: "kyn \<Rightarrow> action_state" where
  "action_state_new genesis = \<lparr>genesis_kyn = genesis, active_sovereign_key = None,
     is_halted = False, halt_start_kyn = None, total_paused_kyns = 0, pause_history = [],
     executed_hashes = Map.empty, action_log = []\<rparr>"

definition hash_action :: "'x crypto_scheme \<Rightarrow> signed_network_action \<Rightarrow> bytes" where
  "hash_action E msg = sha256 E (to_bytes msg)"

definition action_prune :: "action_state \<Rightarrow> kyn \<Rightarrow> action_config \<Rightarrow> action_state" where
  "action_prune self current config =
     self\<lparr>executed_hashes := (\<lambda>h. case executed_hashes self h of
        None \<Rightarrow> None
      | Some exec \<Rightarrow> if current \<le> exec + max_age_kyns config then Some exec else None)\<rparr>"

definition sovereign_key ::
  "'x crypto_scheme \<Rightarrow> action_state \<Rightarrow> action_config \<Rightarrow> (action_error, bytes) result" where
  "sovereign_key E self config =
     (case active_sovereign_key self of
        Some key \<Rightarrow> Ok key
      | None \<Rightarrow>
          and_then (ok_or MalformedSovereignKey (hex_decode E (sovereign_key_hex config))) (\<lambda>bs.
          reject_if (length bs \<noteq> KINETIC_PUBKEY_LENGTH) KeyLengthMismatch (Ok bs)))"

section \<open>Engines (traits.rs, engine/)\<close>

record action_engine =
  verify_action :: "action_state \<Rightarrow> signed_network_action \<Rightarrow> kyn \<Rightarrow> action_config
    \<Rightarrow> (action_error, action_effect option) result"
  execute_action :: "action_state \<Rightarrow> signed_network_action \<Rightarrow> kyn \<Rightarrow> action_config
    \<Rightarrow> (action_effect option \<times> action_state) option"

subsection \<open>sovereign.rs\<close>

definition action_effect_of :: "network_action \<Rightarrow> (action_error, action_effect option) result" where
  "action_effect_of a =
     (case a of
        RotateSovereignKey k \<Rightarrow>
          reject_if (length k \<noteq> KINETIC_PUBKEY_LENGTH) KeyLengthMismatch
            (Ok (Some (SovereignKeyRotated k)))
      | EmergencyHalt \<Rightarrow> Ok (Some NetworkHalted)
      | EmergencyResume \<Rightarrow> Ok (Some NetworkResumed))"

definition sovereign_verify_action ::
  "'x crypto_scheme \<Rightarrow> action_state \<Rightarrow> signed_network_action \<Rightarrow> kyn \<Rightarrow> action_config
    \<Rightarrow> (action_error, action_effect option) result" where
  "sovereign_verify_action E state msg current config =
     reject_if (max_age_kyns config < abs_diff current (timestamp_kyn msg)) StaleProposal
    (and_then (sovereign_key E state config) (\<lambda>key.
     if list_ex (\<lambda>sig. verify_sovereign_signature E key (to_bytes msg) sig)
          (sovereign_signatures msg)
     then action_effect_of (sna_action msg)
     else Err InvalidSignature))"

definition halt_network :: "action_state \<Rightarrow> kyn \<Rightarrow> action_state" where
  "halt_network state current =
     (if \<not> is_halted state then
        (let state = state\<lparr>is_halted := True\<rparr>
         in if halt_start_kyn state = None then state\<lparr>halt_start_kyn := Some current\<rparr> else state)
      else state)"

definition resume_network :: "action_state \<Rightarrow> kyn \<Rightarrow> action_state" where
  "resume_network state current =
     (if is_halted state then
        (let start = (case halt_start_kyn state of None \<Rightarrow> current | Some k \<Rightarrow> k);
             paused = saturating_sub current start
         in state\<lparr>is_halted := False, halt_start_kyn := None,
              total_paused_kyns := saturating_add (total_paused_kyns state) paused,
              pause_history := pause_history state @ [(start, current)]\<rparr>)
      else state)"

definition sovereign_execute_action ::
  "'x crypto_scheme \<Rightarrow> action_state \<Rightarrow> signed_network_action \<Rightarrow> kyn \<Rightarrow> action_config
    \<Rightarrow> (action_effect option \<times> action_state) option" where
  "sovereign_execute_action E state msg current config =
     (let state = state\<lparr>executed_hashes :=
            (executed_hashes state)(hash_action E msg \<mapsto> timestamp_kyn msg)\<rparr>
      in case sna_action msg of
           RotateSovereignKey k \<Rightarrow>
             Some (Some (SovereignKeyRotated k), state\<lparr>active_sovereign_key := Some k\<rparr>)
         | EmergencyHalt \<Rightarrow> Some (Some NetworkHalted, halt_network state current)
         | EmergencyResume \<Rightarrow> Some (Some NetworkResumed, resume_network state current))"

definition sovereign_engine :: "'x crypto_scheme \<Rightarrow> action_engine" where
  "sovereign_engine E = \<lparr>verify_action = sovereign_verify_action E,
     execute_action = sovereign_execute_action E\<rparr>"

subsection \<open>permissionless.rs and mod.rs\<close>

definition permissionless_verify_action ::
  "action_state \<Rightarrow> signed_network_action \<Rightarrow> kyn \<Rightarrow> action_config
    \<Rightarrow> (action_error, action_effect option) result" where
  "permissionless_verify_action state msg current config = Err ActionDisabled"

definition permissionless_execute_action ::
  "action_state \<Rightarrow> signed_network_action \<Rightarrow> kyn \<Rightarrow> action_config
    \<Rightarrow> (action_effect option \<times> action_state) option" where
  "permissionless_execute_action state msg current config = None"

definition permissionless_engine :: action_engine where
  "permissionless_engine = \<lparr>verify_action = permissionless_verify_action,
     execute_action = permissionless_execute_action\<rparr>"

definition active_engine :: "'x crypto_scheme \<Rightarrow> string \<Rightarrow> action_engine option" where
  "active_engine E model =
     (if model = ''sovereign'' then Some (sovereign_engine E)
      else if model = ''permissionless'' then Some permissionless_engine
      else None)"

subsection \<open>process_action_message (logic.rs)\<close>

definition process_with ::
  "'x crypto_scheme \<Rightarrow> action_engine \<Rightarrow> action_state \<Rightarrow> signed_network_action \<Rightarrow> kyn
    \<Rightarrow> action_config \<Rightarrow> ((action_error, action_effect option) result \<times> action_state) option" where
  "process_with E eng state msg current config =
     (case verify_action eng state msg current config of
        Inl e \<Rightarrow> Some (Err e, state)
      | Inr effect \<Rightarrow>
          let state = action_prune state current config
          in if executed_hashes state (hash_action E msg) \<noteq> None
             then Some (Err AlreadyExecuted, state)
             else case execute_action eng state msg current config of
                    None \<Rightarrow> None
                  | Some (_, state) \<Rightarrow> Some (Ok effect, state\<lparr>action_log := action_log state @ [msg]\<rparr>))"

definition process_action_message ::
  "'x crypto_scheme \<Rightarrow> action_state \<Rightarrow> signed_network_action \<Rightarrow> kyn \<Rightarrow> action_config
    \<Rightarrow> ((action_error, action_effect option) result \<times> action_state) option" where
  "process_action_message E state msg current config =
     (case active_engine E (action_model config) of
        None \<Rightarrow> None
      | Some eng \<Rightarrow> process_with E eng state msg current config)"

section \<open>Messages: canonical bytes\<close>

definition well_formed_action :: "network_action \<Rightarrow> bool" where
  "well_formed_action a \<longleftrightarrow>
     (case a of RotateSovereignKey k \<Rightarrow> length k = KINETIC_PUBKEY_LENGTH | _ \<Rightarrow> True)"

lemma action_payload_parse:
  assumes "well_formed_action a"
  shows "parse_payload (action_payload a @ u64_to_be_bytes ts) = Ok (a, ts)"
  using assms
  by (cases a) (simp_all add: parse_payload_def action_payload_def well_formed_action_def Let_def)

lemma to_bytes_timestamp: "to_bytes a = to_bytes b \<Longrightarrow> timestamp_kyn a = timestamp_kyn b"
  by (simp add: to_bytes_def)

lemma to_bytes_eq_iff:
  "to_bytes a = to_bytes b \<longleftrightarrow> sna_action a = sna_action b \<and> timestamp_kyn a = timestamp_kyn b"
  by (cases "sna_action a"; cases "sna_action b") (auto simp: to_bytes_def action_payload_def)

section \<open>The engine contract\<close>

text \<open>What \<open>process_action_message\<close> relies on: an accepted message is inside the replay window
  and can be executed; execution records exactly the hash of the message and leaves the log
  to the caller.\<close>

locale engine_contract =
  fixes E :: "'x crypto_scheme" and eng :: action_engine
  assumes executable: "verify_action eng s m t c = Ok e \<Longrightarrow> execute_action eng s' m t c \<noteq> None"
    and in_window: "verify_action eng s m t c = Ok e
      \<Longrightarrow> abs_diff t (timestamp_kyn m) \<le> max_age_kyns c"
    and records_hash: "execute_action eng s m t c = Some (e, s')
      \<Longrightarrow> executed_hashes s' = (executed_hashes s)(hash_action E m \<mapsto> timestamp_kyn m)"
    and keeps_log: "execute_action eng s m t c = Some (e, s') \<Longrightarrow> action_log s' = action_log s"
begin

lemma never_panics: "process_with E eng s m t c \<noteq> None"
proof (cases "verify_action eng s m t c")
  case (Inr e)
  then obtain x where "execute_action eng (action_prune s t c) m t c = Some x"
    using executable by blast
  with Inr show ?thesis by (cases x) (simp add: process_with_def Let_def)
qed (simp add: process_with_def)

lemma accepted_elim:
  assumes "process_with E eng s m t c = Some (Ok e, s')"
  obtains x s1 where "verify_action eng s m t c = Ok e"
    and "executed_hashes (action_prune s t c) (hash_action E m) = None"
    and "execute_action eng (action_prune s t c) m t c = Some (x, s1)"
    and "s' = s1\<lparr>action_log := action_log s1 @ [m]\<rparr>"
  using assms by (auto simp: process_with_def Let_def split: sum.splits if_splits option.splits)

lemma rejected_cases:
  assumes "process_with E eng s m t c = Some (Err e, s')"
  shows "s' = s \<or> s' = action_prune s t c"
  using assms by (auto simp: process_with_def Let_def split: sum.splits if_splits option.splits)

end

text \<open>Every logged message is still remembered by its hash, or its replay window is over.\<close>

definition log_guarded :: "'x crypto_scheme \<Rightarrow> action_config \<Rightarrow> kyn \<Rightarrow> action_state \<Rightarrow> bool" where
  "log_guarded E c t s \<longleftrightarrow> distinct (map to_bytes (action_log s)) \<and>
     (\<forall>m\<in>set (action_log s). executed_hashes s (hash_action E m) = Some (timestamp_kyn m)
        \<or> unat (timestamp_kyn m) + unat (max_age_kyns c) < unat t)
     \<and> (\<forall>m\<in>set (action_log s). unat (timestamp_kyn m) + unat (max_age_kyns c) < 2 ^ 64)"

lemma action_prune_simps [simp]:
  "action_log (action_prune s t c) = action_log s"
  "is_halted (action_prune s t c) = is_halted s"
  "halt_start_kyn (action_prune s t c) = halt_start_kyn s"
  "total_paused_kyns (action_prune s t c) = total_paused_kyns s"
  "pause_history (action_prune s t c) = pause_history s"
  "active_sovereign_key (action_prune s t c) = active_sovereign_key s"
  by (simp_all add: action_prune_def)

lemma executed_hashes_prune:
  "executed_hashes (action_prune s t c) h = Some k
     \<longleftrightarrow> executed_hashes s h = Some k \<and> t \<le> k + max_age_kyns c"
  by (auto simp: action_prune_def split: option.splits)

lemma plus_u64_le:
  assumes "unat k + unat a < 2 ^ 64"
  shows "t \<le> k + (a :: u64) \<longleftrightarrow> unat t \<le> unat k + unat a"
  using assms by (simp only: word_le_nat_alt unat_add_u64 mod_less)

lemma guarded_prune:
  assumes "log_guarded E c t0 s" and "t0 \<le> t"
  shows "log_guarded E c t (action_prune s t c)"
proof -
  have "executed_hashes (action_prune s t c) (hash_action E m) = Some (timestamp_kyn m)
      \<or> unat (timestamp_kyn m) + unat (max_age_kyns c) < unat t" if "m \<in> set (action_log s)" for m
  proof -
    have "unat t0 \<le> unat t" using assms(2) by (simp add: word_le_nat_alt)
    moreover have "executed_hashes s (hash_action E m) = Some (timestamp_kyn m)
        \<or> unat (timestamp_kyn m) + unat (max_age_kyns c) < unat t0"
      and "unat (timestamp_kyn m) + unat (max_age_kyns c) < 2 ^ 64"
      using assms(1) that by (auto simp: log_guarded_def)
    ultimately show ?thesis by (auto simp: executed_hashes_prune plus_u64_le)
  qed
  with assms show ?thesis by (auto simp: log_guarded_def)
qed

lemma guarded_mono: "log_guarded E c t0 s \<Longrightarrow> t0 \<le> t \<Longrightarrow> log_guarded E c t s"
  by (auto simp: log_guarded_def word_le_nat_alt)

context engine_contract
begin

lemma accept_guarded:
  assumes inv: "log_guarded E c t0 s" and "t0 \<le> t" and room: "unat t + 2 * unat (max_age_kyns c) < 2 ^ 64"
    and ok: "process_with E eng s m t c = Some (Ok e, s')"
  shows "log_guarded E c t s'"
proof -
  let ?p = "action_prune s t c"
  from ok obtain x s1 where v: "verify_action eng s m t c = Ok e"
    and new: "executed_hashes ?p (hash_action E m) = None"
    and ex: "execute_action eng ?p m t c = Some (x, s1)"
    and s': "s' = s1\<lparr>action_log := action_log s1 @ [m]\<rparr>" by (rule accepted_elim)
  have p: "log_guarded E c t ?p" using inv assms(2) by (rule guarded_prune)
  have "unat t \<le> unat (timestamp_kyn m) + unat (max_age_kyns c)"
    and ts: "unat (timestamp_kyn m) \<le> unat t + unat (max_age_kyns c)"
    using in_window [OF v] by (auto simp: u64_nat split: if_splits)
  then have "to_bytes m' \<noteq> to_bytes m" if "m' \<in> set (action_log s)" for m'
    using that p new to_bytes_timestamp [of m' m] by (fastforce simp: log_guarded_def hash_action_def)
  then have fresh: "to_bytes m \<notin> to_bytes ` set (action_log s)" by force
  show ?thesis
    using p new ts room fresh records_hash [OF ex] keeps_log [OF ex]
    by (auto simp: log_guarded_def s')
qed

lemma process_guarded:
  assumes "log_guarded E c t0 s" and "t0 \<le> t" and "unat t + 2 * unat (max_age_kyns c) < 2 ^ 64"
    and "process_with E eng s m t c = Some (r, s')"
  shows "log_guarded E c t s'"
proof (cases r)
  case (Inl e)
  with assms show ?thesis using rejected_cases guarded_prune guarded_mono by metis
next
  case (Inr e)
  with assms accept_guarded show ?thesis by blast
qed

end

lemma abs_diff_window:
  "abs_diff t ts \<le> a \<longleftrightarrow> unat t \<le> unat ts + unat a \<and> unat ts \<le> unat t + unat a"
  by (auto simp: u64_nat split: if_splits)

lemma sovereign_verify_Ok:
  "sovereign_verify_action E s m t c = Ok e \<longleftrightarrow>
     abs_diff t (timestamp_kyn m) \<le> max_age_kyns c \<and>
     (\<exists>key. sovereign_key E s c = Ok key
        \<and> (\<exists>sig\<in>set (sovereign_signatures m). signed_by E key (to_bytes m) sig))
     \<and> action_effect_of (sna_action m) = Ok e"
  by (auto simp: sovereign_verify_action_def verify_sovereign_signature_def result_simps
      list_ex_iff not_less split: if_splits)

lemma halt_network_simps [simp]:
  "executed_hashes (halt_network s t) = executed_hashes s"
  "action_log (halt_network s t) = action_log s"
  "active_sovereign_key (halt_network s t) = active_sovereign_key s"
  "pause_history (halt_network s t) = pause_history s"
  "total_paused_kyns (halt_network s t) = total_paused_kyns s"
  by (simp_all add: halt_network_def Let_def)

lemma resume_network_simps [simp]:
  "executed_hashes (resume_network s t) = executed_hashes s"
  "action_log (resume_network s t) = action_log s"
  "active_sovereign_key (resume_network s t) = active_sovereign_key s"
  by (simp_all add: resume_network_def Let_def)

lemma engine_simps [simp]:
  "verify_action (sovereign_engine E) = sovereign_verify_action E"
  "execute_action (sovereign_engine E) = sovereign_execute_action E"
  "verify_action permissionless_engine = permissionless_verify_action"
  "execute_action permissionless_engine = permissionless_execute_action"
  by (simp_all add: sovereign_engine_def permissionless_engine_def)

interpretation sovereign: engine_contract E "sovereign_engine E" for E
  by unfold_locales
    (auto simp: sovereign_verify_Ok sovereign_execute_action_def Let_def
      split: network_action.splits)

interpretation permissionless: engine_contract E permissionless_engine for E
  by unfold_locales
    (auto simp: permissionless_verify_action_def
      permissionless_execute_action_def)

section \<open>Runs of a node\<close>

text \<open>The states a node reaches by processing messages at non-decreasing network times. The
  room hypothesis keeps the sums of the replay window inside \<open>u64\<close>.\<close>

inductive reachable_actions :: "'x crypto_scheme \<Rightarrow> action_config \<Rightarrow> kyn \<Rightarrow> action_state \<Rightarrow> bool"
  for E c where
  start: "reachable_actions E c t (action_state_new g)"
| process: "reachable_actions E c t0 s \<Longrightarrow> t0 \<le> t
    \<Longrightarrow> unat t + 2 * unat (max_age_kyns c) < 2 ^ 64
    \<Longrightarrow> process_action_message E s m t c = Some (r, s') \<Longrightarrow> reachable_actions E c t s'"

lemma process_engine_cases:
  assumes "process_action_message E s m t c = Some (r, s')"
  obtains "process_with E (sovereign_engine E) s m t c = Some (r, s')"
  | "process_with E permissionless_engine s m t c = Some (r, s')"
  using assms by (auto simp: process_action_message_def active_engine_def split: if_splits)

lemma reachable_guarded: "reachable_actions E c t s \<Longrightarrow> log_guarded E c t s"
proof (induction rule: reachable_actions.induct)
  case (start t g)
  then show ?case by (simp add: log_guarded_def action_state_new_def)
next
  case (process t0 s t m r s')
  then show ?case
    by (metis process_engine_cases sovereign.process_guarded permissionless.process_guarded)
qed

lemma permissionless_rejects:
  "process_with E permissionless_engine s m t c = Some (Err ActionDisabled, s)"
  by (simp add: process_with_def permissionless_verify_action_def)

subsection \<open>Pause accounting\<close>

text \<open>The pauses of a history are ordered intervals, all over by time \<open>t\<close>.\<close>

fun pauses_ordered :: "nat \<Rightarrow> (kyn \<times> kyn) list \<Rightarrow> nat \<Rightarrow> bool" where
  "pauses_ordered lo [] t = (lo \<le> t)"
| "pauses_ordered lo ((s, e) # ps) t = (lo \<le> unat s \<and> unat s \<le> unat e \<and> pauses_ordered (unat e) ps t)"

fun pause_length :: "(kyn \<times> kyn) list \<Rightarrow> nat" where
  "pause_length [] = 0"
| "pause_length ((s, e) # ps) = (unat e - unat s) + pause_length ps"

definition pause_wf :: "kyn \<Rightarrow> action_state \<Rightarrow> bool" where
  "pause_wf t s \<longleftrightarrow>
     (is_halted s \<longleftrightarrow> halt_start_kyn s \<noteq> None)
     \<and> pauses_ordered 0 (pause_history s) (case halt_start_kyn s of None \<Rightarrow> unat t | Some h \<Rightarrow> unat h)
     \<and> (\<forall>h. halt_start_kyn s = Some h \<longrightarrow> h \<le> t)
     \<and> unat (total_paused_kyns s) = pause_length (pause_history s)"

lemma pauses_ordered_snoc:
  "pauses_ordered lo (ps @ [(s, e)]) t \<longleftrightarrow> pauses_ordered lo ps (unat s) \<and> unat s \<le> unat e \<and> unat e \<le> t"
  by (induction ps arbitrary: lo) auto

lemma pauses_ordered_mono: "pauses_ordered lo ps t \<Longrightarrow> t \<le> t' \<Longrightarrow> pauses_ordered lo ps t'"
  by (induction ps arbitrary: lo) auto

lemma pauses_ordered_le: "pauses_ordered lo ps t \<Longrightarrow> lo \<le> t"
proof (induction ps arbitrary: lo)
  case (Cons p ps)
  then show ?case by (cases p) force
qed simp

lemma pause_length_snoc: "pause_length (ps @ [(s, e)]) = pause_length ps + (unat e - unat s)"
  by (induction ps) auto

lemma pause_length_bound: "pauses_ordered lo ps t \<Longrightarrow> lo + pause_length ps \<le> t"
proof (induction ps arbitrary: lo)
  case (Cons p ps)
  then show ?case by (cases p) fastforce
qed simp

lemma pause_wf_mono: "pause_wf t0 s \<Longrightarrow> t0 \<le> t \<Longrightarrow> pause_wf t s"
  by (auto simp: pause_wf_def word_le_nat_alt split: option.splits intro: pauses_ordered_mono)

lemma pause_wf_cong:
  assumes "pause_wf t s" "is_halted s' = is_halted s" "halt_start_kyn s' = halt_start_kyn s"
    "pause_history s' = pause_history s" "total_paused_kyns s' = total_paused_kyns s"
  shows "pause_wf t s'"
  using assms by (simp add: pause_wf_def)

lemma halt_network_wf: "pause_wf t s \<Longrightarrow> pause_wf t (halt_network s t)"
  by (auto simp: pause_wf_def halt_network_def Let_def)

lemma resume_network_wf:
  assumes "pause_wf t s"
  shows "pause_wf t (resume_network s t)"
proof (cases "is_halted s")
  case False
  with assms show ?thesis by (simp add: resume_network_def)
next
  case True
  then obtain h where h: "halt_start_kyn s = Some h" "h \<le> t" "pauses_ordered 0 (pause_history s) (unat h)"
    using assms by (auto simp: pause_wf_def)
  then have ht: "unat h \<le> unat t" by (simp add: word_le_nat_alt)
  have len: "pause_length (pause_history s) \<le> unat h" using pause_length_bound [OF h(3)] by simp
  have "unat (total_paused_kyns s) = pause_length (pause_history s)"
    using assms by (simp add: pause_wf_def)
  then have "unat (saturating_add (total_paused_kyns s) (saturating_sub t h))
      = pause_length (pause_history s) + (unat t - unat h)"
    using len ht unat_lt_u64 [of t] by (simp add: u64_nat)
  with True h ht show ?thesis
    by (simp add: pause_wf_def resume_network_def Let_def pauses_ordered_snoc pause_length_snoc)
qed

lemma sovereign_execute_wf:
  assumes "sovereign_execute_action E s m t c = Some (x, s')" and "pause_wf t s"
  shows "pause_wf t s'"
proof -
  let ?r = "s\<lparr>executed_hashes := (executed_hashes s)(hash_action E m \<mapsto> timestamp_kyn m)\<rparr>"
  have r: "pause_wf t ?r" using assms(2) by (rule pause_wf_cong) simp_all
  show ?thesis
  proof (cases "sna_action m")
    case (RotateSovereignKey k)
    with assms(1) have "s' = ?r\<lparr>active_sovereign_key := Some k\<rparr>"
      by (simp add: sovereign_execute_action_def)
    then show ?thesis by (intro pause_wf_cong [OF r]) simp_all
  next
    case EmergencyHalt
    with assms(1) have "s' = halt_network ?r t" by (simp add: sovereign_execute_action_def)
    with r show ?thesis by (simp only: halt_network_wf)
  next
    case EmergencyResume
    with assms(1) have "s' = resume_network ?r t" by (simp add: sovereign_execute_action_def)
    with r show ?thesis by (simp only: resume_network_wf)
  qed
qed

lemma sovereign_process_wf:
  assumes "process_with E (sovereign_engine E) s m t c = Some (r, s')" and "pause_wf t0 s" and "t0 \<le> t"
  shows "pause_wf t s'"
proof -
  have s: "pause_wf t s" using assms(2,3) by (rule pause_wf_mono)
  then have p: "pause_wf t (action_prune s t c)" by (rule pause_wf_cong) simp_all
  show ?thesis
  proof (cases r)
    case (Inl e)
    with assms s p show ?thesis using sovereign.rejected_cases by metis
  next
    case (Inr e)
    with assms(1) obtain x s1 where
      "sovereign_execute_action E (action_prune s t c) m t c = Some (x, s1)"
      and s': "s' = s1\<lparr>action_log := action_log s1 @ [m]\<rparr>"
      by (auto elim: sovereign.accepted_elim)
    then have "pause_wf t s1" using p sovereign_execute_wf by blast
    then show ?thesis by (rule pause_wf_cong) (simp_all add: s')
  qed
qed

lemma reachable_pause_wf: "reachable_actions E c t s \<Longrightarrow> pause_wf t s"
proof (induction rule: reachable_actions.induct)
  case (start t g)
  then show ?case by (simp add: pause_wf_def action_state_new_def)
next
  case (process t0 s t m r s')
  from process.hyps(4) show ?case
  proof (cases rule: process_engine_cases)
    case 1
    then show ?thesis using process.IH process.hyps(2) by (rule sovereign_process_wf)
  next
    case 2
    with process.IH process.hyps(2) show ?thesis by (auto simp: permissionless_rejects intro: pause_wf_mono)
  qed
qed

text \<open>The specification of \<open>paused_kyns_since\<close>: the kyns from \<open>target\<close> on that lie in a pause.\<close>

definition paused_after :: "(kyn \<times> kyn) list \<Rightarrow> kyn \<Rightarrow> nat set" where
  "paused_after ps target = {k. unat target \<le> k \<and> (\<exists>(s, e)\<in>set ps. unat s \<le> k \<and> k < unat e)}"

fun pause_overlap :: "(kyn \<times> kyn) list \<Rightarrow> kyn \<Rightarrow> nat" where
  "pause_overlap [] target = 0"
| "pause_overlap ((s, e) # ps) target = (unat e - max (unat s) (unat target)) + pause_overlap ps target"

lemma pause_overlap_le: "pause_overlap ps target \<le> pause_length ps"
  by (induction ps rule: pause_length.induct) auto

lemma sum_paused_overlap:
  "unat acc + pause_overlap ps target < 2 ^ 64
    \<Longrightarrow> unat (sum_paused ps target acc) = unat acc + pause_overlap ps target"
proof (induction ps target acc rule: sum_paused.induct)
  case (2 s e ps target acc)
  have add: "unat (acc + saturating_sub e x) = unat acc + (unat e - unat x)"
    if "unat acc + (unat e - unat x) < 2 ^ 64" for x
    using that by (simp only: unat_add_u64 unat_saturating_sub mod_less)
  from 2 show ?case
    by (auto simp: add word_le_nat_alt max_def)
qed simp

lemma paused_after_Cons:
  "paused_after ((s, e) # ps) target = {max (unat s) (unat target)..<unat e} \<union> paused_after ps target"
  by (auto simp: paused_after_def)

lemma pauses_ordered_members: "pauses_ordered lo ps t \<Longrightarrow> (s, e) \<in> set ps \<Longrightarrow> lo \<le> unat s"
proof (induction ps arbitrary: lo)
  case (Cons p ps)
  then show ?case by (cases p) fastforce
qed simp

lemma card_paused_after:
  "pauses_ordered lo ps t \<Longrightarrow> finite (paused_after ps target) \<and> card (paused_after ps target) = pause_overlap ps target"
proof (induction ps arbitrary: lo)
  case Nil
  then show ?case by (simp add: paused_after_def)
next
  case (Cons p ps)
  obtain s e where p: "p = (s, e)" by force
  then have o: "pauses_ordered (unat e) ps t" using Cons.prems by simp
  then have "{max (unat s) (unat target)..<unat e} \<inter> paused_after ps target = {}"
    by (fastforce simp: paused_after_def dest: pauses_ordered_members)
  then show ?case
    using Cons.IH [OF o] by (simp add: p paused_after_Cons card_Un_disjoint)
qed

lemma pauses_of_wf:
  assumes "pause_wf t s"
  shows "pauses_ordered 0 (pause_history s) (unat t)"
  using assms by (auto simp: pause_wf_def word_le_nat_alt split: option.splits intro: pauses_ordered_mono)

lemma paused_since_wf:
  assumes "pause_wf t s"
  shows "unat (paused_kyns_since s target) = card (paused_after (pause_history s) target)"
proof -
  have o: "pauses_ordered 0 (pause_history s) (unat t)" using assms by (rule pauses_of_wf)
  have "pause_overlap (pause_history s) target \<le> unat t"
    using pause_overlap_le [of "pause_history s" target] pause_length_bound [OF o] by simp
  then have "pause_overlap (pause_history s) target < 2 ^ 64"
    using unat_lt_u64 [of t] by linarith
  then have "unat (paused_kyns_since s target) = pause_overlap (pause_history s) target"
    by (simp add: paused_kyns_since_def sum_paused_overlap)
  then show ?thesis using card_paused_after [OF o] by simp
qed

lemma pause_overlap_0: "pause_overlap ps 0 = pause_length ps"
  by (induction ps rule: pause_length.induct) auto

lemma paused_since_0:
  assumes "pause_wf t s"
  shows "paused_kyns_since s 0 = total_paused_kyns s"
proof (rule word_eq_unatI)
  have o: "pauses_ordered 0 (pause_history s) (unat t)" using assms by (rule pauses_of_wf)
  show "unat (paused_kyns_since s 0) = unat (total_paused_kyns s)"
    using paused_since_wf [OF assms, of 0] card_paused_after [OF o, of 0] assms
    by (simp add: pause_overlap_0 pause_wf_def)
qed

section \<open>Correctness of network actions\<close>

text \<open>A concrete node for the witnesses: halted at kyn 50, resumed at kyn 60.\<close>

definition sample_config :: action_config where
  "sample_config = \<lparr>sovereign_key_hex = replicate 1952 CHR ''0'', max_age_kyns = 100,
     cfg_dev_mode = False, action_model = ''sovereign''\<rparr>"

definition sample_halt :: signed_network_action where
  "sample_halt = \<lparr>sna_action = EmergencyHalt, timestamp_kyn = 50,
     sovereign_signatures = [0x0C # u64_to_be_bytes 50]\<rparr>"

definition sample_resume :: signed_network_action where
  "sample_resume = \<lparr>sna_action = EmergencyResume, timestamp_kyn = 60,
     sovereign_signatures = [0x0D # u64_to_be_bytes 60]\<rparr>"

definition sample_s1 :: action_state where
  "sample_s1 = snd (the (process_action_message sample_crypto (action_state_new 0) sample_halt 50 sample_config))"

definition sample_s2 :: action_state where
  "sample_s2 = snd (the (process_action_message sample_crypto sample_s1 sample_resume 60 sample_config))"

lemma process_total:
  "process_action_message E s m t c \<noteq> None
     \<longleftrightarrow> action_model c = ''sovereign'' \<or> action_model c = ''permissionless''"
  using sovereign.never_panics [of E s m t c] permissionless.never_panics [of E s m t c]
  by (simp add: process_action_message_def active_engine_def)

lemma sample_run: "reachable_actions sample_crypto sample_config 60 sample_s2"
proof -
  have step: "reachable_actions sample_crypto sample_config t
      (snd (the (process_action_message sample_crypto s m t sample_config)))"
    if "reachable_actions sample_crypto sample_config t0 s" "t0 \<le> t" "unat t < 1000" for s m t t0
  proof -
    have "process_action_message sample_crypto s m t sample_config \<noteq> None"
      by (subst process_total) (simp add: sample_config_def)
    then show ?thesis
      using that
      by (intro reachable_actions.process [OF that(1), of t m "fst (the (process_action_message sample_crypto s m t sample_config))"])
         (auto simp: sample_config_def)
  qed
  show ?thesis
    unfolding sample_s2_def sample_s1_def
    by (rule step, rule step, rule reachable_actions.start [where t = 0]) simp_all
qed

lemmas sample_action_defs = sample_config_def sample_halt_def sample_resume_def
  process_action_message_def active_engine_def process_with_def sovereign_verify_action_def
  sovereign_execute_action_def verify_sovereign_signature_def verify_signature_def action_effect_of_def
  sovereign_key_def action_prune_def halt_network_def resume_network_def hash_action_def
  to_bytes_def action_payload_def abs_diff_def KINETIC_PUBKEY_LENGTH_def as_bytes_def

lemma sample_s1_eq:
  "sample_s1 = (action_state_new 0)\<lparr>is_halted := True, halt_start_kyn := Some 50,
     executed_hashes := [to_bytes sample_halt \<mapsto> 50], action_log := [sample_halt]\<rparr>"
  by (simp add: sample_s1_def sample_action_defs action_state_new_def sample_crypto_simps)

lemma sample_s2_eq:
  "sample_s2 = (action_state_new 0)\<lparr>total_paused_kyns := 10, pause_history := [(50, 60)],
     executed_hashes := [to_bytes sample_halt \<mapsto> 50, to_bytes sample_resume \<mapsto> 60],
     action_log := [sample_halt, sample_resume]\<rparr>"
  by (simp add: sample_s2_def sample_s1_eq sample_action_defs action_state_new_def sample_crypto_simps
      saturating_add_def saturating_sub_def fun_eq_iff)

text \<open>C30. Replay protection: at any state a node reaches by processing messages at
  non-decreasing kyns, no two executed messages have the same canonical bytes, although the
  hashes of executed messages are pruned.\<close>

theorem actions_never_replayed:
  assumes "reachable_actions E c t s"
  shows "distinct (map to_bytes (action_log s))"
  using reachable_guarded [OF assms] by (simp add: log_guarded_def)

theorem actions_never_replayed_witness:
  "reachable_actions sample_crypto sample_config 60 sample_s2
     \<and> distinct (map to_bytes (action_log sample_s2)) \<and> length (action_log sample_s2) = 2"
  using actions_never_replayed [OF sample_run] sample_run by (simp add: sample_s2_eq)

text \<open>Pause accounting: \<open>paused_kyns_since\<close> counts exactly the kyns from the target on that
  lie inside a recorded pause, without wrap-around; from kyn 0 it is the running total; and
  the halt flag agrees with the recorded start of the halt.\<close>

lemma paused_kyns_exact:
  assumes "reachable_actions E c t s"
  shows "unat (paused_kyns_since s target) = card (paused_after (pause_history s) target)
    \<and> paused_kyns_since s 0 = total_paused_kyns s
    \<and> (is_halted s \<longleftrightarrow> halt_start_kyn s \<noteq> None)"
  using reachable_pause_wf [OF assms] paused_since_wf paused_since_0
  by (metis pause_wf_def)

text \<open>C31. Authorisation: a message changes the action state only under the sovereign model, with
  a timestamp inside the replay window and a signature over its canonical bytes that verifies
  under the sovereign key in force; the permissionless model never changes the state.\<close>

theorem actions_authorised:
  assumes "process_action_message E s m t c = Some (r, s')" and "s' \<noteq> s"
  shows "action_model c = ''sovereign''
    \<and> abs_diff t (timestamp_kyn m) \<le> max_age_kyns c
    \<and> (\<exists>key sig. sovereign_key E s c = Ok key \<and> sig \<in> set (sovereign_signatures m)
         \<and> signed_by E key (to_bytes m) sig)"
proof (cases "action_model c = ''sovereign''")
  case True
  then have p: "process_with E (sovereign_engine E) s m t c = Some (r, s')"
    using assms(1) by (simp add: process_action_message_def active_engine_def)
  then obtain e where "sovereign_verify_action E s m t c = Ok e"
    using assms(2) by (auto simp: process_with_def split: sum.splits)
  with True show ?thesis by (auto simp: sovereign_verify_Ok)
next
  case False
  then have "s' = s"
    using assms(1)
    by (auto simp: process_action_message_def active_engine_def permissionless_rejects split: if_splits)
  with assms(2) show ?thesis by simp
qed

theorem actions_authorised_witness:
  "process_action_message sample_crypto (action_state_new 0) sample_halt 50 sample_config
     = Some (Ok (Some NetworkHalted), sample_s1)
   \<and> sample_s1 \<noteq> action_state_new 0
   \<and> (\<exists>key sig. sovereign_key sample_crypto (action_state_new 0) sample_config = Ok key
        \<and> sig \<in> set (sovereign_signatures sample_halt)
        \<and> signed_by sample_crypto key (to_bytes sample_halt) sig)"
proof -
  have p: "process_action_message sample_crypto (action_state_new 0) sample_halt 50 sample_config
     = Some (Ok (Some NetworkHalted), sample_s1)"
    by (simp add: sample_s1_eq sample_action_defs action_state_new_def sample_crypto_simps)
  moreover have n: "sample_s1 \<noteq> action_state_new 0" by (simp add: sample_s1_eq action_state_new_def)
  ultimately show ?thesis using actions_authorised [OF p n] by blast
qed

text \<open>Codec: the canonical bytes of a message with a full-size key parse back to its action
  and timestamp, and messages with the same bytes agree on both.\<close>

lemma action_bytes_round_trip:
  assumes "well_formed_action (sna_action m)"
  shows "parse_payload (to_bytes m) = Ok (sna_action m, timestamp_kyn m)
    \<and> (to_bytes m = to_bytes m' \<longleftrightarrow> sna_action m = sna_action m' \<and> timestamp_kyn m = timestamp_kyn m')"
  using action_payload_parse [OF assms] to_bytes_eq_iff by (simp add: to_bytes_def)

text \<open>The processor panics exactly for an unknown action model: the \<open>unreachable!\<close> of the
  permissionless engine is never reached.\<close>

lemma process_action_panics_iff:
  "process_action_message E s m t c = None
     \<longleftrightarrow> action_model c \<noteq> ''sovereign'' \<and> action_model c \<noteq> ''permissionless''"
  using process_total [of E s m t c] by blast

text \<open>The parser ignores bytes between the opcode of a halt or resume message and the
  timestamp.\<close>

lemma parse_payload_trailing_bytes:
  "parse_payload (0x0C # junk @ u64_to_be_bytes ts) = Ok (EmergencyHalt, ts)"
  by (simp add: parse_payload_def Let_def)

end
