(* ===== verification/Storage.thy ===== *)
theory Storage
  imports Encoding "HOL-Library.List_Lexorder"
begin

text \<open>
  \<open>kinetic-storage/src/lib.rs\<close>, the browser engine: an ordered map with an append-only OPFS
  log, and the \<open>StorageEngine\<close> trait of \<open>kinetic-core/src/traits.rs\<close> as the locale
  \<open>storage_engine\<close>.

  The browser's file handle is a parameter (\<open>opfs_api\<close>), with its documented behaviour in
  \<open>opfs_works\<close>. The \<open>RwLock\<close>s cannot be poisoned, since no code panics while holding one.
\<close>

datatype storage_error =
    DatabaseLocked | Corruption string | ReadFailed string | WriteFailed string | DeleteFailed string
  | ScanFailed string | OpenFailed string | DeserializationFailed string | InvalidRecordDiscarded
  | UnreferencedHeartbeatPurged

section \<open>BTreeMap\<close>

text \<open>The standard library's ordered map: an association list in strictly increasing key order.\<close>

fun btree_insert :: "'k::linorder \<Rightarrow> 'v \<Rightarrow> ('k \<times> 'v) list \<Rightarrow> ('k \<times> 'v) list" where
  "btree_insert k v [] = [(k, v)]"
| "btree_insert k v ((k', v') # m) =
     (if k < k' then (k, v) # (k', v') # m
      else if k = k' then (k, v) # m
      else (k', v') # btree_insert k v m)"

definition btree_remove :: "'k \<Rightarrow> ('k \<times> 'v) list \<Rightarrow> ('k \<times> 'v) list" where
  "btree_remove k m = filter (\<lambda>(k', _). k' \<noteq> k) m"

definition btree_range :: "'k::linorder \<Rightarrow> ('k \<times> 'v) list \<Rightarrow> ('k \<times> 'v) list" where
  "btree_range lo m = filter (\<lambda>(k, _). lo \<le> k) m"

definition btree_wf :: "('k::linorder \<times> 'v) list \<Rightarrow> bool" where
  "btree_wf m = sorted_wrt (<) (map fst m)"

lemma btree_wf_Nil [simp]: "btree_wf []"
  by (simp add: btree_wf_def)

lemma btree_wf_Cons: "btree_wf ((k, v) # m) \<longleftrightarrow> (\<forall>x\<in>set m. k < fst x) \<and> btree_wf m"
  by (simp add: btree_wf_def)

lemma set_btree_insert: "fst ` set (btree_insert k v m) = insert k (fst ` set m)"
  by (induction k v m rule: btree_insert.induct) auto

lemma btree_wf_insert: "btree_wf m \<Longrightarrow> btree_wf (btree_insert k v m)"
proof (induction k v m rule: btree_insert.induct)
  case (2 k v k' v' m)
  have keys: "fst x \<in> insert k (fst ` set m)" if "x \<in> set (btree_insert k v m)" for x
    using that set_btree_insert [of k v m] by blast
  show ?case
  proof (cases "k < k' \<or> k = k'")
    case True
    with 2 show ?thesis by (auto simp: btree_wf_Cons dest: less_trans)
  next
    case False
    then have "\<forall>x\<in>set (btree_insert k v m). k' < fst x"
      using keys 2(2) by (fastforce simp: btree_wf_Cons)
    with False 2 show ?thesis by (simp add: btree_wf_Cons)
  qed
qed (simp add: btree_wf_def)

lemma map_of_btree_insert: "btree_wf m \<Longrightarrow> map_of (btree_insert k v m) = (map_of m)(k \<mapsto> v)"
proof (induction k v m rule: btree_insert.induct)
  case (2 k v k' v' m)
  then show ?case by (auto simp: btree_wf_Cons fun_eq_iff)
qed simp

lemma btree_wf_remove: "btree_wf m \<Longrightarrow> btree_wf (btree_remove k m)"
  by (induction m) (auto simp: btree_remove_def btree_wf_Cons)

lemma map_of_btree_remove: "map_of (btree_remove k m) = (map_of m)(k := None)"
  by (induction m) (auto simp: btree_remove_def fun_eq_iff)

lemma btree_lookup_below: "btree_wf m \<Longrightarrow> \<forall>x\<in>set m. k < fst x \<Longrightarrow> map_of m k = None"
  by (auto simp: map_of_eq_None_iff)

lemma length_btree_insert:
  "btree_wf m \<Longrightarrow> length (btree_insert k v m) = (if map_of m k = None then Suc (length m) else length m)"
proof (induction k v m rule: btree_insert.induct)
  case (2 k v k' v' m)
  have "map_of m k = None" if "k < k'"
    using that 2(2) by (intro btree_lookup_below) (auto simp: btree_wf_Cons intro: less_trans)
  with 2 show ?case by (auto simp: btree_wf_Cons)
qed simp

section \<open>The OPFS log\<close>

record 'h opfs_api =
  op_get_size :: "'h \<Rightarrow> (string, nat) result"
  op_read :: "'h \<Rightarrow> (string, bytes) result"
  op_write_at :: "'h \<Rightarrow> nat \<Rightarrow> bytes \<Rightarrow> (string, unit) result \<times> 'h"
  op_flush :: "'h \<Rightarrow> (string, unit) result \<times> 'h"

record 'h wasm_storage =
  db :: "(bytes \<times> bytes) list"
  opfs_handle :: "'h option"

definition u32_to_le_bytes :: "u32 \<Rightarrow> bytes" where
  "u32_to_le_bytes w = to_le_bytes 4 w"

definition u32_from_le_bytes :: "bytes \<Rightarrow> u32" where
  "u32_from_le_bytes b = from_le_bytes b"

text \<open>The length field that marks a deletion.\<close>

definition TOMBSTONE :: u32 where
  "TOMBSTONE = 0xFFFFFFFF"

definition log_payload :: "bytes \<Rightarrow> bytes option \<Rightarrow> bytes" where
  "log_payload key value =
     u32_to_le_bytes (of_nat (length key)) @ key @
     (case value of
        Some v \<Rightarrow> u32_to_le_bytes (of_nat (length v)) @ v
      | None \<Rightarrow> u32_to_le_bytes TOMBSTONE)"

definition append_to_log ::
  "'h opfs_api \<Rightarrow> 'h wasm_storage \<Rightarrow> bytes \<Rightarrow> bytes option \<Rightarrow> (storage_error, unit) result \<times> 'h wasm_storage" where
  "append_to_log H self key value =
     (case opfs_handle self of
        None \<Rightarrow> (Ok (), self)
      | Some h \<Rightarrow>
          (case op_get_size H h of
             Inl e \<Rightarrow> (Err (WriteFailed e), self)
           | Inr sz \<Rightarrow>
               (case op_write_at H h sz (log_payload key value) of
                  (Inl e, h) \<Rightarrow> (Err (WriteFailed e), self\<lparr>opfs_handle := Some h\<rparr>)
                | (Inr _, h) \<Rightarrow>
                    (case op_flush H h of
                       (Inl e, h) \<Rightarrow> (Err (WriteFailed e), self\<lparr>opfs_handle := Some h\<rparr>)
                     | (Inr _, h) \<Rightarrow> (Ok (), self\<lparr>opfs_handle := Some h\<rparr>)))))"

text \<open>The loop of \<open>init_opfs\<close> over the buffer; every \<open>break\<close> ends it with the map so far.\<close>

function replay_log :: "bytes \<Rightarrow> nat \<Rightarrow> (bytes \<times> bytes) list \<Rightarrow> (bytes \<times> bytes) list" where
  "replay_log buffer cursor m =
     (if \<not> cursor < length buffer then m
      else if length buffer < cursor + 4 then m
      else let key_len = unat (u32_from_le_bytes (take 4 (drop cursor buffer)));
               cursor1 = cursor + 4
           in if length buffer < cursor1 + key_len then m
              else let key = take key_len (drop cursor1 buffer);
                       cursor2 = cursor1 + key_len
                   in if length buffer < cursor2 + 4 then m
                      else let val_len = unat (u32_from_le_bytes (take 4 (drop cursor2 buffer)));
                               cursor3 = cursor2 + 4
                           in if val_len = unat TOMBSTONE then replay_log buffer cursor3 (btree_remove key m)
                              else if length buffer < cursor3 + val_len then m
                              else replay_log buffer (cursor3 + val_len)
                                     (btree_insert key (take val_len (drop cursor3 buffer)) m))"
  by pat_completeness auto
termination
  by (relation "measure (\<lambda>(buffer, cursor, m). length buffer - cursor)") auto

declare replay_log.simps [simp del]

definition init_opfs :: "'h opfs_api \<Rightarrow> 'h \<Rightarrow> (storage_error, 'h wasm_storage) result" where
  "init_opfs H handle =
     (case op_get_size H handle of
        Inl e \<Rightarrow> Err (OpenFailed e)
      | Inr file_size \<Rightarrow>
          if 0 < file_size then
            (case op_read H handle of
               Inl e \<Rightarrow> Err (OpenFailed e)
             | Inr buffer \<Rightarrow> Ok \<lparr>db = replay_log buffer 0 [], opfs_handle = Some handle\<rparr>)
          else Ok \<lparr>db = [], opfs_handle = Some handle\<rparr>)"

section \<open>The engine\<close>

definition storage_new :: "'h wasm_storage" where
  "storage_new = \<lparr>db = [], opfs_handle = None\<rparr>"

fun scan_loop :: "bytes \<Rightarrow> nat option \<Rightarrow> (bytes \<times> bytes) list \<Rightarrow> (bytes \<times> bytes) list \<Rightarrow> (bytes \<times> bytes) list" where
  "scan_loop pre limit results [] = results"
| "scan_loop pre limit results ((k, v) # rest) =
     (if (case limit of Some l \<Rightarrow> l \<le> length results | None \<Rightarrow> False) then results
      else if starts_with k pre then scan_loop pre limit (results @ [(k, v)]) rest
      else results)"

definition storage_scan_prefix ::
  "'h wasm_storage \<Rightarrow> bytes \<Rightarrow> nat option \<Rightarrow> (storage_error, (bytes \<times> bytes) list) result" where
  "storage_scan_prefix self pre limit = Ok (scan_loop pre limit [] (btree_range pre (db self)))"

definition storage_put ::
  "'h opfs_api \<Rightarrow> 'h wasm_storage \<Rightarrow> bytes \<Rightarrow> bytes \<Rightarrow> (storage_error, unit) result \<times> 'h wasm_storage" where
  "storage_put H self key value =
     (if opfs_handle self = None \<and> 10000 \<le> length (db self) \<and> map_of (db self) key = None
      then (Err (WriteFailed ''WASM storage quota exceeded (10,000 keys). Cannot insert new keys.''), self)
      else append_to_log H (self\<lparr>db := btree_insert key value (db self)\<rparr>) key (Some value))"

definition storage_get :: "'h wasm_storage \<Rightarrow> bytes \<Rightarrow> (storage_error, bytes option) result" where
  "storage_get self key = Ok (map_of (db self) key)"

definition storage_delete ::
  "'h opfs_api \<Rightarrow> 'h wasm_storage \<Rightarrow> bytes \<Rightarrow> (storage_error, unit) result \<times> 'h wasm_storage" where
  "storage_delete H self key = append_to_log H (self\<lparr>db := btree_remove key (db self)\<rparr>) key None"

section \<open>The StorageEngine contract\<close>

text \<open>The trait as a record of methods, for components that hold a \<open>dyn StorageEngine\<close>.\<close>

record 's storage_ops =
  st_put :: "'s \<Rightarrow> bytes \<Rightarrow> bytes \<Rightarrow> (storage_error, unit) result \<times> 's"
  st_get :: "'s \<Rightarrow> bytes \<Rightarrow> (storage_error, bytes option) result"
  st_delete :: "'s \<Rightarrow> bytes \<Rightarrow> (storage_error, unit) result \<times> 's"
  st_scan_prefix :: "'s \<Rightarrow> bytes \<Rightarrow> nat option \<Rightarrow> (storage_error, (bytes \<times> bytes) list) result"

locale storage_engine =
  fixes S :: "('s, 'y) storage_ops_scheme" and contents :: "'s \<Rightarrow> bytes \<rightharpoonup> bytes" and wf :: "'s \<Rightarrow> bool"
  assumes put_ok: "wf s \<Longrightarrow> st_put S s k v = (Ok u, s') \<Longrightarrow> contents s' = (contents s)(k \<mapsto> v)"
    and put_frame: "wf s \<Longrightarrow> st_put S s k v = (r, s') \<Longrightarrow> k' \<noteq> k \<Longrightarrow> contents s' k' = contents s k'"
    and put_wf: "wf s \<Longrightarrow> st_put S s k v = (r, s') \<Longrightarrow> wf s'"
    and get_ok: "wf s \<Longrightarrow> st_get S s k = Ok x \<Longrightarrow> x = contents s k"
    and delete_ok: "wf s \<Longrightarrow> st_delete S s k = (Ok u, s') \<Longrightarrow> contents s' = (contents s)(k := None)"
    and delete_frame: "wf s \<Longrightarrow> st_delete S s k = (r, s') \<Longrightarrow> k' \<noteq> k \<Longrightarrow> contents s' k' = contents s k'"
    and delete_wf: "wf s \<Longrightarrow> st_delete S s k = (r, s') \<Longrightarrow> wf s'"
    and scan_sound: "wf s \<Longrightarrow> st_scan_prefix S s p l = Ok rs \<Longrightarrow> (k, v) \<in> set rs
      \<Longrightarrow> starts_with k p \<and> contents s k = Some v"
    and scan_complete: "wf s \<Longrightarrow> st_scan_prefix S s p None = Ok rs \<Longrightarrow> starts_with k p
      \<Longrightarrow> contents s k = Some v \<Longrightarrow> (k, v) \<in> set rs"
begin

lemma get_after_put:
  assumes "wf s" and "st_put S s k v = (Ok u, s')" and "st_get S s' k = Ok x"
  shows "x = Some v"
  using get_ok [OF put_wf [OF assms(1,2)] assms(3)] put_ok [OF assms(1,2)] by simp

lemma get_after_delete:
  assumes "wf s" and "st_delete S s k = (Ok u, s')" and "st_get S s' k = Ok x"
  shows "x = None"
  using get_ok [OF delete_wf [OF assms(1,2)] assms(3)] delete_ok [OF assms(1,2)] by simp

end

section \<open>Prefix scans\<close>

lemma prefix_le: "starts_with k p \<Longrightarrow> p \<le> (k :: 'a::linorder list)"
proof -
  assume "starts_with k p"
  then obtain t where k: "k = p @ t" by (auto simp: starts_with_iff)
  show ?thesis
    by (cases t) (simp_all add: k list_le_def list_less_def lexord_append_rightI)
qed

text \<open>In lexicographic order the keys with a given prefix are contiguous.\<close>

lemma prefix_convex:
  "p \<le> k \<Longrightarrow> k \<le> k' \<Longrightarrow> starts_with k' p \<Longrightarrow> starts_with (k :: 'a::linorder list) p"
proof (induction p arbitrary: k k')
  case Nil
  then show ?case by (simp add: starts_with_def)
next
  case (Cons x p)
  then obtain t where k': "k' = x # t" "starts_with t p"
    by (auto simp: starts_with_iff)
  from Cons.prems(1) obtain y u where k: "k = y # u" by (cases k) auto
  from Cons.prems k k' have "x \<le> y" "y \<le> x" by (auto simp: Cons_le_Cons)
  then have "x = y" by simp
  with Cons.prems k k' have "p \<le> u" "u \<le> t" by (auto simp: Cons_le_Cons)
  with Cons.IH k' have "starts_with u p" by blast
  with \<open>x = y\<close> k show ?case by (simp add: starts_with_def)
qed

lemma scan_loop_takeWhile:
  "scan_loop p limit acc m = acc @
     (case limit of None \<Rightarrow> takeWhile (\<lambda>(k, _). starts_with k p) m
      | Some l \<Rightarrow> take (l - length acc) (takeWhile (\<lambda>(k, _). starts_with k p) m))"
proof (induction p limit acc m rule: scan_loop.induct)
  case (2 p limit acc k v rest)
  show ?case
  proof (cases limit)
    case None
    with 2 show ?thesis by simp
  next
    case (Some l)
    show ?thesis
    proof (cases "l \<le> length acc")
      case False
      then obtain d where "l - length acc = Suc d" by (cases "l - length acc") auto
      moreover from this have "l - length (acc @ [(k, v)]) = d" by simp
      ultimately show ?thesis using 2 Some False by simp
    qed (simp add: Some)
  qed
qed (simp split: option.split)

lemma takeWhile_convex:
  fixes m :: "('a::linorder list \<times> 'v) list"
  assumes "btree_wf m" and "\<forall>x\<in>set m. p \<le> fst x"
  shows "takeWhile (\<lambda>(k, _). starts_with k p) m = filter (\<lambda>(k, _). starts_with k p) m"
  using assms
proof (induction m)
  case (Cons a m)
  obtain k v where a: "a = (k, v)" by force
  show ?case
  proof (cases "starts_with k p")
    case True
    with Cons a show ?thesis by (simp add: btree_wf_Cons)
  next
    case False
    have "\<not> starts_with (fst x) p" if "x \<in> set m" for x
      using that Cons.prems a False prefix_convex [of p k "fst x"] by (fastforce simp: btree_wf_Cons)
    then have "filter (\<lambda>(k, _). starts_with k p) m = []"
      by (auto simp: filter_empty_conv)
    with False a show ?thesis by simp
  qed
qed simp

lemma btree_wf_range: "btree_wf m \<Longrightarrow> btree_wf (btree_range lo m)"
  by (induction m) (auto simp: btree_range_def btree_wf_Cons)

text \<open>A scan is the filter of the ordered map, cut at the limit.\<close>

lemma scan_prefix_filter:
  assumes "btree_wf (db s)"
  shows "storage_scan_prefix s p limit = Ok
    ((case limit of None \<Rightarrow> id | Some l \<Rightarrow> take l) (filter (\<lambda>(k, _). starts_with k p) (db s)))"
proof -
  let ?r = "btree_range p (db s)"
  have "takeWhile (\<lambda>(k, _). starts_with k p) ?r = filter (\<lambda>(k, _). starts_with k p) ?r"
    using assms by (intro takeWhile_convex btree_wf_range) (auto simp: btree_range_def)
  also have "\<dots> = filter (\<lambda>(k, _). starts_with k p) (db s)"
    by (auto simp: btree_range_def intro!: filter_cong dest: prefix_le)
  finally show ?thesis
    by (simp add: storage_scan_prefix_def scan_loop_takeWhile split: option.split)
qed

section \<open>The browser engine meets the contract\<close>

definition wasm_ops :: "'h opfs_api \<Rightarrow> 'h wasm_storage storage_ops" where
  "wasm_ops H = \<lparr>st_put = storage_put H, st_get = storage_get, st_delete = storage_delete H,
     st_scan_prefix = storage_scan_prefix\<rparr>"

lemma wasm_ops_simps [simp]:
  "st_put (wasm_ops H) = storage_put H" "st_get (wasm_ops H) = storage_get"
  "st_delete (wasm_ops H) = storage_delete H" "st_scan_prefix (wasm_ops H) = storage_scan_prefix"
  by (simp_all add: wasm_ops_def)

lemma append_to_log_db: "append_to_log H s k v = (r, s') \<Longrightarrow> db s' = db s"
  by (auto simp: append_to_log_def split: option.splits sum.splits prod.splits)

lemma btree_entry: "btree_wf m \<Longrightarrow> (k, v) \<in> set m \<longleftrightarrow> map_of m k = Some v"
  by (rule map_of_eq_Some_iff [symmetric])
     (simp add: btree_wf_def strict_sorted_iff)

lemma storage_put_db:
  "storage_put H s k v = (r, s') \<Longrightarrow> db s' = db s \<and> is_err r \<or> db s' = btree_insert k v (db s)"
  by (auto simp: storage_put_def dest: append_to_log_db split: if_splits)

lemma storage_delete_db: "storage_delete H s k = (r, s') \<Longrightarrow> db s' = btree_remove k (db s)"
  by (auto simp: storage_delete_def dest: append_to_log_db)

interpretation wasm: storage_engine "wasm_ops H" "\<lambda>s. map_of (db s)" "\<lambda>s. btree_wf (db s)" for H
proof (unfold_locales, unfold wasm_ops_simps)
  fix s s' :: "'a wasm_storage" and k k' v u r
  assume wf: "btree_wf (db s)"
  show "storage_put H s k v = (Ok u, s') \<Longrightarrow> map_of (db s') = (map_of (db s))(k \<mapsto> v)"
    using wf by (auto dest!: storage_put_db simp: map_of_btree_insert)
  show "storage_put H s k v = (r, s') \<Longrightarrow> k' \<noteq> k \<Longrightarrow> map_of (db s') k' = map_of (db s) k'"
    using wf by (auto dest!: storage_put_db simp: map_of_btree_insert)
  show "storage_put H s k v = (r, s') \<Longrightarrow> btree_wf (db s')"
    using wf by (auto dest!: storage_put_db simp: btree_wf_insert)
  show "storage_delete H s k = (Ok u, s') \<Longrightarrow> map_of (db s') = (map_of (db s))(k := None)"
    using wf by (auto dest!: storage_delete_db simp: map_of_btree_remove)
  show "storage_delete H s k = (r, s') \<Longrightarrow> k' \<noteq> k \<Longrightarrow> map_of (db s') k' = map_of (db s) k'"
    using wf by (auto dest!: storage_delete_db simp: map_of_btree_remove)
  show "storage_delete H s k = (r, s') \<Longrightarrow> btree_wf (db s')"
    using wf by (auto dest!: storage_delete_db simp: btree_wf_remove)
next
  fix s :: "'a wasm_storage" and k x
  assume "storage_get s k = Ok x"
  then show "x = map_of (db s) k" by (simp add: storage_get_def)
next
  fix s :: "'a wasm_storage" and p l rs k v
  assume "btree_wf (db s)" "storage_scan_prefix s p l = Ok rs" "(k, v) \<in> set rs"
  then show "starts_with k p \<and> map_of (db s) k = Some v"
    by (auto simp: scan_prefix_filter btree_entry [symmetric] split: option.splits dest: in_set_takeD)
next
  fix s :: "'a wasm_storage" and p rs k v
  assume "btree_wf (db s)" "storage_scan_prefix s p None = Ok rs" "starts_with k p" "map_of (db s) k = Some v"
  then show "(k, v) \<in> set rs" by (auto simp: scan_prefix_filter btree_entry)
qed

text \<open>An operation that fails leaves the key as it was or as it was to become; clients that must
  keep a property of all stored values rely on it.\<close>

locale total_storage_engine = storage_engine +
  assumes put_any: "wf s \<Longrightarrow> st_put S s k v = (r, s') \<Longrightarrow> contents s' k = contents s k \<or> contents s' k = Some v"
    and delete_any: "wf s \<Longrightarrow> st_delete S s k = (r, s') \<Longrightarrow> contents s' k = contents s k \<or> contents s' k = None"
begin

text \<open>A property of the stored values that a write respects is kept, whatever its outcome.\<close>

lemma put_keeps:
  assumes "wf s" and "st_put S s k v = (r, s')" and "\<And>k v. contents s k = Some v \<Longrightarrow> Q k v" and "Q k v"
    and "contents s' k' = Some v'"
  shows "Q k' v'"
  using assms put_any [OF assms(1,2)] put_frame [OF assms(1,2), of k'] by (cases "k' = k") auto

lemma delete_keeps:
  assumes "wf s" and "st_delete S s k = (r, s')" and "\<And>k v. contents s k = Some v \<Longrightarrow> Q k v"
    and "contents s' k' = Some v'"
  shows "Q k' v'"
  using assms delete_any [OF assms(1,2)] delete_frame [OF assms(1,2), of k'] by (cases "k' = k") auto

end

interpretation wasm: total_storage_engine "wasm_ops H" "\<lambda>s. map_of (db s)" "\<lambda>s. btree_wf (db s)" for H
proof (unfold_locales, unfold wasm_ops_simps)
  fix s s' :: "'a wasm_storage" and k v r
  assume wf: "btree_wf (db s)"
  show "storage_put H s k v = (r, s') \<Longrightarrow> map_of (db s') k = map_of (db s) k \<or> map_of (db s') k = Some v"
    using wf by (auto dest!: storage_put_db simp: map_of_btree_insert)
  show "storage_delete H s k = (r, s') \<Longrightarrow> map_of (db s') k = map_of (db s) k \<or> map_of (db s') k = None"
    using wf by (auto dest!: storage_delete_db simp: map_of_btree_remove)
qed

section \<open>Recovery from the log\<close>

text \<open>A logged operation: a write with its value or a tombstone.\<close>

type_synonym log_op = "bytes \<times> bytes option"

definition apply_op :: "log_op \<Rightarrow> (bytes \<times> bytes) list \<Rightarrow> (bytes \<times> bytes) list" where
  "apply_op x m = (case snd x of Some v \<Rightarrow> btree_insert (fst x) v m | None \<Rightarrow> btree_remove (fst x) m)"

definition op_fits :: "log_op \<Rightarrow> bool" where
  "op_fits x \<longleftrightarrow> length (fst x) < 2 ^ 32 \<and> (case snd x of None \<Rightarrow> True | Some v \<Rightarrow> length v < unat TOMBSTONE)"

definition log_entry :: "log_op \<Rightarrow> bytes" where
  "log_entry x = log_payload (fst x) (snd x)"

lemma length_u32_to_le_bytes [simp]: "length (u32_to_le_bytes w) = 4"
  by (simp add: u32_to_le_bytes_def)

lemma u32_le_round_trip [simp]: "u32_from_le_bytes (u32_to_le_bytes w) = w"
  by (simp add: u32_from_le_bytes_def u32_to_le_bytes_def)

lemma unat_len32: "n < 2 ^ 32 \<Longrightarrow> unat (of_nat n :: u32) = n"
  by (simp add: unat_of_nat)

lemma tombstone_fits: "n < unat TOMBSTONE \<Longrightarrow> unat (of_nat n :: u32) = n"
  by (intro unat_len32) (simp add: TOMBSTONE_def)

lemma replay_step:
  assumes "length k < 2 ^ 32"
    and "buffer = pre @ u32_to_le_bytes (of_nat (length k)) @ k @ u32_to_le_bytes w @ rest"
  shows "replay_log buffer (length pre) m =
    (let c = length pre + 8 + length k in
     if unat w = unat TOMBSTONE then replay_log buffer c (btree_remove k m)
     else if length rest < unat w then m
     else replay_log buffer (c + unat w) (btree_insert k (take (unat w) rest) m))"
proof -
  have k: "unat (of_nat (length k) :: u32) = length k" using assms(1) by (rule unat_len32)
  have f: "take 4 (drop (length pre) buffer) = u32_to_le_bytes (of_nat (length k))"
    "take (length k) (drop (length pre + 4) buffer) = k"
    "take 4 (drop (length pre + 4 + length k) buffer) = u32_to_le_bytes w"
    "drop (length pre + 4 + length k + 4) buffer = rest"
    "length buffer = length pre + 8 + length k + length rest"
    by (simp_all add: assms(2))
  show ?thesis
    by (subst replay_log.simps) (simp only: f k u32_le_round_trip Let_def, simp add: add.commute add.left_commute)
qed

lemma replay_entry:
  assumes "op_fits x"
  shows "replay_log (pre @ log_entry x @ rest) (length pre) m
    = replay_log (pre @ log_entry x @ rest) (length (pre @ log_entry x)) (apply_op x m)"
proof -
  obtain k v where x: "x = (k, v)" by force
  have k: "length k < 2 ^ 32" using assms by (simp add: x op_fits_def)
  show ?thesis
  proof (cases v)
    case None
    then have "log_entry x = u32_to_le_bytes (of_nat (length k)) @ k @ u32_to_le_bytes TOMBSTONE"
      by (simp add: x log_entry_def log_payload_def)
    with None show ?thesis
      using replay_step [OF k, of "pre @ log_entry x @ rest" pre TOMBSTONE rest m]
      by (simp add: x apply_op_def Let_def add.commute add.left_commute)
  next
    case (Some w)
    then have w: "unat (of_nat (length w) :: u32) = length w" "length w \<noteq> unat TOMBSTONE"
      using assms by (auto simp: x op_fits_def intro: tombstone_fits)
    have "log_entry x = u32_to_le_bytes (of_nat (length k)) @ k @ u32_to_le_bytes (of_nat (length w)) @ w"
      using Some by (simp add: x log_entry_def log_payload_def)
    with Some w show ?thesis
      using replay_step [OF k, of "pre @ log_entry x @ rest" pre "of_nat (length w)" "w @ rest" m]
      by (simp add: x apply_op_def Let_def add.commute add.left_commute)
  qed
qed

lemma replay_entries:
  "list_all op_fits ops \<Longrightarrow> replay_log (pre @ concat (map log_entry ops) @ rest) (length pre) m
     = replay_log (pre @ concat (map log_entry ops) @ rest)
         (length (pre @ concat (map log_entry ops))) (fold apply_op ops m)"
proof (induction ops arbitrary: pre m)
  case (Cons x ops)
  then have "replay_log (pre @ log_entry x @ (concat (map log_entry ops) @ rest)) (length pre) m
      = replay_log (pre @ log_entry x @ (concat (map log_entry ops) @ rest)) (length (pre @ log_entry x)) (apply_op x m)"
    by (intro replay_entry) simp
  also have "\<dots> = replay_log ((pre @ log_entry x) @ concat (map log_entry ops) @ rest)
      (length (pre @ log_entry x)) (apply_op x m)" by simp
  also have "\<dots> = replay_log ((pre @ log_entry x) @ concat (map log_entry ops) @ rest)
      (length ((pre @ log_entry x) @ concat (map log_entry ops))) (fold apply_op ops (apply_op x m))"
    using Cons by (intro Cons.IH) simp
  finally show ?case by simp
qed simp

lemma replay_short_header:
  assumes "length k < 2 ^ 32" and "n < 8 + length k"
  shows "replay_log (pre @ take n (u32_to_le_bytes (of_nat (length k)) @ k @ u32_to_le_bytes w)) (length pre) m = m"
proof -
  let ?h = "u32_to_le_bytes (of_nat (length k) :: u32)"
  let ?b = "pre @ take n (?h @ k @ u32_to_le_bytes w)"
  have len: "length ?b = length pre + n" using assms(2) by simp
  have k: "unat (of_nat (length k) :: u32) = length k" using assms(1) by (rule unat_len32)
  have hd: "take 4 (drop (length pre) ?b) = ?h" if "4 \<le> n" using that by simp
  show ?thesis
    by (subst replay_log.simps) (use assms(2) in \<open>auto simp only: len hd k u32_le_round_trip Let_def not_less split: if_split\<close>)
qed

lemma replay_torn:
  assumes "op_fits x" and "n < length (log_entry x)"
  shows "replay_log (pre @ take n (log_entry x)) (length pre) m = m"
proof -
  obtain k v where x: "x = (k, v)" by force
  have k: "length k < 2 ^ 32" using assms by (simp add: x op_fits_def)
  show ?thesis
  proof (cases "n < 8 + length k")
    case True
    define w where "w = (case v of None \<Rightarrow> TOMBSTONE | Some v \<Rightarrow> of_nat (length v))"
    define t where "t = (case v of None \<Rightarrow> [] | Some v \<Rightarrow> v)"
    have "log_entry x = (u32_to_le_bytes (of_nat (length k)) @ k @ u32_to_le_bytes w) @ t"
      by (cases v) (simp_all add: x log_entry_def log_payload_def w_def t_def)
    then have "take n (log_entry x) = take n (u32_to_le_bytes (of_nat (length k)) @ k @ u32_to_le_bytes w)"
      using True by (simp only: take_append) simp
    then show ?thesis using replay_short_header [OF k True] by simp
  next
    case False
    then obtain w where v: "v = Some w" using assms(2)
      by (cases v) (auto simp: x log_entry_def log_payload_def)
    then have w: "unat (of_nat (length w) :: u32) = length w" "length w \<noteq> unat TOMBSTONE"
      using assms(1) by (auto simp: x op_fits_def intro: tombstone_fits)
    have e: "log_entry x = u32_to_le_bytes (of_nat (length k)) @ k @ u32_to_le_bytes (of_nat (length w)) @ w"
      using v by (simp add: x log_entry_def log_payload_def)
    have "take n (log_entry x) = u32_to_le_bytes (of_nat (length k)) @ k @ u32_to_le_bytes (of_nat (length w))
        @ take (n - 8 - length k) w"
      using False by (simp add: e)
    moreover have "length (take (n - 8 - length k) w) < length w"
      using False assms(2) by (simp add: e)
    ultimately show ?thesis
      using w replay_step [OF k, of "pre @ take n (log_entry x)" pre "of_nat (length w)" "take (n - 8 - length k) w" m]
      by (simp only: Let_def) simp
  qed
qed

section \<open>Durability\<close>

text \<open>The documented behaviour of a sync access handle on a healthy disk: a write at the end
  appends, flushing keeps the contents, reading returns them.\<close>

definition opfs_works :: "'h opfs_api \<Rightarrow> ('h \<Rightarrow> bytes) \<Rightarrow> bool" where
  "opfs_works H content \<longleftrightarrow> (\<forall>h. op_get_size H h = Ok (length (content h)) \<and> op_read H h = Ok (content h)
     \<and> (\<forall>p. \<exists>h'. op_write_at H h (length (content h)) p = (Ok (), h') \<and> content h' = content h @ p)
     \<and> (\<exists>h'. op_flush H h = (Ok (), h') \<and> content h' = content h))"

definition run_op :: "'h opfs_api \<Rightarrow> log_op \<Rightarrow> 'h wasm_storage \<Rightarrow> 'h wasm_storage" where
  "run_op H x s = snd (case snd x of Some v \<Rightarrow> storage_put H s (fst x) v | None \<Rightarrow> storage_delete H s (fst x))"

definition log_matches :: "('h \<Rightarrow> bytes) \<Rightarrow> log_op list \<Rightarrow> 'h wasm_storage \<Rightarrow> bool" where
  "log_matches content ops s \<longleftrightarrow> (\<exists>h. opfs_handle s = Some h
     \<and> content h = concat (map log_entry ops) \<and> db s = fold apply_op ops [])"

lemma append_to_log_works:
  assumes "opfs_works H content" and "opfs_handle s = Some h"
  shows "\<exists>h'. append_to_log H s k v = (Ok (), s\<lparr>opfs_handle := Some h'\<rparr>)
    \<and> content h' = content h @ log_entry (k, v)"
proof -
  obtain h1 where "op_write_at H h (length (content h)) (log_payload k v) = (Ok (), h1)"
    "content h1 = content h @ log_payload k v" using assms(1) by (auto simp: opfs_works_def)
  moreover obtain h2 where "op_flush H h1 = (Ok (), h2)" "content h2 = content h1"
    using assms(1) by (auto simp: opfs_works_def)
  moreover have "op_get_size H h = Ok (length (content h))" using assms(1) by (simp add: opfs_works_def)
  ultimately show ?thesis using assms(2) by (auto simp: append_to_log_def log_entry_def)
qed

lemma run_op_matches:
  assumes "opfs_works H content" and "log_matches content ops s"
  shows "log_matches content (ops @ [x]) (run_op H x s)"
proof -
  obtain h where h: "opfs_handle s = Some h" "content h = concat (map log_entry ops)" "db s = fold apply_op ops []"
    using assms(2) by (auto simp: log_matches_def)
  let ?s = "s\<lparr>db := apply_op x (db s)\<rparr>"
  obtain h' where h': "append_to_log H ?s (fst x) (snd x) = (Ok (), ?s\<lparr>opfs_handle := Some h'\<rparr>)"
    "content h' = content h @ log_entry x"
    using append_to_log_works [OF assms(1), of ?s h "fst x" "snd x"] h(1) by auto
  have "run_op H x s = ?s\<lparr>opfs_handle := Some h'\<rparr>"
    using h(1) h'(1) by (auto simp: run_op_def storage_put_def storage_delete_def apply_op_def split: option.splits)
  with h h'(2) show ?thesis by (simp add: log_matches_def)
qed

lemma run_ops_matches:
  "opfs_works H content \<Longrightarrow> log_matches content done' s
    \<Longrightarrow> log_matches content (done' @ ops) (fold (run_op H) ops s)"
proof (induction ops arbitrary: done' s)
  case (Cons x ops)
  then have "log_matches content ((done' @ [x]) @ ops) (fold (run_op H) ops (run_op H x s))"
    by (intro Cons.IH run_op_matches)
  then show ?case by simp
qed simp

lemma replay_complete_log:
  assumes "list_all op_fits ops"
  shows "replay_log (concat (map log_entry ops)) 0 [] = fold apply_op ops []"
proof -
  have "replay_log (concat (map log_entry ops)) 0 []
      = replay_log (concat (map log_entry ops)) (length (concat (map log_entry ops))) (fold apply_op ops [])"
    using replay_entries [OF assms, of "[]" "[]" "[]"] by simp
  also have "\<dots> = fold apply_op ops []" by (subst replay_log.simps) simp
  finally show ?thesis .
qed

section \<open>Correctness of the storage engine\<close>

definition memory_file :: "bytes opfs_api" where
  "memory_file = \<lparr>op_get_size = (\<lambda>h. Ok (length h)), op_read = Ok,
     op_write_at = (\<lambda>h n p. (Ok (), take n h @ p)), op_flush = (\<lambda>h. (Ok (), h))\<rparr>"

lemma memory_file_works: "opfs_works memory_file id"
  by (simp add: opfs_works_def memory_file_def)

text \<open>C32. Durability: after any sequence of writes and deletions through a handle on an empty
  file, opening the file again rebuilds exactly the map the engine holds.\<close>

theorem opfs_reopen_restores:
  assumes "opfs_works H content" and "content h0 = []" and "list_all op_fits ops"
    and "s = fold (run_op H) ops \<lparr>db = [], opfs_handle = Some h0\<rparr>"
  shows "\<exists>h. opfs_handle s = Some h \<and> init_opfs H h = Ok s \<and> db s = fold apply_op ops []"
proof -
  have "log_matches content [] \<lparr>db = [], opfs_handle = Some h0\<rparr>" using assms(2) by (simp add: log_matches_def)
  from run_ops_matches [OF assms(1) this, of ops] obtain h where h: "opfs_handle s = Some h"
    "content h = concat (map log_entry ops)" "db s = fold apply_op ops []"
    by (auto simp: log_matches_def assms(4))
  have "replay_log (content h) 0 [] = db s" using replay_complete_log [OF assms(3)] h by simp
  moreover have "op_get_size H h = Ok (length (content h))" "op_read H h = Ok (content h)"
    using assms(1) by (simp_all add: opfs_works_def)
  moreover have "db s = []" if "content h = []"
    using that \<open>replay_log (content h) 0 [] = db s\<close> by (simp add: replay_log.simps)
  ultimately have "init_opfs H h = Ok s" using h(1) by (cases s) (auto simp: init_opfs_def)
  with h show ?thesis by blast
qed

theorem opfs_reopen_restores_witness:
  "\<exists>h. init_opfs memory_file h =
     Ok (fold (run_op memory_file) [([1], Some [7]), ([2], Some []), ([1], None)] \<lparr>db = [], opfs_handle = Some []\<rparr>)
   \<and> fold apply_op [([1], Some [7]), ([2], Some []), ([1], None)] [] = [([2], [])]"
  using opfs_reopen_restores [OF memory_file_works, of "[]" "[([1], Some [7]), ([2], Some []), ([1], None)]"]
  by (auto simp: op_fits_def TOMBSTONE_def apply_op_def btree_remove_def)

text \<open>C34. Crash recovery: a log that ends in a torn entry replays to the state before that
  entry.\<close>

theorem torn_log_recovers:
  assumes "list_all op_fits ops" and "op_fits x" and "n < length (log_entry x)"
  shows "replay_log (concat (map log_entry ops) @ take n (log_entry x)) 0 [] = fold apply_op ops []"
  using replay_entries [OF assms(1), of "[]" "take n (log_entry x)" "[]"]
    replay_torn [OF assms(2,3), of "concat (map log_entry ops)" "fold apply_op ops []"] by simp

theorem torn_log_recovers_witness:
  "replay_log (log_entry ([1], Some [7]) @ take 9 (log_entry ([2], Some [8]))) 0 [] = [([1], [7])]"
  using torn_log_recovers [of "[([1], Some [7])]" "([2], Some [8])" 9]
  by (simp add: op_fits_def TOMBSTONE_def apply_op_def log_entry_def log_payload_def)

text \<open>The specification of the engine: a map, which an operation updates at its key.\<close>

definition spec_op :: "log_op \<Rightarrow> (bytes \<rightharpoonup> bytes) \<Rightarrow> (bytes \<rightharpoonup> bytes)" where
  "spec_op x m = m(fst x := snd x)"

lemma apply_op_refines:
  assumes "btree_wf m"
  shows "map_of (apply_op x m) = spec_op x (map_of m)" "btree_wf (apply_op x m)"
  using assms by (auto simp: apply_op_def spec_op_def map_of_btree_insert map_of_btree_remove btree_wf_insert
      btree_wf_remove split: option.split)

lemma fold_apply_op_refines:
  "btree_wf m \<Longrightarrow> map_of (fold apply_op ops m) = fold spec_op ops (map_of m) \<and> btree_wf (fold apply_op ops m)"
proof (induction ops arbitrary: m)
  case (Cons x ops)
  from Cons.IH [OF apply_op_refines(2) [OF Cons.prems]] apply_op_refines(1) [OF Cons.prems] show ?case by simp
qed simp

text \<open>C33. Refinement: the engine on a file implements a map. After any sequence of writes and
  deletions it is well formed, and a lookup returns what the same sequence leaves in the map.\<close>

theorem engine_refines_map:
  assumes "opfs_works H content" and "content h0 = []"
    and "s = fold (run_op H) ops \<lparr>db = [], opfs_handle = Some h0\<rparr>"
  shows "btree_wf (db s) \<and> storage_get s k = Ok (fold spec_op ops Map.empty k)"
proof -
  have "log_matches content [] \<lparr>db = [], opfs_handle = Some h0\<rparr>" using assms(2) by (simp add: log_matches_def)
  from run_ops_matches [OF assms(1) this, of ops] have "db s = fold apply_op ops []"
    by (auto simp: log_matches_def assms(3))
  with fold_apply_op_refines [of "[]" ops] show ?thesis by (simp add: storage_get_def)
qed

theorem engine_refines_map_witness:
  "storage_get (fold (run_op memory_file) [([1], Some [7]), ([2], Some []), ([1], None)] \<lparr>db = [], opfs_handle = Some []\<rparr>) [2]
   = Ok (Some [])"
  using engine_refines_map [OF memory_file_works, of "[]" _ "[([1], Some [7]), ([2], Some []), ([1], None)]" "[2]"]
  by (simp add: spec_op_def)

text \<open>On a well-formed map, a prefix scan returns the entries whose key has the prefix, in key
  order, cut at the limit.\<close>

lemma scan_prefix_exact:
  assumes "btree_wf (db s)"
  shows "storage_scan_prefix s p limit = Ok
    ((case limit of None \<Rightarrow> id | Some l \<Rightarrow> take l) (filter (\<lambda>(k, _). starts_with k p) (db s)))"
  using assms by (rule scan_prefix_filter)

text \<open>The in-memory engine never holds more than 10,000 keys: a write of a new key beyond
  the quota fails and changes nothing.\<close>

lemma storage_quota:
  assumes "btree_wf (db s)" and "opfs_handle s = None" and "length (db s) \<le> 10000"
    and "storage_put H s k v = (r, s')"
  shows "length (db s') \<le> 10000 \<and> opfs_handle s' = None \<and> (is_err r \<longrightarrow> s' = s)"
  using assms by (auto simp: storage_put_def append_to_log_def length_btree_insert split: if_splits)

end
