(* ===== verification/Store_Verification.thy ===== *)
theory Store_Verification
  imports Signable Physics Action Storage
begin

text \<open>
  \<open>kinetic-network/src/store/verification.rs\<close>: the rules a record has to satisfy before the
  DHT store accepts it.

  \<open>store_env\<close> adds the third-party functions the store calls: PeerId parsing, Ed25519, the VDF
  engine behind the \<open>VdfEngine\<close> trait object, and the serde decoders. The locked global action
  state is an optional value: \<open>None\<close> is a poisoned lock, which the code treats as a network
  that was never paused.
\<close>

record store_env = identity_env +
  peer_id_digest :: "string \<Rightarrow> bytes option"
  ed25519_key_ok :: "bytes \<Rightarrow> bool"
  ed25519_sig_ok :: "bytes \<Rightarrow> bool"
  ed25519_verify :: "bytes \<Rightarrow> bytes \<Rightarrow> bytes \<Rightarrow> bool"
  vdf_engine_verify :: "commitment \<Rightarrow> vdf_proof \<Rightarrow> u64 \<Rightarrow> (string, bool) result"
  json_has_field :: "bytes \<Rightarrow> (string \<Rightarrow> bool) option"
  value_commitment :: "bytes \<Rightarrow> commitment option"
  value_name_envelope :: "bytes \<Rightarrow> name_envelope option"
  value_heartbeat :: "bytes \<Rightarrow> heartbeat option"
  value_authorized_kid :: "bytes \<Rightarrow> authorized_kid option"
  value_authorized_manifest :: "bytes \<Rightarrow> authorized_manifest option"
  value_host_route :: "bytes \<Rightarrow> host_route option"
  slice_name_envelope :: "bytes \<Rightarrow> name_envelope option"
  slice_authorized_kid :: "bytes \<Rightarrow> authorized_kid option"
  slice_authorized_manifest :: "bytes \<Rightarrow> authorized_manifest option"
  envelope_to_vec :: "name_envelope \<Rightarrow> bytes option"
  utf8_lossy :: "bytes \<Rightarrow> string"

datatype kinetic_store_error =
    PayloadTooLarge | VdfExpired u64 | InvalidVdf | VdfEngineError string | StoreInvalidSignature
  | InvalidPublicKey | MalformedSignature | TieBroken | InsufficientIterations | InternalStoreError
  | InvalidKidSignature | InvalidManifestSignature | UnknownRecordType | InvalidBeaconHex
  | StaleHeartbeat | InvalidHostRouteSignature | RateLimited | StaleReveal | SchemaValidationError
  | InvalidName | StoreNetworkHalted | StoreDelegatedCapabilityMissing
  | StoreDelegatedAuthorizationInvalid | InvalidBeaconSignature | MalformedJson | InvalidKidDocument
  | GenesisBindingFailed | UnauthorizedUpdate | ManifestVersionRollback | ManifestVerificationFailed
  | FutureHeartbeat | RevealNotFound | MissingCommitment bytes | NameNotFound | MissingKidDocument

section \<open>Host routes\<close>

definition ed25519_header :: bytes where
  "ed25519_header = [0x00, 0x24, 0x08, 0x01, 0x12, 0x20]"

definition verify_host_routing_record ::
  "'x store_env_scheme \<Rightarrow> host_route \<Rightarrow> kyn \<Rightarrow> (kinetic_store_error, unit) result" where
  "verify_host_routing_record E record current =
     reject_if (100 < saturating_sub current (hr_kyn record)) InvalidHostRouteSignature
    (reject_if (current + 2 < hr_kyn record) InvalidHostRouteSignature
    (and_then (ok_or InvalidPublicKey (peer_id_digest E (host_id record))) (\<lambda>digest.
     reject_if (\<not> (length digest = 38 \<and> take 6 digest = ed25519_header)) InvalidPublicKey
    (let pubkey_bytes = drop 6 digest in
     reject_if (\<not> ed25519_key_ok E pubkey_bytes) InvalidPublicKey
    (reject_if (\<not> ed25519_sig_ok E (host_signature record)) MalformedSignature
    (reject_if (\<not> ed25519_verify E pubkey_bytes (route_signable_bytes record (NETWORK_SALT E))
                  (host_signature record)) InvalidHostRouteSignature
    (Ok ())))))))"

section \<open>Reveals\<close>

definition get_u64_from_db :: "('s, 'y) storage_ops_scheme \<Rightarrow> 's \<Rightarrow> bytes \<Rightarrow> u64 option" where
  "get_u64_from_db S st key =
     (case st_get S st key of
        Inr (Some b) \<Rightarrow> if length b = 8 then Some (u64_from_be_bytes b) else None
      | _ \<Rightarrow> None)"

definition paused_since :: "action_state option \<Rightarrow> kyn \<Rightarrow> u64" where
  "paused_since G k = (case G of Some st \<Rightarrow> paused_kyns_since st k | None \<Rightarrow> 0)"

definition network_halted :: "action_state option \<Rightarrow> bool" where
  "network_halted G = (case G of Some st \<Rightarrow> is_halted st | None \<Rightarrow> False)"

text \<open>\<open>matches!(engine.verify(..), Ok(true))\<close>\<close>

definition vdf_accepts :: "'x store_env_scheme \<Rightarrow> commitment \<Rightarrow> vdf_proof \<Rightarrow> u64 \<Rightarrow> bool" where
  "vdf_accepts E challenge proof iters =
     (case vdf_engine_verify E challenge proof iters of Inr b \<Rightarrow> b | Inl _ \<Rightarrow> False)"

definition discount_iterations :: "'x crypto_scheme \<Rightarrow> string \<Rightarrow> u64 \<Rightarrow> u64" where
  "discount_iterations E name base =
     (let normalized = normalize_name E name;
          name_len = length (case strip_suffix normalized (NSP_SUFFIX E) of Some l \<Rightarrow> l | None \<Rightarrow> normalized)
      in if name_len = 1 then VDF_DISCOUNT_MIN_ITERATIONS E
         else if 2 \<le> name_len \<and> name_len \<le> 6 then base div 2
         else if 7 \<le> name_len \<and> name_len \<le> 10 then base div 5
         else (base * VDF_DISCOUNT_PERCENTAGE E) div 100)"

definition compute_required_iterations ::
  "'x store_env_scheme \<Rightarrow> action_state option \<Rightarrow> reveal \<Rightarrow> kyn \<Rightarrow> (kinetic_store_error, u64) result" where
  "compute_required_iterations E G reveal current =
     reject_if (is_err (is_valid_apex_name E (rv_name reveal))) InvalidName
    (reject_if (\<not> verify_beacon_signature E (rv_kyn reveal) (beacon_signature reveal) (dev_mode E))
       InvalidBeaconSignature
    (let base = iterations E (rv_name reveal) in
     case rv_previous_proof reveal of
       None \<Rightarrow> Ok base
     | Some prev \<Rightarrow>
         (case hex_decode E (pp_beacon_signature prev) of
            None \<Rightarrow> Ok base
          | Some prev_drand_sig \<Rightarrow>
              if \<not> verify_beacon_signature E (pp_kyn prev) (pp_beacon_signature prev) (dev_mode E)
              then Ok base
              else
                let prev_challenge = derive E (NETWORK_SALT E) (rv_name reveal) (pp_salt prev)
                      prev_drand_sig (rv_pubkey reveal);
                    prev_valid = vdf_accepts E prev_challenge (pp_vdf_proof prev) (pp_iterations prev);
                    prev_req = iterations E (rv_name reveal);
                    effective_age = saturating_sub (saturating_sub current (pp_kyn prev))
                      (paused_since G (pp_kyn prev));
                    is_not_too_old = (effective_age \<le> RESQUARING_EPOCH_KYNS * 2)
                in if prev_valid \<and> prev_req \<le> pp_iterations prev \<and> is_not_too_old
                   then Ok (max (VDF_DISCOUNT_MIN_ITERATIONS E) (discount_iterations E (rv_name reveal) base))
                   else Ok base)))"

definition KRS_COMMIT_PREFIX :: bytes where
  "KRS_COMMIT_PREFIX = as_bytes ''krs_cmt:''"

definition verify_reveal ::
  "'x store_env_scheme \<Rightarrow> action_state option \<Rightarrow> ('s, 'y) storage_ops_scheme \<Rightarrow> 's \<Rightarrow> reveal \<Rightarrow> kyn
     \<Rightarrow> (kinetic_store_error, unit) result" where
  "verify_reveal E G S st reveal current =
     reject_if (network_halted G) StoreNetworkHalted
    (reject_if (is_err (validate E reveal)) InvalidName
    (reject_if (\<not> dev_mode E \<and> is_err (reveal_verify_signature E reveal (NETWORK_SALT E)))
       StoreInvalidSignature
    (reject_if (\<not> verify_beacon_signature E (rv_kyn reveal) (beacon_signature reveal) (dev_mode E))
       InvalidBeaconSignature
    (and_then (ok_or InvalidBeaconHex (hex_decode E (beacon_signature reveal))) (\<lambda>drand_sig.
     let challenge = derive E (NETWORK_SALT E) (rv_name reveal) (rv_salt reveal) drand_sig (rv_pubkey reveal);
         commit_key = KRS_COMMIT_PREFIX @ cm_hash challenge
     in and_then
          (case get_u64_from_db S st commit_key of
             Some commit_kyn \<Rightarrow>
               reject_if (\<not> dev_mode E \<and> saturating_sub current commit_kyn < MINIMUM_COMMIT_AGE_KYNS E)
                 StaleReveal (Ok ())
           | None \<Rightarrow> reject_if (\<not> dev_mode E) (MissingCommitment commit_key) (Ok ()))
        (\<lambda>_.
        and_then (compute_required_iterations E G reveal current) (\<lambda>required.
        if dev_mode E then Ok ()
        else reject_if (rv_iterations reveal < required) InsufficientIterations
          (case vdf_engine_verify E challenge (rv_vdf_proof reveal) (rv_iterations reveal) of
             Inr True \<Rightarrow> Ok ()
           | Inr False \<Rightarrow> Err InvalidVdf
           | Inl e \<Rightarrow> Err (VdfEngineError e)))))))))"

section \<open>Identity attachments\<close>

definition verify_authorized_kid ::
  "'x store_env_scheme \<Rightarrow> authorized_kid \<Rightarrow> name_envelope option \<Rightarrow> bytes option
     \<Rightarrow> (kinetic_store_error, unit) result" where
  "verify_authorized_kid E auth_kid active_record existing_value =
     and_then (ok_or NameNotFound active_record) (\<lambda>record.
     reject_if (is_err (verify_signature E (env_pubkey record)
        (kid_signable_bytes E auth_kid (NETWORK_SALT E)) (ak_owner_signature auth_kid)))
       InvalidKidSignature
    (reject_if (is_err (doc_verify E (ak_kid_doc auth_kid))) InvalidKidDocument
    (case existing_value of
       None \<Rightarrow> map_err (\<lambda>_. GenesisBindingFailed) (verify_genesis E (ak_kid_doc auth_kid))
     | Some v \<Rightarrow>
         (case slice_authorized_kid E v of
            Some old \<Rightarrow>
              reject_if (\<not> is_authorized E (ak_kid_doc auth_kid) (ak_kid_doc old)) UnauthorizedUpdate (Ok ())
          | None \<Rightarrow> Ok ()))))"

definition verify_authorized_manifest ::
  "'x store_env_scheme \<Rightarrow> authorized_manifest \<Rightarrow> name_envelope option \<Rightarrow> bytes option \<Rightarrow> kyn
     \<Rightarrow> (kinetic_store_error, unit) result" where
  "verify_authorized_manifest E auth_manifest active_record existing_value current =
     and_then (ok_or NameNotFound active_record) (\<lambda>record.
     reject_if (is_err (verify_signature E (env_pubkey record)
        (manifest_signable_bytes E auth_manifest (NETWORK_SALT E)) (am_owner_signature auth_manifest)))
       InvalidManifestSignature
    (and_then (ok_or MissingKidDocument (am_kid_doc auth_manifest)) (\<lambda>kid_doc.
     reject_if (is_err (doc_verify E kid_doc)) InvalidKidDocument
    (reject_if (is_err (verify_at_time E (am_manifest auth_manifest) kid_doc
        (to_ukyn current (BEACON_GENESIS E)))) ManifestVerificationFailed
    (case existing_value of
       Some v \<Rightarrow>
         (case slice_authorized_manifest E v of
            Some old \<Rightarrow>
              reject_if (version (am_manifest auth_manifest) \<le> version (am_manifest old))
                ManifestVersionRollback (Ok ())
          | None \<Rightarrow> Ok ())
     | None \<Rightarrow> Ok ())))))"

section \<open>What the rules establish\<close>

abbreviation reveal_challenge :: "'x store_env_scheme \<Rightarrow> reveal \<Rightarrow> bytes \<Rightarrow> commitment" where
  "reveal_challenge E r sig \<equiv> derive E (NETWORK_SALT E) (rv_name r) (rv_salt r) sig (rv_pubkey r)"

lemma is_ok_iff_Ok: "\<not> is_err (r :: ('e, unit) result) \<longleftrightarrow> r = Ok ()"
  by (cases r) simp_all

lemma vdf_match_Ok:
  "(case x of Inl e \<Rightarrow> Err (VdfEngineError e) | Inr True \<Rightarrow> Ok () | Inr False \<Rightarrow> Err InvalidVdf) = Ok ()
     \<longleftrightarrow> x = Inr True"
  by (auto split: sum.split bool.split)

lemma commit_match_Ok:
  "(case x of None \<Rightarrow> reject_if p e (Ok ()) | Some c \<Rightarrow> reject_if (p \<and> b c) StaleReveal (Ok ())) = Ok ()
     \<longleftrightarrow> \<not> p \<or> (\<exists>c. x = Some c \<and> \<not> b c)"
  by (cases x) (simp_all add: result_simps)

lemma verify_reveal_Ok:
  assumes "\<not> dev_mode E"
  shows "verify_reveal E G S st r t = Ok () \<longleftrightarrow>
    \<not> network_halted G \<and> validate E r = Ok () \<and> reveal_verify_signature E r (NETWORK_SALT E) = Ok ()
    \<and> verify_beacon_signature E (rv_kyn r) (beacon_signature r) False
    \<and> (\<exists>sig committed required. hex_decode E (beacon_signature r) = Some sig
        \<and> get_u64_from_db S st (KRS_COMMIT_PREFIX @ cm_hash (reveal_challenge E r sig)) = Some committed
        \<and> MINIMUM_COMMIT_AGE_KYNS E \<le> saturating_sub t committed
        \<and> compute_required_iterations E G r t = Ok required \<and> required \<le> rv_iterations r
        \<and> vdf_engine_verify E (reveal_challenge E r sig) (rv_vdf_proof r) (rv_iterations r) = Ok True)"
  using assms
  by (simp add: verify_reveal_def result_simps is_ok_iff_Ok Let_def commit_match_Ok vdf_match_Ok not_less)
     blast

lemma compute_required_cases:
  assumes "compute_required_iterations E G r t = Ok n"
  shows "n = iterations E (rv_name r) \<or>
    (\<exists>prev sig. rv_previous_proof r = Some prev \<and> hex_decode E (pp_beacon_signature prev) = Some sig
      \<and> verify_beacon_signature E (pp_kyn prev) (pp_beacon_signature prev) (dev_mode E)
      \<and> vdf_accepts E (derive E (NETWORK_SALT E) (rv_name r) (pp_salt prev) sig (rv_pubkey r))
          (pp_vdf_proof prev) (pp_iterations prev)
      \<and> iterations E (rv_name r) \<le> pp_iterations prev
      \<and> saturating_sub (saturating_sub t (pp_kyn prev)) (paused_since G (pp_kyn prev)) \<le> RESQUARING_EPOCH_KYNS * 2
      \<and> n = max (VDF_DISCOUNT_MIN_ITERATIONS E) (discount_iterations E (rv_name r) (iterations E (rv_name r))))"
  using assms
  by (auto simp: compute_required_iterations_def result_simps Let_def split: option.splits if_splits)

lemma unat_mult_exact: "unat a * unat b < 2 ^ 64 \<Longrightarrow> unat (a * b :: u64) = unat a * unat b"
  by (simp add: unat_word_ariths)

lemma discount_le_base:
  assumes "VDF_DISCOUNT_MIN_ITERATIONS E \<le> base" and "VDF_DISCOUNT_PERCENTAGE E \<le> 100"
    and "unat base * unat (VDF_DISCOUNT_PERCENTAGE E) < 2 ^ 64"
  shows "discount_iterations E name base \<le> base"
proof -
  let ?p = "unat (VDF_DISCOUNT_PERCENTAGE E)"
  have "?p \<le> 100" using assms(2) by (simp add: word_le_nat_alt)
  then have "unat base * ?p div 100 \<le> unat base * 100 div 100" by (intro div_le_mono mult_le_mono2)
  then have pct: "base * VDF_DISCOUNT_PERCENTAGE E div 100 \<le> base"
    using assms(3) by (simp add: word_le_nat_alt unat_div unat_mult_exact)
  have half: "base div 2 \<le> base" "base div 5 \<le> base"
    by (simp_all add: word_le_nat_alt unat_div)
  show ?thesis using assms(1) pct half by (auto simp: discount_iterations_def Let_def)
qed

lemma verify_authorized_manifest_Ok:
  "verify_authorized_manifest E a active existing t = Ok () \<longleftrightarrow>
    (\<exists>rec doc. active = Some rec
      \<and> signed_by E (env_pubkey rec) (manifest_signable_bytes E a (NETWORK_SALT E)) (am_owner_signature a)
      \<and> am_kid_doc a = Some doc \<and> doc_verify E doc = Ok ()
      \<and> verify_at_time E (am_manifest a) doc (to_ukyn t (BEACON_GENESIS E)) = Ok ())
    \<and> (case Option.bind existing (slice_authorized_manifest E) of
         None \<Rightarrow> True | Some old \<Rightarrow> version (am_manifest old) < version (am_manifest a))"
  by (cases existing)
     (auto simp: verify_authorized_manifest_def result_simps is_ok_iff_Ok not_le split: option.splits)

lemma verify_authorized_kid_Ok:
  "verify_authorized_kid E a active existing = Ok () \<longleftrightarrow>
    (\<exists>rec. active = Some rec
      \<and> signed_by E (env_pubkey rec) (kid_signable_bytes E a (NETWORK_SALT E)) (ak_owner_signature a))
    \<and> doc_verify E (ak_kid_doc a) = Ok ()
    \<and> (case existing of
         None \<Rightarrow> verify_genesis E (ak_kid_doc a) = Ok ()
       | Some v \<Rightarrow> (case slice_authorized_kid E v of
            None \<Rightarrow> True | Some old \<Rightarrow> is_authorized E (ak_kid_doc a) (ak_kid_doc old)))"
  by (cases existing)
     (auto simp: verify_authorized_kid_def result_simps is_ok_iff_Ok split: option.splits)

lemma verify_host_route_Ok:
  "verify_host_routing_record E r t = Ok () \<longleftrightarrow>
    saturating_sub t (hr_kyn r) \<le> 100 \<and> hr_kyn r \<le> t + 2
    \<and> (\<exists>pk. peer_id_digest E (host_id r) = Some (ed25519_header @ pk) \<and> length pk = 32
        \<and> ed25519_key_ok E pk \<and> ed25519_sig_ok E (host_signature r)
        \<and> ed25519_verify E pk (route_signable_bytes r (NETWORK_SALT E)) (host_signature r))"
proof -
  have "(\<exists>d. x = Some d \<and> length d = 38 \<and> take 6 d = ed25519_header \<and> P (drop 6 d))
      \<longleftrightarrow> (\<exists>pk. x = Some (ed25519_header @ pk) \<and> length pk = 32 \<and> P pk)" for x P
  proof
    assume "\<exists>d. x = Some d \<and> length d = 38 \<and> take 6 d = ed25519_header \<and> P (drop 6 d)"
    then obtain d where d: "x = Some d" "length d = 38" "take 6 d = ed25519_header" "P (drop 6 d)" by blast
    then have "d = ed25519_header @ drop 6 d" by (metis append_take_drop_id)
    with d show "\<exists>pk. x = Some (ed25519_header @ pk) \<and> length pk = 32 \<and> P pk"
      by (intro exI [of _ "drop 6 d"]) simp
  qed (auto simp: ed25519_header_def)
  from this [of "peer_id_digest E (host_id r)" "\<lambda>pk. ed25519_key_ok E pk \<and> ed25519_sig_ok E (host_signature r)
        \<and> ed25519_verify E pk (route_signable_bytes r (NETWORK_SALT E)) (host_signature r)"]
  show ?thesis
    by (simp add: verify_host_routing_record_def result_simps Let_def not_less)
qed

section \<open>Correctness of the verification rules\<close>

text \<open>A concrete environment for the witnesses: signatures, beacons and proofs are accepted, no
  record decodes.\<close>

definition sample_store :: store_env where
  "sample_store = identity_env.extend
     (sample_identity\<lparr>hex_decode := \<lambda>_. Some (replicate 96 0), mldsa_verify := \<lambda>_ _ _. True\<rparr>)
     (store_env.fields (\<lambda>_. Some (ed25519_header @ replicate 32 1)) (\<lambda>_. True) (\<lambda>_. True) (\<lambda>_ _ _. True)
       (\<lambda>_ _ _. Ok True) (\<lambda>_. Some (\<lambda>_. False)) (\<lambda>_. None) (\<lambda>_. None) (\<lambda>_. None) (\<lambda>_. None) (\<lambda>_. None)
       (\<lambda>_. None) (\<lambda>_. None) (\<lambda>_. None) (\<lambda>_. None) (\<lambda>_. Some []) (map (\<lambda>b. char_of (unat b))))"

lemmas sample_store_simps = sample_store_def sample_identity_simps store_env.defs

definition sample_reveal :: reveal where
  "sample_reveal = \<lparr>protocol_version = 1, rv_name = ''satoshi.kin'', embedded_nrs = [],
     rv_salt = replicate 32 0, rv_kyn = 1000, beacon_signature = replicate 192 CHR ''a'',
     rv_iterations = 3582297450, rv_vdf_proof = \<lparr>proof_bytes = []\<rparr>, rv_pubkey = replicate 1952 0,
     identity_signature = replicate 3309 0, rv_authorization = None, rv_previous_proof = None\<rparr>"

definition sample_commit_key :: bytes where
  "sample_commit_key = KRS_COMMIT_PREFIX
     @ cm_hash (reveal_challenge sample_store sample_reveal (replicate 96 0))"

definition sample_db :: "bytes wasm_storage" where
  "sample_db = \<lparr>db = [(sample_commit_key, u64_to_be_bytes 900)], opfs_handle = None\<rparr>"

lemma sample_store_names: "names_ok sample_store"
  by (rule sample_names_ok) (simp_all add: sample_store_simps)

lemma sample_suffix [simp]: "NSP_SUFFIX sample_store = ''.kin''"
  by (simp add: sample_store_simps)

lemma satoshi_normal:
  assumes "names_ok E" and "NSP_SUFFIX E = ''.kin''"
  shows "normalize_name E ''satoshi.kin'' = ''satoshi.kin''"
  using normalize_in_suffix [OF assms(1), of "''satoshi''"] satoshi_label assms(2) by simp

lemma satoshi_valid:
  assumes "names_ok E" and "NSP_SUFFIX E = ''.kin''"
  shows "is_valid_apex_name E ''satoshi.kin'' = Ok ()"
  using satoshi_label assms(2)
  by (subst valid_apex_shape [OF assms(1)]) (auto simp: satoshi_normal [OF assms] intro!: exI [of _ "''satoshi''"])

lemma satoshi_iterations:
  assumes "names_ok E" and "NSP_SUFFIX E = ''.kin''"
  shows "iterations E ''satoshi.kin'' = label_iters E ''satoshi''"
  using satoshi_label assms by (intro iterations_apex [OF assms(1)]) (simp_all add: satoshi_normal [OF assms])

lemmas sample_normal = satoshi_normal [OF sample_store_names sample_suffix]

lemmas sample_valid_name = satoshi_valid [OF sample_store_names sample_suffix]

lemma sample_iterations: "iterations sample_store ''satoshi.kin'' = 3582297450"
  unfolding satoshi_iterations [OF sample_store_names sample_suffix]
  by (rule word_eq_unatI) (simp add: label_iters_def Let_def unat_calc sample_store_simps)

lemma sample_beacon: "verify_beacon_signature sample_store i s b"
  by (simp add: verify_beacon_signature_def sample_store_simps)

lemma sample_accepts [simp]: "signed_by sample_store pk m s" "hex_decode sample_store x = Some (replicate 96 0)"
  "vdf_engine_verify sample_store c p i = Ok True" "\<not> dev_mode sample_store"
  "MINIMUM_COMMIT_AGE_KYNS sample_store = 30"
  by (simp_all add: signed_by_def sample_store_simps)

text \<open>The reveal of the witnesses passes in every environment whose primitives accept it.\<close>

definition accepts_sample :: "'x store_env_scheme \<Rightarrow> bool" where
  "accepts_sample E \<longleftrightarrow> names_ok E \<and> NSP_SUFFIX E = ''.kin'' \<and> \<not> dev_mode E \<and> MINIMUM_COMMIT_AGE_KYNS E = 30
     \<and> (\<forall>pk m s. signed_by E pk m s) \<and> (\<forall>x. hex_decode E x = Some (replicate 96 0))
     \<and> (\<forall>i s. verify_beacon_signature E i s False) \<and> label_iters E ''satoshi'' = 3582297450
     \<and> (\<forall>p i. vdf_engine_verify E (reveal_challenge E sample_reveal (replicate 96 0)) p i = Ok True)"

lemma sample_conditions:
  assumes "accepts_sample E"
  shows "validate E sample_reveal = Ok ()" "reveal_verify_signature E sample_reveal (NETWORK_SALT E) = Ok ()"
    "compute_required_iterations E None sample_reveal t = Ok 3582297450"
proof -
  have n: "names_ok E" "NSP_SUFFIX E = ''.kin''" using assms by (simp_all add: accepts_sample_def)
  show "validate E sample_reveal = Ok ()"
    using satoshi_valid [OF n]
    by (simp add: validate_def sample_reveal_def MAX_PAYLOAD_SIZE_def KINETIC_PUBKEY_LENGTH_def KINETIC_SIGNATURE_LENGTH_def)
  show "reveal_verify_signature E sample_reveal (NETWORK_SALT E) = Ok ()"
    using assms by (simp add: reveal_verify_signature_def sample_reveal_def accepts_sample_def Let_def)
  show "compute_required_iterations E None sample_reveal t = Ok 3582297450"
    using assms satoshi_valid [OF n] satoshi_iterations [OF n]
    by (simp add: compute_required_iterations_def sample_reveal_def accepts_sample_def Let_def)
qed

lemma sample_accepted:
  assumes "accepts_sample E"
    and "get_u64_from_db S st (KRS_COMMIT_PREFIX @ cm_hash (reveal_challenge E sample_reveal (replicate 96 0))) = Some 900"
  shows "verify_reveal E None S st sample_reveal 1000 = Ok ()"
  using assms(2) sample_conditions [OF assms(1)] assms(1) [unfolded accepts_sample_def]
  by (subst verify_reveal_Ok)
     (simp_all add: network_halted_def saturating_sub_def sample_reveal_def [THEN arg_cong [of _ _ rv_iterations]])

lemma sample_store_accepts: "accepts_sample sample_store"
  using sample_store_names sample_beacon sample_iterations satoshi_iterations [OF sample_store_names sample_suffix]
  by (simp add: accepts_sample_def)

lemmas sample_reveal_accepted = sample_accepted [OF sample_store_accepts, folded sample_commit_key_def]

text \<open>C2. Outside development mode a reveal is accepted exactly when the network is not halted, the
  reveal is well formed, its signatures and its beacon signature verify, a matching commitment
  has been stored for the minimum commit age, its iteration count reaches what the name and its
  previous proof require, and the VDF engine confirms the proof.\<close>

theorem verify_reveal_exact:
  assumes "\<not> dev_mode E"
  shows "verify_reveal E G S st r t = Ok () \<longleftrightarrow>
    \<not> network_halted G \<and> validate E r = Ok () \<and> reveal_verify_signature E r (NETWORK_SALT E) = Ok ()
    \<and> verify_beacon_signature E (rv_kyn r) (beacon_signature r) False
    \<and> (\<exists>sig committed required. hex_decode E (beacon_signature r) = Some sig
        \<and> get_u64_from_db S st (KRS_COMMIT_PREFIX @ cm_hash (reveal_challenge E r sig)) = Some committed
        \<and> MINIMUM_COMMIT_AGE_KYNS E \<le> saturating_sub t committed
        \<and> compute_required_iterations E G r t = Ok required \<and> required \<le> rv_iterations r
        \<and> vdf_engine_verify E (reveal_challenge E r sig) (rv_vdf_proof r) (rv_iterations r) = Ok True)"
  using assms by (rule verify_reveal_Ok)

theorem verify_reveal_exact_witness:
  "verify_reveal sample_store None (wasm_ops memory_file) sample_db sample_reveal 1000 = Ok ()"
proof -
  have "get_u64_from_db (wasm_ops memory_file) sample_db sample_commit_key = Some 900"
    by (simp add: get_u64_from_db_def storage_get_def sample_db_def)
  then have c: "get_u64_from_db (wasm_ops memory_file) sample_db
      (KRS_COMMIT_PREFIX @ cm_hash (reveal_challenge sample_store sample_reveal (replicate 96 0))) = Some 900"
    by (simp only: sample_commit_key_def)
  show ?thesis
    using c sample_conditions [OF sample_store_accepts] sample_beacon
    by (subst verify_reveal_exact) (simp_all add: network_halted_def saturating_sub_def sample_reveal_def [THEN arg_cong [of _ _ rv_iterations]])
qed

text \<open>Loyalty discount: the required iterations are the full difficulty of the name, or, with a
  previous proof that verifies for the same name and owner, reaches the full difficulty and is at
  most two resquaring epochs of unpaused time old, a reduced count between the configured
  minimum and the full difficulty.\<close>

lemma required_iterations_bounded:
  assumes "compute_required_iterations E G r t = Ok n"
    and "VDF_DISCOUNT_MIN_ITERATIONS E \<le> iterations E (rv_name r)" and "VDF_DISCOUNT_PERCENTAGE E \<le> 100"
    and "unat (iterations E (rv_name r)) * unat (VDF_DISCOUNT_PERCENTAGE E) < 2 ^ 64"
  shows "VDF_DISCOUNT_MIN_ITERATIONS E \<le> n \<and> n \<le> iterations E (rv_name r)
    \<and> (n = iterations E (rv_name r) \<or>
       (\<exists>prev sig. rv_previous_proof r = Some prev \<and> hex_decode E (pp_beacon_signature prev) = Some sig
          \<and> vdf_accepts E (derive E (NETWORK_SALT E) (rv_name r) (pp_salt prev) sig (rv_pubkey r))
              (pp_vdf_proof prev) (pp_iterations prev)
          \<and> iterations E (rv_name r) \<le> pp_iterations prev
          \<and> saturating_sub (saturating_sub t (pp_kyn prev)) (paused_since G (pp_kyn prev)) \<le> RESQUARING_EPOCH_KYNS * 2))"
  using compute_required_cases [OF assms(1)]
proof
  assume "n = iterations E (rv_name r)"
  with assms(2) show ?thesis by simp
next
  assume "\<exists>prev sig. rv_previous_proof r = Some prev \<and> hex_decode E (pp_beacon_signature prev) = Some sig
      \<and> verify_beacon_signature E (pp_kyn prev) (pp_beacon_signature prev) (dev_mode E)
      \<and> vdf_accepts E (derive E (NETWORK_SALT E) (rv_name r) (pp_salt prev) sig (rv_pubkey r))
          (pp_vdf_proof prev) (pp_iterations prev)
      \<and> iterations E (rv_name r) \<le> pp_iterations prev
      \<and> saturating_sub (saturating_sub t (pp_kyn prev)) (paused_since G (pp_kyn prev)) \<le> RESQUARING_EPOCH_KYNS * 2
      \<and> n = max (VDF_DISCOUNT_MIN_ITERATIONS E) (discount_iterations E (rv_name r) (iterations E (rv_name r)))"
  then show ?thesis using discount_le_base [OF assms(2-4), of "rv_name r"] assms(2) by auto
qed

definition sample_previous :: previous_proof where
  "sample_previous = \<lparr>pp_salt = replicate 32 0, pp_kyn = 10, pp_beacon_signature = [], pp_iterations = 3582297450,
     pp_vdf_proof = \<lparr>proof_bytes = []\<rparr>, pp_identity_signature = []\<rparr>"

text \<open>Anti-rollback: a manifest is accepted exactly when the owner of the name signed the
  attachment, the attached identity document verifies, the manifest verifies against it at
  network time, and its version is strictly above that of a decodable stored manifest.\<close>

lemma manifest_acceptance_exact:
  "verify_authorized_manifest E a active existing t = Ok () \<longleftrightarrow>
    (\<exists>rec doc. active = Some rec
      \<and> signed_by E (env_pubkey rec) (manifest_signable_bytes E a (NETWORK_SALT E)) (am_owner_signature a)
      \<and> am_kid_doc a = Some doc \<and> doc_verify E doc = Ok ()
      \<and> verify_at_time E (am_manifest a) doc (to_ukyn t (BEACON_GENESIS E)) = Ok ())
    \<and> (case Option.bind existing (slice_authorized_manifest E) of
         None \<Rightarrow> True | Some old \<Rightarrow> version (am_manifest old) < version (am_manifest a))"
  by (rule verify_authorized_manifest_Ok)

text \<open>Chain of custody: an identity document is accepted exactly when the owner of the name
  signed the attachment, the document verifies by itself, and it is a genesis document for an
  empty slot or is signed by a key of the stored document (a controller, or a revocation key for
  a deactivation) when the stored value decodes.\<close>

lemma kid_acceptance_exact:
  "verify_authorized_kid E a active existing = Ok () \<longleftrightarrow>
    (\<exists>rec. active = Some rec
      \<and> signed_by E (env_pubkey rec) (kid_signable_bytes E a (NETWORK_SALT E)) (ak_owner_signature a))
    \<and> doc_verify E (ak_kid_doc a) = Ok ()
    \<and> (case existing of
         None \<Rightarrow> verify_genesis E (ak_kid_doc a) = Ok ()
       | Some v \<Rightarrow> (case slice_authorized_kid E v of
            None \<Rightarrow> True
          | Some old \<Rightarrow> doc_signed E (ak_kid_doc a) (\<lambda>m s. some_controller E (ak_kid_doc old) m s
              \<or> deactivated (ak_kid_doc a) \<and> some_revocation E (ak_kid_doc old) m s)))"
  by (simp add: verify_authorized_kid_Ok is_authorized_iff split: option.split)

text \<open>Freshness: an accepted host route is at most 100 kyns old and at most 2 kyns ahead of
  network time, and is signed by the key embedded in its host identifier.\<close>

lemma host_route_fresh:
  assumes "verify_host_routing_record E r t = Ok ()" and "unat t + 2 < 2 ^ 64"
  shows "unat t \<le> unat (hr_kyn r) + 100 \<and> unat (hr_kyn r) \<le> unat t + 2
    \<and> (\<exists>pk. peer_id_digest E (host_id r) = Some (ed25519_header @ pk)
        \<and> ed25519_verify E pk (route_signable_bytes r (NETWORK_SALT E)) (host_signature r))"
proof -
  have "saturating_sub t (hr_kyn r) \<le> 100" "hr_kyn r \<le> t + 2"
    using assms(1) by (simp_all add: verify_host_route_Ok)
  moreover have "hr_kyn r \<le> t + 2 \<longleftrightarrow> unat (hr_kyn r) \<le> unat t + unat (2 :: u64)"
    using assms(2) by (intro plus_u64_le) simp
  ultimately show ?thesis using assms(1) by (auto simp: verify_host_route_Ok u64_nat)
qed

section \<open>Boundaries of the rules\<close>

text \<open>A digest of any length but 38 is refused, so a route of a PeerId whose multihash digest is the
  36-byte encoded key is never accepted.\<close>

lemma host_route_digest_length:
  assumes "peer_id_digest E (host_id r) = Some d" and "length d \<noteq> 38"
  shows "verify_host_routing_record E r t \<noteq> Ok ()"
  using assms by (auto simp: verify_host_route_Ok ed25519_header_def)

text \<open>Nothing in the update rule looks at the deactivation of the stored document: an active document
  signed by one of its controllers replaces it.\<close>

lemma deactivation_not_final:
  assumes "slice_authorized_kid E v = Some old" and "deactivated (ak_kid_doc old)"
    and "doc_verify E (ak_kid_doc a) = Ok ()" and "\<not> deactivated (ak_kid_doc a)"
    and "doc_signed E (ak_kid_doc a) (some_controller E (ak_kid_doc old))"
    and "signed_by E (env_pubkey rec) (kid_signable_bytes E a (NETWORK_SALT E)) (ak_owner_signature a)"
  shows "verify_authorized_kid E a (Some rec) (Some v) = Ok ()"
  using assms by (auto simp: verify_authorized_kid_Ok is_authorized_iff doc_signed_def)

end
