(* ===== verification/Store.thy ===== *)
theory Store
  imports Store_Verification
begin

text \<open>
  \<open>kinetic-network/src/store\<close>: the DHT record store. \<open>handlers.rs\<close> (name records and
  heartbeats) and \<open>kademlia.rs\<close> (restore, pruning, dispatch of incoming records).

  The persistent engine is any \<open>StorageEngine\<close>; libp2p's \<open>MemoryStore\<close> and the \<open>lru\<close> caches
  are parameters (\<open>backends\<close>). A spawned task joins the queue \<open>pending\<close> and is executed by a
  later step; \<open>now\<close> is the monotonic clock in nanoseconds. The result \<open>None\<close> of an operation is a panic
  (the \<open>unwrap\<close> on the rate-limit cache).
\<close>

section \<open>Backends and state\<close>

record kad_record =
  kr_key :: bytes
  kr_value :: bytes

type_synonym instant = nat

record ('s, 'm, 'c, 'd) backends = "'s storage_ops" +
  ms_get :: "'m \<Rightarrow> bytes \<Rightarrow> kad_record option"
  ms_put :: "'m \<Rightarrow> kad_record \<Rightarrow> (unit, unit) result \<times> 'm"
  ms_remove :: "'m \<Rightarrow> bytes \<Rightarrow> 'm"
  rv_get :: "'c \<Rightarrow> string \<Rightarrow> name_envelope option \<times> 'c"
  rv_put :: "'c \<Rightarrow> string \<Rightarrow> name_envelope \<Rightarrow> 'c"
  rv_push :: "'c \<Rightarrow> string \<Rightarrow> name_envelope \<Rightarrow> (string \<times> name_envelope) option \<times> 'c"
  rv_pop :: "'c \<Rightarrow> string \<Rightarrow> 'c"
  rv_contains :: "'c \<Rightarrow> string \<Rightarrow> bool"
  rv_iter :: "'c \<Rightarrow> (string \<times> name_envelope) list"
  ts_contains :: "'d \<Rightarrow> string \<Rightarrow> bool"
  ts_put :: "'d \<Rightarrow> string \<Rightarrow> instant list \<Rightarrow> 'd"
  ts_get_mut :: "'d \<Rightarrow> string \<Rightarrow> instant list option"
  ts_write :: "'d \<Rightarrow> string \<Rightarrow> instant list \<Rightarrow> 'd"

datatype async_task = PutAll "(bytes \<times> bytes) list" | DeleteAll "bytes list"

record ('s, 'm, 'c, 'd) krs =
  inner :: 'm
  storage :: 's
  reveals_by_name :: 'c
  last_heartbeats_by_name :: "string \<rightharpoonup> u64"
  accepted_reveals_timestamps :: 'd
  current_kyn :: kyn
  max_reveals_per_hour :: nat
  pending :: "async_task list"

definition KRS_REVEAL_PREFIX :: bytes where
  "KRS_REVEAL_PREFIX = as_bytes ''krs_reveal:''"

definition KRS_HB_PREFIX :: bytes where
  "KRS_HB_PREFIX = as_bytes ''krs_hb:''"

definition kad_record_key :: "bytes \<Rightarrow> bytes" where
  "kad_record_key k = as_bytes ''kad_record:'' @ k"

text \<open>The body of a spawned task: errors of single writes are dropped.\<close>

definition put_all :: "('s, 'y) storage_ops_scheme \<Rightarrow> (bytes \<times> bytes) list \<Rightarrow> 's \<Rightarrow> 's" where
  "put_all B ws st = fold (\<lambda>(k, v) st. snd (st_put B st k v)) ws st"

definition delete_all :: "('s, 'y) storage_ops_scheme \<Rightarrow> bytes list \<Rightarrow> 's \<Rightarrow> 's" where
  "delete_all B ks st = fold (\<lambda>k st. snd (st_delete B st k)) ks st"

definition run_task :: "('s, 'y) storage_ops_scheme \<Rightarrow> async_task \<Rightarrow> 's \<Rightarrow> 's" where
  "run_task B t st = (case t of PutAll ws \<Rightarrow> put_all B ws st | DeleteAll ks \<Rightarrow> delete_all B ks st)"

section \<open>Lookup (kademlia.rs)\<close>

definition get_fallback ::
  "'x store_env_scheme \<Rightarrow> ('s, 'm, 'c, 'd, 'y) backends_scheme \<Rightarrow> ('s, 'm, 'c, 'd) krs \<Rightarrow> string
     \<Rightarrow> name_envelope option \<times> ('s, 'm, 'c, 'd) krs" where
  "get_fallback E B self name =
     (case rv_get B (reveals_by_name self) name of
        (Some r, c) \<Rightarrow> (Some r, self\<lparr>reveals_by_name := c\<rparr>)
      | (None, c) \<Rightarrow>
          (case st_get B (storage self) (KRS_REVEAL_PREFIX @ as_bytes name) of
             Inr (Some b) \<Rightarrow>
               (case slice_name_envelope E b of
                  Some record \<Rightarrow> (Some record, self\<lparr>reveals_by_name := rv_put B c name record\<rparr>)
                | None \<Rightarrow> (None, self\<lparr>reveals_by_name := c\<rparr>))
           | _ \<Rightarrow> (None, self\<lparr>reveals_by_name := c\<rparr>)))"

section \<open>Name records (handlers.rs)\<close>

text \<open>\<open>zip(proof.iter().chain(once(&0)).cycle()).map(xor)\<close>\<close>

definition xor_distance :: "bytes \<Rightarrow> bytes \<Rightarrow> bytes" where
  "xor_distance pubkey proof =
     (let cyc = proof @ [0] in map (\<lambda>i. (pubkey ! i) XOR (cyc ! (i mod length cyc))) [0..<length pubkey])"

definition heartbeat_age :: "('s, 'm, 'c, 'd) krs \<Rightarrow> reveal \<Rightarrow> u64" where
  "heartbeat_age self new_reveal =
     (let last_hb_kyn = (case last_heartbeats_by_name self (rv_name new_reveal) of
                           Some k \<Rightarrow> k | None \<Rightarrow> rv_kyn new_reveal)
      in saturating_sub (current_kyn self) last_hb_kyn)"

definition takeover_check ::
  "'x store_env_scheme \<Rightarrow> ('s, 'm, 'c, 'd) krs \<Rightarrow> reveal \<Rightarrow> reveal \<Rightarrow> (kinetic_store_error, unit) result" where
  "takeover_check E self existing_reveal new_reveal =
     (let hb_age = heartbeat_age self new_reveal;
          base_diff = iterations E (rv_name new_reveal);
          takeover_threshold = takeover_iterations (default_physics E) base_diff hb_age
      in if rv_iterations new_reveal = rv_iterations existing_reveal \<and> hb_age < 100
         then reject_if (xor_distance (rv_pubkey existing_reveal) (proof_bytes (rv_vdf_proof existing_reveal))
                < xor_distance (rv_pubkey new_reveal) (proof_bytes (rv_vdf_proof new_reveal))) TieBroken (Ok ())
         else reject_if (rv_iterations new_reveal < takeover_threshold) InsufficientIterations (Ok ()))"

text \<open>The keys of the previous owner that a takeover deletes at once.\<close>

definition takeover_cleanup ::
  "'x store_env_scheme \<Rightarrow> ('s, 'm, 'c, 'd, 'y) backends_scheme \<Rightarrow> string \<Rightarrow> 's \<Rightarrow> 's" where
  "takeover_cleanup E B name st =
     delete_all B (map kad_record_key (derive_heartbeat_keys E name (NETWORK_SALT E)))
       (delete_all B (map kad_record_key (derive_storage_keys E name (NETWORK_SALT E))) st)"

definition store_signature_error :: "signature_verify_error \<Rightarrow> kinetic_store_error" where
  "store_signature_error e =
     (case e of
        DelegatedCapabilityMissing \<Rightarrow> StoreDelegatedCapabilityMissing
      | DelegatedAuthorizationInvalid \<Rightarrow> StoreDelegatedAuthorizationInvalid
      | _ \<Rightarrow> StoreInvalidSignature)"

definition payload_signature_check ::
  "'x store_env_scheme \<Rightarrow> name_envelope \<Rightarrow> bool \<Rightarrow> (kinetic_store_error, unit) result" where
  "payload_signature_check E record skip_verify =
     (if \<not> skip_verify \<and> \<not> dev_mode E
      then map_err store_signature_error (envelope_verify_signature E record (NETWORK_SALT E))
      else Ok ())"

datatype resolution = AlreadyStored | Proceed

definition same_owner_check ::
  "'x store_env_scheme \<Rightarrow> name_envelope \<Rightarrow> name_envelope \<Rightarrow> bool \<Rightarrow> (kinetic_store_error, resolution) result" where
  "same_owner_check E existing record skip_verify =
     (if rv_kyn (standard_reveal record) < rv_kyn (standard_reveal existing) then Err StaleReveal
      else if env_embedded_nrs record = env_embedded_nrs existing \<and> env_signature record = env_signature existing
      then Ok AlreadyStored
      else and_then (payload_signature_check E record skip_verify) (\<lambda>_.
        case (env_authorization existing, env_authorization record) of
          (Some _, None) \<Rightarrow> Ok Proceed
        | (None, Some _) \<Rightarrow> Err StaleReveal
        | (Some exist_manifest, Some new_manifest) \<Rightarrow>
            reject_if (valid_from (am_manifest new_manifest) < valid_from (am_manifest exist_manifest))
              StaleReveal (Ok Proceed)
        | (None, None) \<Rightarrow> Ok Proceed))"

definition HOUR_NANOS :: nat where
  "HOUR_NANOS = 3600 * 10 ^ 9"

text \<open>The rate limit and the commit of an accepted record.\<close>

definition accept_record ::
  "'x store_env_scheme \<Rightarrow> ('s, 'm, 'c, 'd, 'y) backends_scheme \<Rightarrow> instant \<Rightarrow> ('s, 'm, 'c, 'd) krs
     \<Rightarrow> name_envelope \<Rightarrow> ((kinetic_store_error, unit) result \<times> ('s, 'm, 'c, 'd) krs) option" where
  "accept_record E B now self record =
     (let name = env_name record;
          d = accepted_reveals_timestamps self;
          d = (if ts_contains B d name then d else ts_put B d name [])
      in case ts_get_mut B d name of
           None \<Rightarrow> None
         | Some deque \<Rightarrow>
             (let deque = dropWhile (\<lambda>t. HOUR_NANOS < now - t) deque
              in if max_reveals_per_hour self \<le> length deque
                 then Some (Err RateLimited, self\<lparr>accepted_reveals_timestamps := ts_write B d name deque\<rparr>)
                 else
                   let self = self\<lparr>accepted_reveals_timestamps := ts_write B d name (deque @ [now])\<rparr>;
                       (evicted, c) = rv_push B (reveals_by_name self) name record;
                       hbs = (case evicted of
                                Some (evicted_name, _) \<Rightarrow>
                                  if evicted_name \<noteq> name
                                  then (last_heartbeats_by_name self)(evicted_name := None)
                                  else last_heartbeats_by_name self
                              | None \<Rightarrow> last_heartbeats_by_name self);
                       reveal_writes = (case envelope_to_vec E record of
                                          Some b \<Rightarrow> [(KRS_REVEAL_PREFIX @ as_bytes name, b)] | None \<Rightarrow> []);
                       kyn = max (current_kyn self) (rv_kyn (standard_reveal record));
                       writes = reveal_writes @ [(KRS_HB_PREFIX @ as_bytes name, u64_to_be_bytes kyn)]
                   in Some (Ok (), self\<lparr>reveals_by_name := c,
                        last_heartbeats_by_name := hbs(name \<mapsto> kyn),
                        pending := pending self @ [PutAll writes]\<rparr>)))"

definition handle_put_record ::
  "'x store_env_scheme \<Rightarrow> action_state option \<Rightarrow> ('s, 'm, 'c, 'd, 'y) backends_scheme \<Rightarrow> instant
     \<Rightarrow> ('s, 'm, 'c, 'd) krs \<Rightarrow> name_envelope \<Rightarrow> bool
     \<Rightarrow> ((kinetic_store_error, unit) result \<times> ('s, 'm, 'c, 'd) krs) option" where
  "handle_put_record E G B now self record skip_verify =
     (let reveal = standard_reveal record;
          effective_age = saturating_sub (saturating_sub (current_kyn self) (rv_kyn reveal))
            (paused_since G (rv_kyn reveal))
      in if RESQUARING_EPOCH_KYNS < effective_age then Some (Err (VdfExpired effective_age), self)
         else case (if skip_verify then Ok () else verify_reveal E G B (storage self) reveal (current_kyn self)) of
           Inl e \<Rightarrow> Some (Err e, self)
         | Inr _ \<Rightarrow>
             (case get_fallback E B self (env_name record) of
                (Some existing, self) \<Rightarrow>
                  if env_pubkey existing \<noteq> env_pubkey record then
                    (case takeover_check E self (standard_reveal existing) reveal of
                       Inl e \<Rightarrow> Some (Err e, self)
                     | Inr _ \<Rightarrow>
                         accept_record E B now
                           (self\<lparr>storage := takeover_cleanup E B (rv_name reveal) (storage self)\<rparr>) record)
                  else
                    (case same_owner_check E existing record skip_verify of
                       Inl e \<Rightarrow> Some (Err e, self)
                     | Inr AlreadyStored \<Rightarrow> Some (Ok (), self)
                     | Inr Proceed \<Rightarrow> accept_record E B now self record)
              | (None, self) \<Rightarrow>
                  (case payload_signature_check E record skip_verify of
                     Inl e \<Rightarrow> Some (Err e, self)
                   | Inr _ \<Rightarrow> accept_record E B now self record)))"

section \<open>Heartbeats (handlers.rs)\<close>

definition heartbeat_signature_check ::
  "'x store_env_scheme \<Rightarrow> name_envelope \<Rightarrow> heartbeat \<Rightarrow> (kinetic_store_error, unit) result" where
  "heartbeat_signature_check E existing hb =
     (let signable = heartbeat_signable_bytes hb (NETWORK_SALT E) in
      case hb_authorization hb of
        Some auth \<Rightarrow>
          reject_if (is_err (verify_signature E (env_pubkey existing)
             (manifest_signable_bytes E auth (NETWORK_SALT E)) (am_owner_signature auth)))
            StoreDelegatedAuthorizationInvalid
         (reject_if (\<not> has_capability ''kinetic.capability.heartbeat'' auth) StoreDelegatedCapabilityMissing
         (and_then (ok_or MissingKidDocument (am_kid_doc auth)) (\<lambda>kid_doc.
          reject_if (\<not> delegate_verifies E signable (hb_owner_signature hb) kid_doc) StoreInvalidSignature (Ok ()))))
      | None \<Rightarrow>
          reject_if (is_err (verify_signature E (env_pubkey existing) signable (hb_owner_signature hb)))
            StoreInvalidSignature (Ok ()))"

definition handle_process_heartbeat ::
  "'x store_env_scheme \<Rightarrow> ('s, 'm, 'c, 'd, 'y) backends_scheme \<Rightarrow> ('s, 'm, 'c, 'd) krs \<Rightarrow> heartbeat
     \<Rightarrow> (kinetic_store_error, unit) result \<times> ('s, 'm, 'c, 'd) krs" where
  "handle_process_heartbeat E B self hb =
     (let existing_pulse = (case last_heartbeats_by_name self (hb_name hb) of Some k \<Rightarrow> k | None \<Rightarrow> 0)
      in if latest_kyn hb = existing_pulse then (Ok (), self)
         else if latest_kyn hb < existing_pulse then (Err StaleHeartbeat, self)
         else case get_fallback E B self (hb_name hb) of
           (None, self) \<Rightarrow> (Err RevealNotFound, self)
         | (Some existing, self) \<Rightarrow>
             (case heartbeat_signature_check E existing hb of
                Inl e \<Rightarrow> (Err e, self)
              | Inr _ \<Rightarrow>
                  if current_kyn self + 2 < latest_kyn hb then (Err FutureHeartbeat, self)
                  else (Ok (), self\<lparr>
                    last_heartbeats_by_name := (last_heartbeats_by_name self)(hb_name hb \<mapsto> latest_kyn hb),
                    pending := pending self @ [PutAll [(KRS_HB_PREFIX @ as_bytes (hb_name hb),
                      u64_to_be_bytes (latest_kyn hb))]]\<rparr>)))"

section \<open>Dispatch (kademlia.rs)\<close>

text \<open>The tail of \<open>put_record_internal\<close>: persist the raw record and hand it to the memory store.\<close>

definition store_raw ::
  "('s, 'm, 'c, 'd, 'y) backends_scheme \<Rightarrow> ('s, 'm, 'c, 'd) krs \<Rightarrow> kad_record
     \<Rightarrow> (kinetic_store_error, unit) result \<times> ('s, 'm, 'c, 'd) krs" where
  "store_raw B self r =
     (let st = snd (st_put B (storage self) (kad_record_key (kr_key r)) (kr_value r));
          (res, m) = ms_put B (inner self) r
      in (map_err (\<lambda>_. InternalStoreError) res, self\<lparr>storage := st, inner := m\<rparr>))"

definition put_commitment ::
  "('s, 'm, 'c, 'd, 'y) backends_scheme \<Rightarrow> ('s, 'm, 'c, 'd) krs \<Rightarrow> kad_record \<Rightarrow> commitment
     \<Rightarrow> (kinetic_store_error, unit) result \<times> ('s, 'm, 'c, 'd) krs" where
  "put_commitment B self r commitment =
     (let st = snd (st_put B (storage self) (KRS_COMMIT_PREFIX @ cm_hash commitment)
                      (u64_to_be_bytes (current_kyn self)));
          (res, m) = ms_put B (inner self) r
      in (map_err (\<lambda>_. InternalStoreError) res, self\<lparr>storage := st, inner := m\<rparr>))"

text \<open>Continue with the tail after a handler that succeeded.\<close>

definition then_store_raw ::
  "('s, 'm, 'c, 'd, 'y) backends_scheme \<Rightarrow> kad_record \<Rightarrow> (kinetic_store_error, unit) result \<times> ('s, 'm, 'c, 'd) krs
     \<Rightarrow> (kinetic_store_error, unit) result \<times> ('s, 'm, 'c, 'd) krs" where
  "then_store_raw B r x = (case x of (Inl e, self) \<Rightarrow> (Err e, self) | (Inr _, self) \<Rightarrow> store_raw B self r)"

definition put_authorized_kid ::
  "'x store_env_scheme \<Rightarrow> ('s, 'm, 'c, 'd, 'y) backends_scheme \<Rightarrow> ('s, 'm, 'c, 'd) krs \<Rightarrow> kad_record
     \<Rightarrow> authorized_kid \<Rightarrow> (kinetic_store_error, unit) result \<times> ('s, 'm, 'c, 'd) krs" where
  "put_authorized_kid E B self r auth_kid =
     (let (active, self) = get_fallback E B self (ak_name auth_kid);
          existing = ms_get B (inner self) (kr_key r)
      in then_store_raw B r (verify_authorized_kid E auth_kid active (map_option kr_value existing), self))"

definition put_authorized_manifest ::
  "'x store_env_scheme \<Rightarrow> ('s, 'm, 'c, 'd, 'y) backends_scheme \<Rightarrow> ('s, 'm, 'c, 'd) krs \<Rightarrow> kad_record
     \<Rightarrow> authorized_manifest \<Rightarrow> (kinetic_store_error, unit) result \<times> ('s, 'm, 'c, 'd) krs" where
  "put_authorized_manifest E B self r auth_manifest =
     (let (active, self) = get_fallback E B self (am_name auth_manifest);
          existing = ms_get B (inner self) (kr_key r)
      in then_store_raw B r (verify_authorized_manifest E auth_manifest active (map_option kr_value existing)
           (current_kyn self), self))"

definition put_record_internal ::
  "'x store_env_scheme \<Rightarrow> action_state option \<Rightarrow> ('s, 'm, 'c, 'd, 'y) backends_scheme \<Rightarrow> instant
     \<Rightarrow> ('s, 'm, 'c, 'd) krs \<Rightarrow> kad_record \<Rightarrow> bool
     \<Rightarrow> ((kinetic_store_error, unit) result \<times> ('s, 'm, 'c, 'd) krs) option" where
  "put_record_internal E G B now self r skip_reveal_verify =
     (if STORAGE_MAX_VALUE_BYTES E < length (kr_value r) then Some (Err PayloadTooLarge, self)
      else case json_has_field E (kr_value r) of
        None \<Rightarrow> Some (Err MalformedJson, self)
      | Some has \<Rightarrow>
          if has ''hash'' \<and> \<not> has ''vdf_proof'' then
            (case value_commitment E (kr_value r) of
               Some commitment \<Rightarrow> Some (put_commitment B self r commitment)
             | None \<Rightarrow> Some (Err SchemaValidationError, self))
          else if has ''vdf_proof'' \<or> has ''kyn'' then
            (case value_name_envelope E (kr_value r) of
               Some record \<Rightarrow>
                 map_option (then_store_raw B r) (handle_put_record E G B now self record skip_reveal_verify)
             | None \<Rightarrow> Some (Err SchemaValidationError, self))
          else if has ''latest_kyn'' then
            (case value_heartbeat E (kr_value r) of
               Some hb \<Rightarrow> Some (then_store_raw B r (handle_process_heartbeat E B self hb))
             | None \<Rightarrow> Some (Err SchemaValidationError, self))
          else if has ''delegation_signature'' then
            (case value_authorized_kid E (kr_value r) of
               Some auth_kid \<Rightarrow> Some (put_authorized_kid E B self r auth_kid)
             | None \<Rightarrow> Some (Err SchemaValidationError, self))
          else if has ''manifest'' then
            (case value_authorized_manifest E (kr_value r) of
               Some auth_manifest \<Rightarrow> Some (put_authorized_manifest E B self r auth_manifest)
             | None \<Rightarrow> Some (Err SchemaValidationError, self))
          else if has ''host_id'' then
            (case value_host_route E (kr_value r) of
               Some route \<Rightarrow> Some (then_store_raw B r (verify_host_routing_record E route (current_kyn self), self))
             | None \<Rightarrow> Some (Err SchemaValidationError, self))
          else Some (Err UnknownRecordType, self))"

definition krs_put ::
  "'x store_env_scheme \<Rightarrow> action_state option \<Rightarrow> ('s, 'm, 'c, 'd, 'y) backends_scheme \<Rightarrow> instant
     \<Rightarrow> ('s, 'm, 'c, 'd) krs \<Rightarrow> kad_record
     \<Rightarrow> ((kinetic_store_error, unit) result \<times> ('s, 'm, 'c, 'd) krs) option" where
  "krs_put E G B now self r = put_record_internal E G B now self r False"

definition put_verified ::
  "'x store_env_scheme \<Rightarrow> action_state option \<Rightarrow> ('s, 'm, 'c, 'd, 'y) backends_scheme \<Rightarrow> instant
     \<Rightarrow> ('s, 'm, 'c, 'd) krs \<Rightarrow> kad_record
     \<Rightarrow> ((kinetic_store_error, unit) result \<times> ('s, 'm, 'c, 'd) krs) option" where
  "put_verified E G B now self r = put_record_internal E G B now self r True"

section \<open>Pruning (kademlia.rs)\<close>

definition IDLE_TIMEOUT :: u64 where
  "IDLE_TIMEOUT = (7 * 24 * 3600) div 3"

text \<open>The commitments of a scan: keys to delete and memory-store keys to remove.\<close>

definition stale_commitment :: "kyn \<Rightarrow> bytes \<times> bytes \<Rightarrow> bool" where
  "stale_commitment current kv =
     (length (snd kv) = 8 \<and> 100 \<le> saturating_sub current (u64_from_be_bytes (snd kv)))"

fun prune_commitments ::
  "('s, 'm, 'c, 'd, 'y) backends_scheme \<Rightarrow> kyn \<Rightarrow> (bytes \<times> bytes) list \<Rightarrow> bytes list \<times> 'm \<Rightarrow> bytes list \<times> 'm" where
  "prune_commitments B current [] acc = acc"
| "prune_commitments B current ((k, v) # rest) (keys, m) =
     prune_commitments B current rest
       (if stale_commitment current (k, v) then
          if length KRS_COMMIT_PREFIX < length k then
            let hash = drop (length KRS_COMMIT_PREFIX) k
            in (keys @ [k, kad_record_key hash], ms_remove B m hash)
          else (keys @ [k], m)
        else (keys, m))"

definition expired_name :: "('s, 'm, 'c, 'd) krs \<Rightarrow> string \<times> name_envelope \<Rightarrow> bool" where
  "expired_name self nr =
     (let reveal = standard_reveal (snd nr);
          age = saturating_sub (current_kyn self) (rv_kyn reveal);
          last_hb = (case last_heartbeats_by_name self (fst nr) of Some k \<Rightarrow> k | None \<Rightarrow> rv_kyn reveal);
          hb_age = saturating_sub (current_kyn self) last_hb
      in RESQUARING_EPOCH_KYNS < age \<or> IDLE_TIMEOUT < hb_age)"

definition derived_keys :: "'x store_env_scheme \<Rightarrow> string \<Rightarrow> bytes list" where
  "derived_keys E name =
     derive_storage_keys E name (NETWORK_SALT E) @ derive_heartbeat_keys E name (NETWORK_SALT E)"

definition forget_name ::
  "'x store_env_scheme \<Rightarrow> ('s, 'm, 'c, 'd, 'y) backends_scheme \<Rightarrow> string
     \<Rightarrow> ('s, 'm, 'c, 'd) krs \<times> bytes list \<Rightarrow> ('s, 'm, 'c, 'd) krs \<times> bytes list" where
  "forget_name E B name acc =
     (let (self, keys) = acc in
      (self\<lparr>reveals_by_name := rv_pop B (reveals_by_name self) name,
         last_heartbeats_by_name := (last_heartbeats_by_name self)(name := None),
         inner := fold (\<lambda>k m. ms_remove B m k) (derived_keys E name) (inner self)\<rparr>,
       keys @ [KRS_REVEAL_PREFIX @ as_bytes name, KRS_HB_PREFIX @ as_bytes name]
         @ map kad_record_key (derived_keys E name)))"

definition krs_prune ::
  "'x store_env_scheme \<Rightarrow> ('s, 'm, 'c, 'd, 'y) backends_scheme \<Rightarrow> ('s, 'm, 'c, 'd) krs \<Rightarrow> ('s, 'm, 'c, 'd) krs" where
  "krs_prune E B self =
     (let (keys, m) = (case st_scan_prefix B (storage self) KRS_COMMIT_PREFIX None of
                         Inr it \<Rightarrow> prune_commitments B (current_kyn self) it ([], inner self)
                       | Inl _ \<Rightarrow> ([], inner self));
          expired = map fst (filter (expired_name self) (rv_iter B (reveals_by_name self)));
          (self, keys) = fold (forget_name E B) expired (self\<lparr>inner := m\<rparr>, keys)
      in if keys \<noteq> [] then self\<lparr>pending := pending self @ [DeleteAll keys]\<rparr> else self)"

section \<open>Restore (kademlia.rs)\<close>

definition restorable ::
  "'x store_env_scheme \<Rightarrow> action_state option \<Rightarrow> kyn \<Rightarrow> name_envelope \<Rightarrow> bool" where
  "restorable E G initial record =
     (let reveal = standard_reveal record in
      case compute_required_iterations E G reveal initial of
        Inl _ \<Rightarrow> False
      | Inr req \<Rightarrow>
          req \<le> rv_iterations reveal
          \<and> (dev_mode E \<or> is_ok (reveal_verify_signature E reveal (NETWORK_SALT E)))
          \<and> (let drand_sig = (case hex_decode E (beacon_signature reveal) of
                                Some b \<Rightarrow> b | None \<Rightarrow> replicate 32 0);
                 challenge = derive E (NETWORK_SALT E) (rv_name reveal) (rv_salt reveal) drand_sig (rv_pubkey reveal)
             in vdf_accepts E challenge (rv_vdf_proof reveal) (rv_iterations reveal)))"

definition restore_reveal ::
  "'x store_env_scheme \<Rightarrow> action_state option \<Rightarrow> ('s, 'm, 'c, 'd, 'y) backends_scheme \<Rightarrow> kyn
     \<Rightarrow> bytes \<times> bytes \<Rightarrow> 'c \<Rightarrow> 'c" where
  "restore_reveal E G B initial kv c =
     (let prefix_len = length KRS_REVEAL_PREFIX in
      if length (fst kv) \<le> prefix_len then c
      else case slice_name_envelope E (snd kv) of
        None \<Rightarrow> c
      | Some record \<Rightarrow>
          if restorable E G initial record
          then rv_put B c (utf8_lossy E (drop prefix_len (fst kv))) record else c)"

definition restore_heartbeat ::
  "'x store_env_scheme \<Rightarrow> ('s, 'm, 'c, 'd, 'y) backends_scheme \<Rightarrow> 'c \<Rightarrow> bytes \<times> bytes
     \<Rightarrow> (string \<rightharpoonup> u64) \<times> 's \<Rightarrow> (string \<rightharpoonup> u64) \<times> 's" where
  "restore_heartbeat E B c kv acc =
     (let prefix_len = length KRS_HB_PREFIX; (hbs, st) = acc in
      if length (fst kv) \<le> prefix_len then acc
      else let name = utf8_lossy E (drop prefix_len (fst kv)) in
        if length (snd kv) = 8 then
          if rv_contains B c name then (hbs(name \<mapsto> u64_from_be_bytes (snd kv)), st)
          else (hbs, snd (st_delete B st (fst kv)))
        else acc)"

definition publish_restored ::
  "'x store_env_scheme \<Rightarrow> ('s, 'm, 'c, 'd, 'y) backends_scheme \<Rightarrow> string \<times> name_envelope \<Rightarrow> 'm \<Rightarrow> 'm" where
  "publish_restored E B nr m =
     (case envelope_to_vec E (snd nr) of
        None \<Rightarrow> m
      | Some val \<Rightarrow>
          fold (\<lambda>k m. snd (ms_put B m \<lparr>kr_key = k, kr_value = val\<rparr>))
            (derive_storage_keys E (fst nr) (NETWORK_SALT E)) m)"

text \<open>\<open>empty_memory\<close>, \<open>empty_reveals\<close> and \<open>empty_timestamps\<close> are the fresh third-party containers
  with the configured capacities.\<close>

definition krs_new ::
  "'x store_env_scheme \<Rightarrow> action_state option \<Rightarrow> ('s, 'm, 'c, 'd, 'y) backends_scheme \<Rightarrow> 'm \<Rightarrow> 'c \<Rightarrow> 'd
     \<Rightarrow> 's \<Rightarrow> kyn \<Rightarrow> nat \<Rightarrow> ('s, 'm, 'c, 'd) krs" where
  "krs_new E G B empty_memory empty_reveals empty_timestamps st initial max_reveals =
     (let c = (case st_scan_prefix B st KRS_REVEAL_PREFIX (Some 100000) of
                 Inr it \<Rightarrow> fold (restore_reveal E G B initial) it empty_reveals
               | Inl _ \<Rightarrow> empty_reveals);
          (hbs, st) = (case st_scan_prefix B st KRS_HB_PREFIX None of
                 Inr it \<Rightarrow> fold (restore_heartbeat E B c) it (Map.empty, st)
               | Inl _ \<Rightarrow> (Map.empty, st));
          m = fold (publish_restored E B) (rv_iter B c) empty_memory
      in \<lparr>inner = m, storage = st, reveals_by_name = c, last_heartbeats_by_name = hbs,
          accepted_reveals_timestamps = empty_timestamps, current_kyn = initial,
          max_reveals_per_hour = max_reveals, pending = []\<rparr>)"

section \<open>The RecordStore trait (kademlia.rs)\<close>

definition krs_get :: "('s, 'm, 'c, 'd, 'y) backends_scheme \<Rightarrow> ('s, 'm, 'c, 'd) krs \<Rightarrow> bytes \<Rightarrow> kad_record option" where
  "krs_get B self k = ms_get B (inner self) k"

definition krs_remove :: "('s, 'm, 'c, 'd, 'y) backends_scheme \<Rightarrow> ('s, 'm, 'c, 'd) krs \<Rightarrow> bytes \<Rightarrow> ('s, 'm, 'c, 'd) krs" where
  "krs_remove B self k = self\<lparr>inner := ms_remove B (inner self) k\<rparr>"

datatype kad_store_error = MaxProvidedKeys

definition add_provider :: "('s, 'm, 'c, 'd) krs \<Rightarrow> 'p \<Rightarrow> (kad_store_error, unit) result \<times> ('s, 'm, 'c, 'd) krs" where
  "add_provider self p = (Err MaxProvidedKeys, self)"

end
