(* ===== verification/Store_Properties.thy ===== *)
theory Store_Properties
  imports Store "HOL-Library.AList"
begin

text \<open>
  What the record store guarantees: takeovers, updates by the owner, heartbeats, the rate
  limit, the commit-reveal time lock, pruning, and what a rejected record may change. The
  documented behaviour of the \<open>lru\<close> caches is stated as \<open>rv_laws\<close> and \<open>ts_laws\<close>.
\<close>

section \<open>Frames\<close>

lemma get_fallback_frame [simp]:
  assumes "get_fallback E B s n = (x, s')"
  shows "last_heartbeats_by_name s' = last_heartbeats_by_name s" "current_kyn s' = current_kyn s"
    "storage s' = storage s" "inner s' = inner s" "pending s' = pending s"
    "max_reveals_per_hour s' = max_reveals_per_hour s"
    "accepted_reveals_timestamps s' = accepted_reveals_timestamps s"
  using assms by (auto simp: get_fallback_def split: option.splits prod.splits sum.splits)

lemma heartbeat_age_frame:
  "last_heartbeats_by_name s' = last_heartbeats_by_name s \<Longrightarrow> current_kyn s' = current_kyn s
    \<Longrightarrow> heartbeat_age s' r = heartbeat_age s r"
  by (simp add: heartbeat_age_def)

text \<open>The rate-limit cache as \<open>accept_record\<close> reads it.\<close>

definition timestamps_of :: "('s, 'm, 'c, 'd, 'y) backends_scheme \<Rightarrow> ('s, 'm, 'c, 'd) krs \<Rightarrow> string \<Rightarrow> 'd" where
  "timestamps_of B s n =
     (let d = accepted_reveals_timestamps s in if ts_contains B d n then d else ts_put B d n [])"

lemma accept_record_limited:
  assumes "ts_get_mut B (timestamps_of B s (env_name rec)) (env_name rec) = Some dq"
    and "max_reveals_per_hour s \<le> length (dropWhile (\<lambda>t. HOUR_NANOS < now - t) dq)"
  shows "accept_record E B now s rec = Some (Err RateLimited, s\<lparr>accepted_reveals_timestamps :=
    ts_write B (timestamps_of B s (env_name rec)) (env_name rec) (dropWhile (\<lambda>t. HOUR_NANOS < now - t) dq)\<rparr>)"
  using assms by (simp add: accept_record_def timestamps_of_def Let_def)

lemma accept_record_accepted:
  assumes "ts_get_mut B (timestamps_of B s (env_name rec)) (env_name rec) = Some dq"
    and "\<not> max_reveals_per_hour s \<le> length (dropWhile (\<lambda>t. HOUR_NANOS < now - t) dq)"
  shows "\<exists>c hbs ws. accept_record E B now s rec = Some (Ok (), s\<lparr>
      accepted_reveals_timestamps := ts_write B (timestamps_of B s (env_name rec)) (env_name rec)
        (dropWhile (\<lambda>t. HOUR_NANOS < now - t) dq @ [now]),
      reveals_by_name := c,
      last_heartbeats_by_name := hbs(env_name rec \<mapsto> max (current_kyn s) (rv_kyn (standard_reveal rec))),
      pending := pending s @ [PutAll ws]\<rparr>)"
  using assms by (simp add: accept_record_def timestamps_of_def Let_def split_beta) blast

lemma accept_record_none:
  assumes "ts_get_mut B (timestamps_of B s (env_name rec)) (env_name rec) = None"
  shows "accept_record E B now s rec = None"
  using assms by (simp add: accept_record_def timestamps_of_def Let_def)

lemma accept_record_cases:
  assumes "accept_record E B now s rec = Some (x, s')"
  obtains (limited) d where "x = Err RateLimited" "s' = s\<lparr>accepted_reveals_timestamps := d\<rparr>"
  | (accepted) d c hbs ws where "x = Ok ()" "s' = s\<lparr>accepted_reveals_timestamps := d, reveals_by_name := c,
        last_heartbeats_by_name := hbs(env_name rec \<mapsto> max (current_kyn s) (rv_kyn (standard_reveal rec))),
        pending := pending s @ [PutAll ws]\<rparr>"
proof (cases "ts_get_mut B (timestamps_of B s (env_name rec)) (env_name rec)")
  case None
  then show ?thesis using assms by (simp add: accept_record_none)
next
  case (Some dq)
  show ?thesis
  proof (cases "max_reveals_per_hour s \<le> length (dropWhile (\<lambda>t. HOUR_NANOS < now - t) dq)")
    case True
    then show ?thesis using accept_record_limited [OF Some, of now E] assms limited by simp
  next
    case False
    then show ?thesis using accept_record_accepted [OF Some, of now E] assms accepted by auto
  qed
qed

section \<open>Name records\<close>

lemma takeover_check_Ok:
  "takeover_check E s ex new = Ok () \<longleftrightarrow>
    (if rv_iterations new = rv_iterations ex \<and> heartbeat_age s new < 100
     then xor_distance (rv_pubkey new) (proof_bytes (rv_vdf_proof new))
            \<le> xor_distance (rv_pubkey ex) (proof_bytes (rv_vdf_proof ex))
     else takeover_iterations (default_physics E) (iterations E (rv_name new)) (heartbeat_age s new)
            \<le> rv_iterations new)"
  by (auto simp: takeover_check_def Let_def result_simps not_less)

lemma handle_put_takeover:
  assumes ok: "handle_put_record E G B now s rec skip = Some (Ok (), s')"
    and ex: "get_fallback E B s (env_name rec) = (Some ex, s1)" and "env_pubkey ex \<noteq> env_pubkey rec"
  shows "takeover_check E s (standard_reveal ex) (standard_reveal rec) = Ok ()
    \<and> (skip \<or> verify_reveal E G B (storage s) (standard_reveal rec) (current_kyn s) = Ok ())"
proof -
  have "takeover_check E s1 (standard_reveal ex) (standard_reveal rec) = takeover_check E s (standard_reveal ex) (standard_reveal rec)"
    using get_fallback_frame [OF ex] by (simp add: takeover_check_def heartbeat_age_def)
  then show ?thesis
    using assms
    by (auto simp: handle_put_record_def Let_def simp del: env_simps split: if_splits sum.splits)
qed

lemma same_owner_Proceed:
  assumes "same_owner_check E ex rec skip = Ok Proceed"
  shows "rv_kyn (standard_reveal ex) \<le> rv_kyn (standard_reveal rec)
    \<and> \<not> (env_authorization ex = None \<and> env_authorization rec \<noteq> None)
    \<and> (\<forall>old new. env_authorization ex = Some old \<longrightarrow> env_authorization rec = Some new
         \<longrightarrow> valid_from (am_manifest old) \<le> valid_from (am_manifest new))
    \<and> (skip \<or> dev_mode E \<or> envelope_verify_signature E rec (NETWORK_SALT E) = Ok ())"
  using assms
  by (auto simp: same_owner_check_def payload_signature_check_def result_simps not_less
      simp del: env_simps split: if_splits option.splits)

lemma handle_put_same_owner:
  assumes ok: "handle_put_record E G B now s rec skip = Some (Ok (), s')"
    and ex: "get_fallback E B s (env_name rec) = (Some ex, s1)" and "env_pubkey ex = env_pubkey rec"
  shows "same_owner_check E ex rec skip = Ok AlreadyStored \<and> s' = s1
    \<or> same_owner_check E ex rec skip = Ok Proceed"
  using assms
  by (auto simp: handle_put_record_def Let_def simp del: env_simps split: if_splits sum.splits resolution.splits)

text \<open>A rejected name record changes no liveness or memory-store state; only a rate-limited one may
  change persistent storage.\<close>

definition same_but_caches :: "('s, 'm, 'c, 'd) krs \<Rightarrow> ('s, 'm, 'c, 'd) krs \<Rightarrow> bool" where
  "same_but_caches s s' \<longleftrightarrow> last_heartbeats_by_name s' = last_heartbeats_by_name s
     \<and> current_kyn s' = current_kyn s \<and> inner s' = inner s \<and> pending s' = pending s
     \<and> max_reveals_per_hour s' = max_reveals_per_hour s"

lemma same_but_caches_refl [simp]: "same_but_caches s s"
  by (simp add: same_but_caches_def)

lemma get_fallback_same: "get_fallback E B s n = (x, s') \<Longrightarrow> same_but_caches s s' \<and> storage s' = storage s"
  by (simp add: same_but_caches_def)

lemma accept_record_Err:
  assumes "accept_record E B now s rec = Some (Err e, s')"
  shows "e = RateLimited \<and> same_but_caches s s' \<and> storage s' = storage s"
  using assms by (cases rule: accept_record_cases) (simp_all add: same_but_caches_def)

lemma handle_put_Err:
  assumes "handle_put_record E G B now s rec skip = Some (Err e, s')"
  shows "same_but_caches s s' \<and> (storage s' = storage s \<or> e = RateLimited)"
proof -
  obtain x s1 where gf: "get_fallback E B s (env_name rec) = (x, s1)" by force
  have s1: "same_but_caches s s1" "storage s1 = storage s" using get_fallback_same [OF gf] by simp_all
  have acc: "same_but_caches s s'" "e = RateLimited"
    if "accept_record E B now s2 rec = Some (Err e, s')" "same_but_caches s s2" for s2
    using accept_record_Err [OF that(1)] that(2) by (simp_all add: same_but_caches_def)
  have clean: "same_but_caches s (s1\<lparr>storage := st\<rparr>)" for st using s1 by (simp add: same_but_caches_def)
  show ?thesis
    using assms gf s1 acc acc [OF _ clean]
    by (auto simp: handle_put_record_def Let_def simp del: env_simps
        split: if_splits sum.splits resolution.splits option.splits)
qed

section \<open>Heartbeats\<close>

definition heartbeat_applied ::
  "'x store_env_scheme \<Rightarrow> ('s, 'm, 'c, 'd, 'y) backends_scheme \<Rightarrow> ('s, 'm, 'c, 'd) krs \<Rightarrow> heartbeat
     \<Rightarrow> ('s, 'm, 'c, 'd) krs \<Rightarrow> bool" where
  "heartbeat_applied E B s hb s' \<longleftrightarrow>
     (\<exists>ex. fst (get_fallback E B s (hb_name hb)) = Some ex \<and> heartbeat_signature_check E ex hb = Ok ())
     \<and> latest_kyn hb \<le> current_kyn s + 2
     \<and> (case last_heartbeats_by_name s (hb_name hb) of Some k \<Rightarrow> k | None \<Rightarrow> 0) < latest_kyn hb
     \<and> last_heartbeats_by_name s' = (last_heartbeats_by_name s)(hb_name hb \<mapsto> latest_kyn hb)
     \<and> inner s' = inner s \<and> storage s' = storage s \<and> current_kyn s' = current_kyn s"

lemma handle_heartbeat_cases:
  assumes "handle_process_heartbeat E B s hb = (x, s')"
  shows "same_but_caches s s' \<and> storage s' = storage s \<or> x = Ok () \<and> heartbeat_applied E B s hb s'"
proof -
  let ?p = "case last_heartbeats_by_name s (hb_name hb) of Some k \<Rightarrow> k | None \<Rightarrow> 0"
  obtain y s1 where gf: "get_fallback E B s (hb_name hb) = (y, s1)" by force
  note f = get_fallback_frame [OF gf] and same = get_fallback_same [OF gf]
  consider "latest_kyn hb = ?p" | "latest_kyn hb < ?p" | "?p < latest_kyn hb" by fastforce
  then show ?thesis
  proof cases
    case 1
    then have "handle_process_heartbeat E B s hb = (Ok (), s)"
      unfolding handle_process_heartbeat_def Let_def by (rule if_P)
    with assms show ?thesis by simp
  next
    case 2
    then have "latest_kyn hb \<noteq> ?p" by simp
    with 2 have "handle_process_heartbeat E B s hb = (Err StaleHeartbeat, s)"
      unfolding handle_process_heartbeat_def Let_def by (simp only: if_True if_False)
    with assms show ?thesis by simp
  next
    case 3
    then have "latest_kyn hb \<noteq> ?p" "\<not> latest_kyn hb < ?p" by simp_all
    then have h: "handle_process_heartbeat E B s hb = (case (y, s1) of
           (None, self) \<Rightarrow> (Err RevealNotFound, self)
         | (Some existing, self) \<Rightarrow>
             (case heartbeat_signature_check E existing hb of
                Inl e \<Rightarrow> (Err e, self)
              | Inr _ \<Rightarrow>
                  if current_kyn self + 2 < latest_kyn hb then (Err FutureHeartbeat, self)
                  else (Ok (), self\<lparr>
                    last_heartbeats_by_name := (last_heartbeats_by_name self)(hb_name hb \<mapsto> latest_kyn hb),
                    pending := pending self @ [PutAll [(KRS_HB_PREFIX @ as_bytes (hb_name hb),
                      u64_to_be_bytes (latest_kyn hb))]]\<rparr>)))"
      unfolding handle_process_heartbeat_def Let_def gf by (simp only: if_False)
    show ?thesis
    proof (cases y)
      case None
      with assms h same show ?thesis by simp
    next
      case (Some ex)
      show ?thesis
      proof (cases "heartbeat_signature_check E ex hb")
        case (Inl e)
        with assms h same Some show ?thesis by simp
      next
        case (Inr u)
        show ?thesis
        proof (cases "current_kyn s1 + 2 < latest_kyn hb")
          case True
          with assms h same Some Inr show ?thesis by simp
        next
          case False
          with assms h Some Inr have x: "x = Ok ()" and s': "s' = s1\<lparr>
              last_heartbeats_by_name := (last_heartbeats_by_name s1)(hb_name hb \<mapsto> latest_kyn hb),
              pending := pending s1 @ [PutAll [(KRS_HB_PREFIX @ as_bytes (hb_name hb),
                u64_to_be_bytes (latest_kyn hb))]]\<rparr>"
            by simp_all
          from False 3 f gf Some Inr show ?thesis
            unfolding heartbeat_applied_def x s' by (simp add: not_less)
        qed
      qed
    qed
  qed
qed

section \<open>Caches\<close>

text \<open>The documented behaviour of \<open>lru::LruCache\<close>, through a lookup that does not touch recency:
  reads keep the entries, an insertion stores its entry and may evict another one, removal
  removes one entry, iteration lists the entries.\<close>

definition rv_laws :: "('s, 'm, 'c, 'd, 'y) backends_scheme \<Rightarrow> ('c \<Rightarrow> string \<rightharpoonup> name_envelope) \<Rightarrow> bool" where
  "rv_laws B lk \<longleftrightarrow>
     (\<forall>c n. fst (rv_get B c n) = lk c n \<and> lk (snd (rv_get B c n)) = lk c)
     \<and> (\<forall>c n v. lk (rv_put B c n v) n = Some v \<and> (\<forall>n'. n' \<noteq> n \<longrightarrow> lk (rv_put B c n v) n' \<in> {lk c n', None}))
     \<and> (\<forall>c n. lk (rv_pop B c n) = (lk c)(n := None))
     \<and> (\<forall>c n. rv_contains B c n = (lk c n \<noteq> None))
     \<and> (\<forall>c n v. (n, v) \<in> set (rv_iter B c) \<longleftrightarrow> lk c n = Some v)"

definition ts_laws :: "('s, 'm, 'c, 'd, 'y) backends_scheme \<Rightarrow> ('d \<Rightarrow> string \<rightharpoonup> instant list) \<Rightarrow> bool" where
  "ts_laws B lk \<longleftrightarrow>
     (\<forall>d n. ts_contains B d n = (lk d n \<noteq> None) \<and> ts_get_mut B d n = lk d n)
     \<and> (\<forall>d n v. lk (ts_put B d n v) n = Some v)
     \<and> (\<forall>d n v. lk d n \<noteq> None \<longrightarrow> lk (ts_write B d n v) = (lk d)(n \<mapsto> v))"

lemma rv_popD: "rv_laws B lk \<Longrightarrow> lk (rv_pop B c n) = (lk c)(n := None)"
  by (simp add: rv_laws_def)

lemma rv_iterD: "rv_laws B lk \<Longrightarrow> (n, v) \<in> set (rv_iter B c) \<longleftrightarrow> lk c n = Some v"
  by (simp add: rv_laws_def)

lemma timestamps_lookup:
  assumes "ts_laws B lk"
  shows "ts_get_mut B (timestamps_of B s n) n
    = Some (case lk (accepted_reveals_timestamps s) n of None \<Rightarrow> [] | Some dq \<Rightarrow> dq)"
  using assms by (simp add: ts_laws_def timestamps_of_def Let_def split: option.split)

lemma timestamps_write:
  assumes "ts_laws B lk"
  shows "lk (ts_write B (timestamps_of B s n) n dq) n = Some dq"
proof -
  have "lk (timestamps_of B s n) n \<noteq> None"
    using timestamps_lookup [OF assms, of s n] assms by (simp add: ts_laws_def)
  then show ?thesis using assms by (simp add: ts_laws_def)
qed

lemma dropWhile_recent:
  assumes "sorted (dq :: instant list)" and "\<forall>t\<in>set dq. t \<le> now"
  shows "dropWhile (\<lambda>t. HOUR_NANOS < now - t) dq = filter (\<lambda>t. now - t \<le> HOUR_NANOS) dq"
  using assms
proof (induction dq)
  case (Cons t dq)
  show ?case
  proof (cases "HOUR_NANOS < now - t")
    case True
    with Cons show ?thesis by simp
  next
    case False
    have "now - t' \<le> HOUR_NANOS" if "t' \<in> set dq" for t'
      using that Cons.prems False by (fastforce simp: not_less intro: le_trans [OF diff_le_mono2])
    then have "filter (\<lambda>t. now - t \<le> HOUR_NANOS) dq = dq" by (simp add: filter_id_conv)
    with False show ?thesis by simp
  qed
qed simp

section \<open>Pruning\<close>

lemma forget_name_fields:
  "reveals_by_name (fst (forget_name E B n (s, ks))) = rv_pop B (reveals_by_name s) n"
  "last_heartbeats_by_name (fst (forget_name E B n (s, ks))) = (last_heartbeats_by_name s)(n := None)"
  "current_kyn (fst (forget_name E B n (s, ks))) = current_kyn s"
  "storage (fst (forget_name E B n (s, ks))) = storage s"
  "pending (fst (forget_name E B n (s, ks))) = pending s"
  by (simp_all add: forget_name_def)

lemma forget_all:
  assumes "rv_laws B lk"
  shows "lk (reveals_by_name (fst (fold (forget_name E B) ns a))) n
      = (if n \<in> set ns then None else lk (reveals_by_name (fst a)) n)
    \<and> last_heartbeats_by_name (fst (fold (forget_name E B) ns a)) n
      = (if n \<in> set ns then None else last_heartbeats_by_name (fst a) n)
    \<and> storage (fst (fold (forget_name E B) ns a)) = storage (fst a)
    \<and> current_kyn (fst (fold (forget_name E B) ns a)) = current_kyn (fst a)"
proof (induction ns arbitrary: a)
  case (Cons x ns)
  obtain s ks where a: "a = (s, ks)" by force
  show ?case
    using Cons.IH [of "forget_name E B x a"] rv_popD [OF assms, of "reveals_by_name s" x]
    by (simp add: a forget_name_fields)
qed simp

definition expired_names :: "('s, 'm, 'c, 'd, 'y) backends_scheme \<Rightarrow> ('s, 'm, 'c, 'd) krs \<Rightarrow> string list" where
  "expired_names B s = map fst (filter (expired_name s) (rv_iter B (reveals_by_name s)))"

lemma krs_prune_fields:
  "\<exists>m ks. reveals_by_name (krs_prune E B s) = reveals_by_name (fst (fold (forget_name E B) (expired_names B s) (s\<lparr>inner := m\<rparr>, ks)))
    \<and> last_heartbeats_by_name (krs_prune E B s) = last_heartbeats_by_name (fst (fold (forget_name E B) (expired_names B s) (s\<lparr>inner := m\<rparr>, ks)))
    \<and> storage (krs_prune E B s) = storage (fst (fold (forget_name E B) (expired_names B s) (s\<lparr>inner := m\<rparr>, ks)))
    \<and> current_kyn (krs_prune E B s) = current_kyn (fst (fold (forget_name E B) (expired_names B s) (s\<lparr>inner := m\<rparr>, ks)))"
  by (simp add: krs_prune_def expired_names_def split_beta Let_def) blast

lemma krs_prune_lookup:
  assumes "rv_laws B lk"
  shows "lk (reveals_by_name (krs_prune E B s)) n = (if n \<in> set (expired_names B s) then None else lk (reveals_by_name s) n)
    \<and> last_heartbeats_by_name (krs_prune E B s) n = (if n \<in> set (expired_names B s) then None else last_heartbeats_by_name s n)
    \<and> storage (krs_prune E B s) = storage s \<and> current_kyn (krs_prune E B s) = current_kyn s"
proof -
  obtain m ks where "reveals_by_name (krs_prune E B s) = reveals_by_name (fst (fold (forget_name E B) (expired_names B s) (s\<lparr>inner := m\<rparr>, ks)))"
    "last_heartbeats_by_name (krs_prune E B s) = last_heartbeats_by_name (fst (fold (forget_name E B) (expired_names B s) (s\<lparr>inner := m\<rparr>, ks)))"
    "storage (krs_prune E B s) = storage (fst (fold (forget_name E B) (expired_names B s) (s\<lparr>inner := m\<rparr>, ks)))"
    "current_kyn (krs_prune E B s) = current_kyn (fst (fold (forget_name E B) (expired_names B s) (s\<lparr>inner := m\<rparr>, ks)))"
    using krs_prune_fields [of E B s] by blast
  then show ?thesis using forget_all [OF assms, of E "expired_names B s" "(s\<lparr>inner := m\<rparr>, ks)" n] by simp
qed

lemma expired_names_iff:
  assumes "rv_laws B lk"
  shows "n \<in> set (expired_names B s) \<longleftrightarrow> (\<exists>v. lk (reveals_by_name s) n = Some v \<and> expired_name s (n, v))"
  using rv_iterD [OF assms, of n] by (auto simp: expired_names_def image_iff)

section \<open>A concrete store for the witnesses\<close>

type_synonym sample_krs =
  "(bytes wasm_storage, bytes \<Rightarrow> kad_record option, (string \<times> name_envelope) list, (string \<times> instant list) list) krs"

definition sample_backends ::
  "(bytes wasm_storage, bytes \<Rightarrow> kad_record option, (string \<times> name_envelope) list, (string \<times> instant list) list) backends" where
  "sample_backends = storage_ops.extend (wasm_ops memory_file) (backends.fields
     (\<lambda>m k. m k) (\<lambda>m r. (Ok (), m(kr_key r \<mapsto> r))) (\<lambda>m k. m(k := None))
     (\<lambda>c n. (map_of c n, c)) (\<lambda>c n v. (n, v) # c)
     (\<lambda>c n v. (map_option (Pair n) (map_of c n), (n, v) # c)) (\<lambda>c n. filter (\<lambda>(n', _). n' \<noteq> n) c)
     (\<lambda>c n. map_of c n \<noteq> None) AList.clearjunk
     (\<lambda>d n. map_of d n \<noteq> None) (\<lambda>d n v. (n, v) # d) map_of (\<lambda>d n v. (n, v) # d))"

lemmas sample_backends_simps = sample_backends_def storage_ops.defs backends.defs wasm_ops_def

lemma sample_rv_laws: "rv_laws sample_backends map_of"
proof -
  have pop: "map_of (filter (\<lambda>(n', _). n' \<noteq> n) c) = (map_of c)(n := None)" for c :: "(string \<times> name_envelope) list" and n
    using map_of_btree_remove [of n c] by (simp add: btree_remove_def)
  have "(n, v) \<in> set (AList.clearjunk c) \<longleftrightarrow> map_of c n = Some v" for c :: "(string \<times> name_envelope) list" and n v
    using map_of_eq_Some_iff [OF distinct_clearjunk, of c n v] by (simp add: map_of_clearjunk)
  with pop show ?thesis by (simp add: rv_laws_def sample_backends_simps)
qed

lemma sample_ts_laws: "ts_laws sample_backends map_of"
  by (auto simp: ts_laws_def sample_backends_simps fun_eq_iff)

definition sample_owner :: name_envelope where
  "sample_owner = Standard (sample_reveal\<lparr>rv_pubkey := [1]\<rparr>)"

definition sample_rival :: name_envelope where
  "sample_rival = Standard (sample_reveal\<lparr>rv_pubkey := [0]\<rparr>)"

definition sample_krs :: sample_krs where
  "sample_krs = \<lparr>inner = Map.empty, storage = storage_new, reveals_by_name = [(''satoshi.kin'', sample_owner)],
     last_heartbeats_by_name = [''satoshi.kin'' \<mapsto> 1000], accepted_reveals_timestamps = [],
     current_kyn = 1050, max_reveals_per_hour = 5, pending = []\<rparr>"

lemma sample_fallback:
  "get_fallback sample_store sample_backends sample_krs ''satoshi.kin'' = (Some sample_owner, sample_krs)"
  by (simp add: get_fallback_def sample_krs_def sample_backends_simps)

section \<open>Correctness of the store\<close>


lemma sample_takeover:
  "\<exists>s'. handle_put_record sample_store None sample_backends 0 sample_krs sample_rival True = Some (Ok (), s')"
proof -
  have tie: "takeover_check sample_store sample_krs (standard_reveal sample_owner) (standard_reveal sample_rival) = Ok ()"
    by (simp add: takeover_check_Ok heartbeat_age_def sample_krs_def sample_owner_def sample_rival_def
        sample_reveal_def saturating_sub_def xor_distance_def Cons_le_Cons)
  have accept: "\<exists>s'. accept_record sample_store sample_backends 0 (sample_krs\<lparr>storage := st\<rparr>) sample_rival = Some (Ok (), s')" for st
    by (simp add: accept_record_def sample_krs_def sample_rival_def sample_reveal_def sample_backends_simps
        HOUR_NANOS_def Let_def split: option.split)
  have age: "\<not> RESQUARING_EPOCH_KYNS < saturating_sub (saturating_sub (current_kyn sample_krs) (rv_kyn (standard_reveal sample_rival)))
      (paused_since None (rv_kyn (standard_reveal sample_rival)))"
    by (simp add: RESQUARING_EPOCH_KYNS_def sample_krs_def sample_rival_def sample_reveal_def paused_since_def saturating_sub_def)
  have n: "env_name sample_rival = ''satoshi.kin''" "env_pubkey sample_owner \<noteq> env_pubkey sample_rival"
    by (simp_all add: sample_rival_def sample_owner_def sample_reveal_def)
  show ?thesis
    using age tie accept n(2)
    by (simp add: handle_put_record_def Let_def n(1) sample_fallback del: env_simps)
qed


text \<open>C36. Updates by the owner: a record of the same owner that changes the store is never older
  than the stored one, never lets a delegate override a record signed with the owner's key,
  never moves to an older delegation, and carries valid signatures (outside development mode and
  unless verified elsewhere).\<close>

theorem owner_update_ordered:
  assumes "handle_put_record E G B now s rec skip = Some (Ok (), s')"
    and "get_fallback E B s (env_name rec) = (Some ex, s1)" and "env_pubkey ex = env_pubkey rec"
    and "s' \<noteq> s1"
  shows "rv_kyn (standard_reveal ex) \<le> rv_kyn (standard_reveal rec)
    \<and> \<not> (env_authorization ex = None \<and> env_authorization rec \<noteq> None)
    \<and> (\<forall>old new. env_authorization ex = Some old \<longrightarrow> env_authorization rec = Some new
         \<longrightarrow> valid_from (am_manifest old) \<le> valid_from (am_manifest new))
    \<and> (skip \<or> dev_mode E \<or> envelope_verify_signature E rec (NETWORK_SALT E) = Ok ())"
  using handle_put_same_owner [OF assms(1-3)] assms(4) same_owner_Proceed by blast

definition sample_update :: name_envelope where
  "sample_update = Standard (sample_reveal\<lparr>rv_pubkey := [1], embedded_nrs := [9], rv_kyn := 1010\<rparr>)"

theorem owner_update_ordered_witness:
  "\<exists>s'. handle_put_record sample_store None sample_backends 0 sample_krs sample_update True = Some (Ok (), s')
     \<and> s' \<noteq> sample_krs \<and> rv_kyn (standard_reveal sample_owner) \<le> rv_kyn (standard_reveal sample_update)"
proof -
  have n: "env_name sample_update = ''satoshi.kin''" "env_pubkey sample_owner = env_pubkey sample_update"
    by (simp_all add: sample_update_def sample_owner_def sample_reveal_def)
  have p: "same_owner_check sample_store sample_owner sample_update True = Ok Proceed"
    by (simp add: same_owner_check_def payload_signature_check_def sample_owner_def sample_update_def sample_reveal_def)
  obtain s' where a: "accept_record sample_store sample_backends 0 sample_krs sample_update = Some (Ok (), s')"
    "pending s' \<noteq> []"
    by (simp add: accept_record_def sample_krs_def sample_update_def sample_reveal_def sample_backends_simps
        HOUR_NANOS_def Let_def split: option.split)
  have "\<not> RESQUARING_EPOCH_KYNS < saturating_sub (saturating_sub (current_kyn sample_krs) (rv_kyn (standard_reveal sample_update)))
      (paused_since None (rv_kyn (standard_reveal sample_update)))"
    by (simp add: RESQUARING_EPOCH_KYNS_def sample_krs_def sample_update_def sample_reveal_def paused_since_def saturating_sub_def)
  then have h: "handle_put_record sample_store None sample_backends 0 sample_krs sample_update True = Some (Ok (), s')"
    using n(2) p a(1) by (simp add: handle_put_record_def Let_def n(1) sample_fallback del: env_simps)
  have ne: "s' \<noteq> sample_krs" using a(2) by (auto simp: sample_krs_def)
  have f: "get_fallback sample_store sample_backends sample_krs (env_name sample_update) = (Some sample_owner, sample_krs)"
    using sample_fallback by (simp only: n(1))
  from owner_update_ordered [OF h f n(2) ne] h ne show ?thesis by blast
qed

text \<open>C37. Heartbeats: processing a heartbeat never lowers or forgets the latest heartbeat of any
  name; when it changes one, the heartbeat is at most 2 kyns ahead of network time and its
  signature check against the stored owner succeeded.\<close>

theorem heartbeats_monotone:
  assumes "handle_process_heartbeat E B s hb = (x, s')"
  shows "(case last_heartbeats_by_name s n of None \<Rightarrow> True
      | Some k \<Rightarrow> (case last_heartbeats_by_name s' n of None \<Rightarrow> False | Some k' \<Rightarrow> k \<le> k'))
    \<and> (last_heartbeats_by_name s' = last_heartbeats_by_name s \<or>
       x = Ok () \<and> latest_kyn hb \<le> current_kyn s + 2
       \<and> (\<exists>ex. fst (get_fallback E B s (hb_name hb)) = Some ex \<and> heartbeat_signature_check E ex hb = Ok ()))"
  using handle_heartbeat_cases [OF assms]
proof
  assume "same_but_caches s s' \<and> storage s' = storage s"
  then have "last_heartbeats_by_name s' = last_heartbeats_by_name s" by (simp add: same_but_caches_def)
  then show ?thesis by (simp split: option.split)
next
  assume "x = Ok () \<and> heartbeat_applied E B s hb s'"
  then show ?thesis by (auto simp: heartbeat_applied_def split: option.splits)
qed

theorem heartbeats_monotone_witness:
  "let hb = \<lparr>hb_name = ''satoshi.kin'', latest_kyn = 1052, hb_owner_signature = [], hb_authorization = None\<rparr>;
       s' = snd (handle_process_heartbeat sample_store sample_backends sample_krs hb)
   in last_heartbeats_by_name s' ''satoshi.kin'' = Some 1052 \<and> latest_kyn hb \<le> current_kyn sample_krs + 2"
proof -
  let ?hb = "\<lparr>hb_name = ''satoshi.kin'', latest_kyn = 1052, hb_owner_signature = [], hb_authorization = None\<rparr>"
  obtain x s' where h: "handle_process_heartbeat sample_store sample_backends sample_krs ?hb = (x, s')" by force
  have "heartbeat_signature_check sample_store sample_owner ?hb = Ok ()"
    by (simp add: heartbeat_signature_check_def Let_def)
  then have "last_heartbeats_by_name s' ''satoshi.kin'' = Some 1052"
    using h sample_fallback by (auto simp: handle_process_heartbeat_def Let_def sample_krs_def)
  moreover have "last_heartbeats_by_name sample_krs ''satoshi.kin'' = Some 1000" by (simp add: sample_krs_def)
  ultimately show ?thesis using heartbeats_monotone [OF h, of "''satoshi.kin''"] h by (auto simp: Let_def)
qed

text \<open>Rate limit: with a well-behaved cache, accepting a record never panics; it is refused
  exactly when the limit is reached by the acceptances of the last hour, and otherwise the new
  acceptance joins them, so no name is accepted more often than the limit within an hour.\<close>

lemma rate_limit_exact:
  assumes "ts_laws B lk"
    and "dq = (case lk (accepted_reveals_timestamps s) (env_name rec) of None \<Rightarrow> [] | Some dq \<Rightarrow> dq)"
    and "sorted dq" and "\<forall>t\<in>set dq. t \<le> now"
  shows "let recent = filter (\<lambda>t. now - t \<le> HOUR_NANOS) dq in
    \<exists>x s'. accept_record E B now s rec = Some (x, s')
     \<and> (if max_reveals_per_hour s \<le> length recent
        then x = Err RateLimited \<and> lk (accepted_reveals_timestamps s') (env_name rec) = Some recent
        else x = Ok () \<and> lk (accepted_reveals_timestamps s') (env_name rec) = Some (recent @ [now])
          \<and> length (recent @ [now]) \<le> max_reveals_per_hour s)"
proof -
  have get: "ts_get_mut B (timestamps_of B s (env_name rec)) (env_name rec) = Some dq"
    using timestamps_lookup [OF assms(1)] assms(2) by simp
  have recent: "dropWhile (\<lambda>t. HOUR_NANOS < now - t) dq = filter (\<lambda>t. now - t \<le> HOUR_NANOS) dq"
    using assms(3,4) by (rule dropWhile_recent)
  show ?thesis
  proof (cases "max_reveals_per_hour s \<le> length (filter (\<lambda>t. now - t \<le> HOUR_NANOS) dq)")
    case True
    then show ?thesis
      using accept_record_limited [OF get, of now E] timestamps_write [OF assms(1)] by (simp add: recent Let_def)
  next
    case False
    then obtain c hbs ws where "accept_record E B now s rec = Some (Ok (), s\<lparr>
        accepted_reveals_timestamps := ts_write B (timestamps_of B s (env_name rec)) (env_name rec)
          (filter (\<lambda>t. now - t \<le> HOUR_NANOS) dq @ [now]),
        reveals_by_name := c,
        last_heartbeats_by_name := hbs(env_name rec \<mapsto> max (current_kyn s) (rv_kyn (standard_reveal rec))),
        pending := pending s @ [PutAll ws]\<rparr>)"
      using accept_record_accepted [OF get, of now E] unfolding recent by blast
    with False show ?thesis using timestamps_write [OF assms(1)] by (simp add: Let_def)
  qed
qed

text \<open>Rejections: a record the store refuses leaves the heartbeats, the memory store, the
  clock and the queue of writes untouched, unless the memory store itself refused it after
  acceptance; persistent storage is untouched too, unless the rejection is the rate limit.\<close>

lemma rejected_put_keeps_state:
  assumes "put_record_internal E G B now s r skip = Some (Err e, s')" and "e \<noteq> InternalStoreError"
  shows "same_but_caches s s' \<and> (storage s' = storage s \<or> e = RateLimited)"
proof -
  have raw: "e = InternalStoreError" if "then_store_raw B r (Ok (), a) = (Err e, s')" for a
    using that by (auto simp: then_store_raw_def store_raw_def Let_def map_err_def split: prod.splits sum.splits)
  have commit: "e = InternalStoreError" if "put_commitment B s r c = (Err e, s')" for c
    using that by (auto simp: put_commitment_def Let_def map_err_def split: prod.splits sum.splits)
  have chain: "x = Err e \<and> a = s'" if "then_store_raw B r (x, a) = (Err e, s')" for x a
    using that raw assms(2) by (cases x) (auto simp: then_store_raw_def)
  have name: "?thesis" if "handle_put_record E G B now s rec skip = Some (x, a)" "then_store_raw B r (x, a) = (Err e, s')" for rec x a
    using handle_put_Err chain [OF that(2)] that(1) by blast
  have hb: "?thesis" if "then_store_raw B r (handle_process_heartbeat E B s h) = (Err e, s')" for h
  proof -
    obtain x a where xa: "handle_process_heartbeat E B s h = (x, a)" by force
    then have "x = Err e" "a = s'" using chain that by auto
    with handle_heartbeat_cases [OF xa] show ?thesis by auto
  qed
  have kid: "?thesis" if "put_authorized_kid E B s r a = (Err e, s')" for a
  proof -
    obtain y s1 where gf: "get_fallback E B s (ak_name a) = (y, s1)" by force
    with that have "s1 = s'" using chain by (auto simp: put_authorized_kid_def Let_def)
    then show ?thesis using get_fallback_same [OF gf] by simp
  qed
  have man: "?thesis" if "put_authorized_manifest E B s r a = (Err e, s')" for a
  proof -
    obtain y s1 where gf: "get_fallback E B s (am_name a) = (y, s1)" by force
    with that have "s1 = s'" using chain by (auto simp: put_authorized_manifest_def Let_def)
    then show ?thesis using get_fallback_same [OF gf] by simp
  qed
  have route: "?thesis" if "then_store_raw B r (x, s) = (Err e, s')" for x
    using chain [OF that] by simp
  show ?thesis
    using assms commit name hb kid man route
    by (auto simp: put_record_internal_def split: if_splits option.splits)
qed

text \<open>Pruning: a cached name is dropped exactly when its proof is older than the re-squaring
  epoch or it has been idle for longer than the timeout; the heartbeats of exactly those names
  are forgotten, every other entry, the clock and storage are kept, and nothing that is left
  would be dropped by a second run.\<close>

lemma prune_exact:
  assumes "rv_laws B lk"
  shows "let s' = krs_prune E B s; gone = (\<exists>v. lk (reveals_by_name s) n = Some v \<and> expired_name s (n, v)) in
    lk (reveals_by_name s') n = (if gone then None else lk (reveals_by_name s) n)
    \<and> last_heartbeats_by_name s' n = (if gone then None else last_heartbeats_by_name s n)
    \<and> storage s' = storage s \<and> current_kyn s' = current_kyn s
    \<and> (\<nexists>v. lk (reveals_by_name s') n = Some v \<and> expired_name s' (n, v))"
proof -
  have "expired_name (krs_prune E B s) (n, v) = expired_name s (n, v)" if "n \<notin> set (expired_names B s)" for v
    using krs_prune_lookup [OF assms, of E s n] that by (simp add: expired_name_def)
  then show ?thesis
    using krs_prune_lookup [OF assms, of E s n] expired_names_iff [OF assms, of n s] by (auto simp: Let_def)
qed

text \<open>The engine behind a store with the sample backends is the browser engine.\<close>

lemma sample_storage_engine:
  "storage_engine sample_backends (\<lambda>s. map_of (db s)) (\<lambda>s. btree_wf (db s))"
proof -
  have ops: "st_put sample_backends = st_put (wasm_ops memory_file)" "st_get sample_backends = st_get (wasm_ops memory_file)"
    "st_delete sample_backends = st_delete (wasm_ops memory_file)"
    "st_scan_prefix sample_backends = st_scan_prefix (wasm_ops memory_file)"
    by (simp_all add: sample_backends_def storage_ops.defs backends.defs)
  show ?thesis
    using wasm.storage_engine_axioms [of memory_file] unfolding storage_engine_def ops .
qed

lemma get_u64_after_put:
  assumes "storage_engine B contents intact" and "intact st" and "st_put B st k (u64_to_be_bytes n) = (Ok u, st')"
    and "get_u64_from_db B st' k = Some m"
  shows "m = n"
proof -
  obtain b where b: "st_get B st' k = Inr (Some b)" "m = u64_from_be_bytes b"
    using assms(4) by (auto simp: get_u64_from_db_def split: sum.splits option.splits if_splits)
  then have "Some b = Some (u64_to_be_bytes n)"
    using storage_engine.get_after_put [OF assms(1-3)] by simp
  then show ?thesis by (simp add: b(2))
qed

text \<open>C3. Commit-reveal time lock: on any storage engine that keeps the engine contract, once a
  commitment has been recorded, a reveal of that commitment is refused until the minimum
  commitment age has passed, however old an earlier record of the same commitment was.\<close>

theorem commit_reveal_time_lock:
  assumes "storage_engine B contents intact" and "intact (storage s)" and "\<not> dev_mode E"
    and "fst (st_put B (storage s) (KRS_COMMIT_PREFIX @ cm_hash c) (u64_to_be_bytes (current_kyn s))) = Ok ()"
    and "put_commitment B s r c = (x, s')"
    and "hex_decode E (beacon_signature rv) = Some sig"
    and "derive E (NETWORK_SALT E) (rv_name rv) (rv_salt rv) sig (rv_pubkey rv) = c"
    and "verify_reveal E G B (storage s') rv t = Ok ()"
  shows "MINIMUM_COMMIT_AGE_KYNS E \<le> saturating_sub t (current_kyn s)"
proof -
  obtain st1 where p: "st_put B (storage s) (KRS_COMMIT_PREFIX @ cm_hash c) (u64_to_be_bytes (current_kyn s)) = (Ok (), st1)"
    using assms(4) by (metis prod.collapse)
  with assms(5) have st: "storage s' = st1" by (auto simp: put_commitment_def Let_def split: prod.splits)
  obtain committed where "get_u64_from_db B st1 (KRS_COMMIT_PREFIX @ cm_hash c) = Some committed"
    "MINIMUM_COMMIT_AGE_KYNS E \<le> saturating_sub t committed"
    using assms(8) unfolding verify_reveal_Ok [OF assms(3)] st assms(6) option.inject by (auto simp: assms(7))
  with get_u64_after_put [OF assms(1,2) p] show ?thesis by blast
qed


theorem commit_reveal_time_lock_witness:
  "let s = sample_krs\<lparr>current_kyn := 900\<rparr>;
       c = derive sample_store (NETWORK_SALT sample_store) (rv_name sample_reveal) (rv_salt sample_reveal)
             (replicate 96 0) (rv_pubkey sample_reveal);
       s' = snd (put_commitment sample_backends s \<lparr>kr_key = [], kr_value = []\<rparr> c)
   in verify_reveal sample_store None sample_backends (storage s') sample_reveal 1000 = Ok ()
     \<and> MINIMUM_COMMIT_AGE_KYNS sample_store \<le> saturating_sub 1000 (current_kyn s)"
proof -
  let ?s = "sample_krs\<lparr>current_kyn := 900\<rparr>" and ?r = "\<lparr>kr_key = [], kr_value = []\<rparr>"
  define c where "c = derive sample_store (NETWORK_SALT sample_store) (rv_name sample_reveal) (rv_salt sample_reveal)
             (replicate 96 0) (rv_pubkey sample_reveal)"
  have key: "sample_commit_key = KRS_COMMIT_PREFIX @ cm_hash c" by (simp add: sample_commit_key_def c_def)
  obtain x s' where pc: "put_commitment sample_backends ?s ?r c = (x, s')" by force
  have put: "st_put sample_backends (storage ?s) (KRS_COMMIT_PREFIX @ cm_hash c) (u64_to_be_bytes (current_kyn ?s))
      = (Ok (), \<lparr>db = [(KRS_COMMIT_PREFIX @ cm_hash c, u64_to_be_bytes 900)], opfs_handle = None\<rparr>)"
    by (simp add: sample_backends_simps sample_krs_def storage_new_def storage_put_def append_to_log_def)
  have "storage s' = \<lparr>db = [(KRS_COMMIT_PREFIX @ cm_hash c, u64_to_be_bytes 900)], opfs_handle = None\<rparr>"
    using pc put by (auto simp: put_commitment_def Let_def split: prod.splits)
  then have "get_u64_from_db sample_backends (storage s') sample_commit_key = Some 900"
    by (simp add: get_u64_from_db_def sample_backends_simps storage_get_def key)
  then have v: "verify_reveal sample_store None sample_backends (storage s') sample_reveal 1000 = Ok ()"
    by (rule sample_reveal_accepted)
  have "btree_wf (db (storage ?s))" by (simp add: sample_krs_def storage_new_def btree_wf_def)
  then have "MINIMUM_COMMIT_AGE_KYNS sample_store \<le> saturating_sub 1000 (current_kyn ?s)"
    using put pc v c_def
    by (intro commit_reveal_time_lock [OF sample_storage_engine, of ?s sample_store c ?r x s' sample_reveal "replicate 96 0" None 1000])
       (simp_all add: sample_store_simps)
  with v pc show ?thesis by (simp add: Let_def c_def)
qed

section \<open>Consequences of the dispatch order\<close>

text \<open>The dispatch on \<open>kyn\<close> comes before the one on \<open>host_id\<close>: a host route, whose JSON has both
  fields, is decoded as a name record and rejected.\<close>

lemma host_route_rejected:
  assumes "length (kr_value r) \<le> STORAGE_MAX_VALUE_BYTES E" and "json_has_field E (kr_value r) = Some has"
    and "has ''kyn''" "has ''host_id''" "\<not> has ''hash''" and "value_name_envelope E (kr_value r) = None"
  shows "put_record_internal E G B now s r skip = Some (Err SchemaValidationError, s)"
  using assms by (simp add: put_record_internal_def)

text \<open>Identity documents are dispatched on a field \<open>delegation_signature\<close>, which \<open>AuthorizedKid\<close>
  (fields \<open>name\<close>, \<open>kid_doc\<close>, \<open>owner_signature\<close>) does not have: they are rejected as unknown.\<close>

lemma authorized_kid_rejected:
  assumes "length (kr_value r) \<le> STORAGE_MAX_VALUE_BYTES E"
    and "json_has_field E (kr_value r) = Some (\<lambda>f. f \<in> {''name'', ''kid_doc'', ''owner_signature''})"
  shows "put_record_internal E G B now s r skip = Some (Err UnknownRecordType, s)"
  using assms by (simp add: put_record_internal_def)

text \<open>A takeover that the rate limit then rejects has already deleted the records of the owner.\<close>

lemma limited_takeover_deletes:
  assumes "skip \<or> verify_reveal E G B (storage s) (standard_reveal rec) (current_kyn s) = Ok ()"
    and "\<not> RESQUARING_EPOCH_KYNS < saturating_sub (saturating_sub (current_kyn s) (rv_kyn (standard_reveal rec)))
           (paused_since G (rv_kyn (standard_reveal rec)))"
    and ex: "get_fallback E B s (env_name rec) = (Some ex, s1)" and "env_pubkey ex \<noteq> env_pubkey rec"
    and "takeover_check E s (standard_reveal ex) (standard_reveal rec) = Ok ()"
    and get: "ts_get_mut B (timestamps_of B s (env_name rec)) (env_name rec) = Some dq"
    and full: "max_reveals_per_hour s \<le> length (dropWhile (\<lambda>t. HOUR_NANOS < now - t) dq)"
  shows "\<exists>s'. handle_put_record E G B now s rec skip = Some (Err RateLimited, s')
    \<and> storage s' = takeover_cleanup E B (rv_name (standard_reveal rec)) (storage s)"
proof -
  let ?s = "s1\<lparr>storage := takeover_cleanup E B (rv_name (standard_reveal rec)) (storage s1)\<rparr>"
  note f = get_fallback_frame [OF ex]
  have t: "takeover_check E s1 (standard_reveal ex) (standard_reveal rec) = Ok ()"
    using assms(5) f by (simp add: takeover_check_def heartbeat_age_def)
  have "ts_get_mut B (timestamps_of B ?s (env_name rec)) (env_name rec) = Some dq"
    using get f by (simp add: timestamps_of_def)
  from accept_record_limited [OF this, of now E] full f
  have "\<exists>s'. accept_record E B now ?s rec = Some (Err RateLimited, s')
      \<and> storage s' = takeover_cleanup E B (rv_name (standard_reveal rec)) (storage s)" by simp
  moreover have "handle_put_record E G B now s rec skip = accept_record E B now ?s rec"
    using assms(1,2,4) ex t by (auto simp: handle_put_record_def Let_def simp del: env_simps)
  ultimately show ?thesis by simp
qed

end
