(* ===== verification/Net_Security.thy ===== *)
theory Net_Security
  imports Prelude
begin

text \<open>
  \<open>kinetic-core/src/net.rs\<close> (the SSRF filter of the HTTP proxies) and
  \<open>kinetic-network/src/peer_registry.rs\<close> (the cache of dialable public peers), with the address
  classes of \<open>std::net\<close> they call. The specification is the usual one: an address is a bit
  string, a block \<open>net/len\<close> contains the addresses that agree with \<open>net\<close> on the first \<open>len\<close> bits.
\<close>

unbundle bit_operations_syntax

section \<open>Addresses of std::net\<close>

datatype ipv4 = Ipv4 u8 u8 u8 u8
datatype ipv6 = Ipv6 u16 u16 u16 u16 u16 u16 u16 u16
datatype ip_addr = V4 ipv4 | V6 ipv6

fun octets :: "ipv4 \<Rightarrow> u8 list" where
  "octets (Ipv4 a b c d) = [a, b, c, d]"

fun segments :: "ipv6 \<Rightarrow> u16 list" where
  "segments (Ipv6 a b c d e f g h) = [a, b, c, d, e, f, g, h]"

fun v4_is_loopback :: "ipv4 \<Rightarrow> bool" where "v4_is_loopback (Ipv4 a b c d) = (a = 127)"
fun v4_is_unspecified :: "ipv4 \<Rightarrow> bool" where
  "v4_is_unspecified (Ipv4 a b c d) = (a = 0 \<and> b = 0 \<and> c = 0 \<and> d = 0)"
fun v4_is_private :: "ipv4 \<Rightarrow> bool" where
  "v4_is_private (Ipv4 a b c d) = (a = 10 \<or> a = 172 \<and> 16 \<le> b \<and> b \<le> 31 \<or> a = 192 \<and> b = 168)"
fun v4_is_link_local :: "ipv4 \<Rightarrow> bool" where "v4_is_link_local (Ipv4 a b c d) = (a = 169 \<and> b = 254)"
fun v4_is_broadcast :: "ipv4 \<Rightarrow> bool" where
  "v4_is_broadcast (Ipv4 a b c d) = (a = 255 \<and> b = 255 \<and> c = 255 \<and> d = 255)"
fun v4_is_multicast :: "ipv4 \<Rightarrow> bool" where "v4_is_multicast (Ipv4 a b c d) = (224 \<le> a \<and> a \<le> 239)"
fun v4_is_documentation :: "ipv4 \<Rightarrow> bool" where
  "v4_is_documentation (Ipv4 a b c d) =
     (a = 192 \<and> b = 0 \<and> c = 2 \<or> a = 198 \<and> b = 51 \<and> c = 100 \<or> a = 203 \<and> b = 0 \<and> c = 113)"

definition v6_is_loopback :: "ipv6 \<Rightarrow> bool" where "v6_is_loopback ip = (segments ip = [0, 0, 0, 0, 0, 0, 0, 1])"
definition v6_is_unspecified :: "ipv6 \<Rightarrow> bool" where "v6_is_unspecified ip = (segments ip = [0, 0, 0, 0, 0, 0, 0, 0])"
definition v6_is_multicast :: "ipv6 \<Rightarrow> bool" where "v6_is_multicast ip = (segments ip ! 0 AND 0xff00 = 0xff00)"

fun to_ipv4_mapped :: "ipv6 \<Rightarrow> ipv4 option" where
  "to_ipv4_mapped (Ipv6 a b c d e f g h) =
     (if a = 0 \<and> b = 0 \<and> c = 0 \<and> d = 0 \<and> e = 0 \<and> f = 0xffff
      then Some (Ipv4 (ucast (drop_bit 8 g)) (ucast g) (ucast (drop_bit 8 h)) (ucast h)) else None)"

section \<open>The SSRF filter (net.rs)\<close>

datatype security_error =
    Loopback | Private | Unspecified | CgNat | LocalNetworkRouting | Ipv6MappedExploit | Nat64 | Reserved
  | NrsSsrfBlocked | PathTraversalAttempt | SecPayloadTooLarge | InvalidMethod | BackendResponseTooLarge
  | DangerousIpBlocked | DevModePrivateIp | ProxyLoop

function validate_ssrf_safe :: "ip_addr \<Rightarrow> (security_error, unit) result" where
  "validate_ssrf_safe (V4 v4) =
     reject_if (v4_is_loopback v4) Loopback
    (reject_if (v4_is_unspecified v4) Unspecified
    (reject_if (v4_is_private v4) Private
    (reject_if (v4_is_link_local v4 \<or> v4_is_broadcast v4 \<or> v4_is_multicast v4) LocalNetworkRouting
    (reject_if (v4_is_documentation v4) Reserved
    (reject_if (octets v4 ! 0 = 0) Reserved
    (reject_if (octets v4 ! 0 = 100 \<and> octets v4 ! 1 AND 0xC0 = 64) CgNat
    (Ok ())))))))"
| "validate_ssrf_safe (V6 v6) =
     reject_if (v6_is_loopback v6) Loopback
    (reject_if (v6_is_unspecified v6) Unspecified
    (reject_if (v6_is_multicast v6) LocalNetworkRouting
    (let s = segments v6 in
     reject_if (s ! 0 AND 0xffc0 = 0xfe80) LocalNetworkRouting
    (reject_if (s ! 0 AND 0xfe00 = 0xfc00) Private
    (reject_if (s ! 0 = 0 \<and> s ! 1 = 0 \<and> s ! 2 = 0 \<and> s ! 3 = 0 \<and> s ! 4 = 0 \<and> s ! 5 = 0) Ipv6MappedExploit
    (reject_if (case to_ipv4_mapped v6 of Some v4_mapped \<Rightarrow> is_err (validate_ssrf_safe (V4 v4_mapped)) | None \<Rightarrow> False)
       Ipv6MappedExploit
    (reject_if (s ! 0 = 0x0064 \<and> s ! 1 = 0xff9b \<and> s ! 2 = 0 \<and> s ! 3 = 0 \<and> s ! 4 = 0 \<and> s ! 5 = 0) Nat64
    (Ok ()))))))))"
  by pat_completeness auto
termination
  by (relation "measure (\<lambda>ip. case ip of V4 _ \<Rightarrow> 0 | V6 _ \<Rightarrow> 1)") auto

section \<open>The peer registry (peer\_registry.rs)\<close>

datatype protocol =
    Ip4 ipv4 | Ip6 ipv6 | Memory u64 | Dns string | Dns4 string | Dns6 string | OtherProtocol bytes

type_synonym multiaddr = "protocol list"

definition private_octets :: "u8 list \<Rightarrow> bool" where
  "private_octets oc = (oc ! 0 = 10 \<or> (oc ! 0 = 172 \<and> 16 \<le> oc ! 1 \<and> oc ! 1 \<le> 31) \<or> (oc ! 0 = 192 \<and> oc ! 1 = 168))"

fun public_loop :: "bool \<Rightarrow> multiaddr \<Rightarrow> bool" where
  "public_loop has_public [] = has_public"
| "public_loop has_public (Ip4 ip # rest) =
     (if v4_is_loopback ip \<or> v4_is_unspecified ip \<or> v4_is_broadcast ip then False
      else if private_octets (octets ip) then False
      else if octets ip ! 0 = 169 \<and> octets ip ! 1 = 254 then False
      else if octets ip ! 0 = 100 \<and> octets ip ! 1 AND 0xC0 = 0x40 then False
      else if 224 \<le> octets ip ! 0 then False
      else public_loop True rest)"
| "public_loop has_public (Ip6 ip # rest) =
     (if v6_is_loopback ip \<or> v6_is_unspecified ip then False
      else if segments ip ! 0 AND 0xfe00 = 0xfc00 then False
      else if segments ip ! 0 AND 0xffc0 = 0xfe80 then False
      else if segments ip ! 0 AND 0xff00 = 0xff00 then False
      else public_loop True rest)"
| "public_loop has_public (_ # rest) = public_loop has_public rest"

definition is_public_addr :: "multiaddr \<Rightarrow> bool" where
  "is_public_addr addr = public_loop False addr"

text \<open>The \<open>lru\<close> cache is a parameter: its insertion and its read that marks an entry as used.\<close>

definition add_verified_peer ::
  "('c \<Rightarrow> 'p \<Rightarrow> multiaddr list \<Rightarrow> 'c) \<Rightarrow> 'c \<Rightarrow> 'p \<Rightarrow> multiaddr list \<Rightarrow> bool \<times> 'c" where
  "add_verified_peer lru_put cache peer addrs =
     (let public_addrs = filter is_public_addr addrs
      in if public_addrs \<noteq> [] then (True, lru_put cache peer public_addrs) else (False, cache))"

definition mark_connected :: "('c \<Rightarrow> 'p \<Rightarrow> 'v option \<times> 'c) \<Rightarrow> 'c \<Rightarrow> 'p \<Rightarrow> 'c" where
  "mark_connected lru_get cache peer = snd (lru_get cache peer)"

datatype p2p_error =
    UnroutableSeedMultiaddr string | ZeroPeersDetected | GossipSpamBan string | RecordSpamBan string
  | OfflineVerifyQuorum | MdnsBindFailed string | GossipSemaphoreSaturated string string
  | KademliaRecordSpamBan string | OutgoingConnectionError string string
  | BootstrapDialFailed string string | BannedPeerConnectionAttempt string
  | BootstrapChallengeTimeout string | PeerRegistryCorruption string | PeerRegistrySerialization string

record ('p, 'c) registry_env =
  registry_data :: "bytes \<Rightarrow> (string, (bytes \<times> bytes list) list) result"
  registry_to_vec :: "(bytes \<times> bytes list) list \<Rightarrow> (string, bytes) result"
  peer_from_bytes :: "bytes \<Rightarrow> 'p option"
  peer_to_bytes :: "'p \<Rightarrow> bytes"
  addr_from_bytes :: "bytes \<Rightarrow> multiaddr option"
  addr_to_vec :: "multiaddr \<Rightarrow> bytes"
  pr_new :: "nat \<Rightarrow> 'c"
  pr_put :: "'c \<Rightarrow> 'p \<Rightarrow> multiaddr list \<Rightarrow> 'c"
  pr_iter :: "'c \<Rightarrow> ('p \<times> multiaddr list) list"

definition registry_new :: "('p, 'c, 'y) registry_env_scheme \<Rightarrow> nat \<Rightarrow> 'c" where
  "registry_new R capacity = pr_new R (if capacity = 0 then 500 else capacity)"

fun load_peers ::
  "('p, 'c, 'y) registry_env_scheme \<Rightarrow> (bytes \<times> bytes list) list \<Rightarrow> 'c \<Rightarrow> (p2p_error, 'c) result" where
  "load_peers R [] cache = Ok cache"
| "load_peers R ((peer_bytes, addrs_bytes) # rest) cache =
     (case peer_from_bytes R peer_bytes of
        Some peer \<Rightarrow>
          (let addrs = List.map_filter (addr_from_bytes R) addrs_bytes
           in load_peers R rest (if addrs \<noteq> [] then pr_put R cache peer addrs else cache))
      | None \<Rightarrow> Err (PeerRegistryCorruption ''Invalid PeerId bytes''))"

definition registry_from_bytes :: "('p, 'c, 'y) registry_env_scheme \<Rightarrow> nat \<Rightarrow> bytes \<Rightarrow> (p2p_error, 'c) result" where
  "registry_from_bytes R capacity data =
     and_then (map_err PeerRegistryCorruption (registry_data R data)) (\<lambda>peers.
       load_peers R peers (registry_new R capacity))"

definition registry_to_bytes :: "('p, 'c, 'y) registry_env_scheme \<Rightarrow> 'c \<Rightarrow> (p2p_error, bytes) result" where
  "registry_to_bytes R cache =
     map_err PeerRegistrySerialization (registry_to_vec R
       (map (\<lambda>(peer, addrs). (peer_to_bytes R peer, map (addr_to_vec R) addrs)) (pr_iter R cache)))"

section \<open>Blocks\<close>

definition word_bits :: "'a::len word \<Rightarrow> bool list" where
  "word_bits w = rev (map (bit w) [0..<LENGTH('a)])"

fun v4_bits :: "ipv4 \<Rightarrow> bool list" where
  "v4_bits (Ipv4 a b c d) = word_bits a @ word_bits b @ word_bits c @ word_bits d"

fun v6_bits :: "ipv6 \<Rightarrow> bool list" where
  "v6_bits (Ipv6 a b c d e f g h) = word_bits a @ word_bits b @ word_bits c @ word_bits d
     @ word_bits e @ word_bits f @ word_bits g @ word_bits h"

definition in_block :: "('a \<Rightarrow> bool list) \<Rightarrow> 'a \<Rightarrow> 'a \<times> nat \<Rightarrow> bool" where
  "in_block bits ip blk = (take (snd blk) (bits ip) = take (snd blk) (bits (fst blk)))"

definition forbidden_v4 :: "(ipv4 \<times> nat) list" where
  "forbidden_v4 =
     [(Ipv4 127 0 0 0, 8), (Ipv4 0 0 0 0, 8), (Ipv4 10 0 0 0, 8), (Ipv4 172 16 0 0, 12),
      (Ipv4 192 168 0 0, 16), (Ipv4 169 254 0 0, 16), (Ipv4 255 255 255 255, 32), (Ipv4 224 0 0 0, 4),
      (Ipv4 192 0 2 0, 24), (Ipv4 198 51 100 0, 24), (Ipv4 203 0 113 0, 24), (Ipv4 100 64 0 0, 10)]"

definition forbidden_v6 :: "(ipv6 \<times> nat) list" where
  "forbidden_v6 =
     [(Ipv6 0xff00 0 0 0 0 0 0 0, 8), (Ipv6 0xfe80 0 0 0 0 0 0 0, 10), (Ipv6 0xfc00 0 0 0 0 0 0 0, 7),
      (Ipv6 0 0 0 0 0 0 0 0, 96), (Ipv6 0x64 0xff9b 0 0 0 0 0 0, 96)]"

lemma length_word_bits [simp]: "length (word_bits (w :: 'a::len word)) = LENGTH('a)"
  by (simp add: word_bits_def)

lemma take_word_bits:
  "n \<le> LENGTH('a) \<Longrightarrow> take n (word_bits (w :: 'a::len word)) = rev (map (bit w) [LENGTH('a) - n..<LENGTH('a)])"
  by (simp add: word_bits_def take_rev drop_map)

text \<open>Agreement on a prefix of the bits of one word, as a division and as the masks of the code.\<close>

lemma high_bits_eq:
  "(\<forall>i\<in>{k..<LENGTH('a)}. bit w i = bit c i) \<longleftrightarrow> drop_bit k w = drop_bit k (c :: 'a::len word)"
proof
  assume "drop_bit k w = drop_bit k c"
  then have eq: "bit (drop_bit k w) i = bit (drop_bit k c) i" for i by simp
  show "\<forall>i\<in>{k..<LENGTH('a)}. bit w i = bit c i"
  proof
    fix i assume "i \<in> {k..<LENGTH('a)}"
    then show "bit w i = bit c i" using eq [of "i - k"] by (simp add: bit_drop_bit_eq)
  qed
next
  assume high: "\<forall>i\<in>{k..<LENGTH('a)}. bit w i = bit c i"
  show "drop_bit k w = drop_bit k c"
  proof (rule bit_eqI)
    fix n
    show "bit (drop_bit k w) n = bit (drop_bit k c) n"
      using high bit_imp_le_length [of w "k + n"] bit_imp_le_length [of c "k + n"]
      by (auto simp: bit_drop_bit_eq)
  qed
qed

lemma drop_bit_eq_unat: "drop_bit k w = drop_bit k c \<longleftrightarrow> unat w div 2 ^ k = unat (c :: 'a::len word) div 2 ^ k"
proof -
  have "unat (drop_bit k x) = unat x div 2 ^ k" for x :: "'a word"
    using drop_bit_eq_div [of k "unat x"] by (simp only: unat_drop_bit_eq)
  then show ?thesis by (simp only: word_eq_iff_unsigned [where ?'a = nat])
qed

lemma word_prefix:
  assumes "n \<le> LENGTH('a)"
  shows "take n (word_bits w) = take n (word_bits (c :: 'a::len word))
    \<longleftrightarrow> unat (w :: 'a word) div 2 ^ (LENGTH('a) - n) = unat c div 2 ^ (LENGTH('a) - n)"
proof -
  have "take n (word_bits w) = take n (word_bits c) \<longleftrightarrow> (\<forall>i\<in>{LENGTH('a) - n..<LENGTH('a)}. bit w i = bit c i)"
    using assms by (simp only: take_word_bits rev_is_rev_conv map_eq_conv set_upt)
  then show ?thesis by (simp add: high_bits_eq drop_bit_eq_unat)
qed

lemma word_bits_eq [simp]: "word_bits (w :: 'a::len word) = word_bits c \<longleftrightarrow> w = (c :: 'a word)"
  using word_prefix [of "LENGTH('a)" w c] by (simp add: word_eq_iff_unsigned [where ?'a = nat])

lemma mask_prefix:
  "w AND NOT (mask k) = c AND NOT (mask k) \<longleftrightarrow> unat w div 2 ^ k = unat (c :: 'a::len word) div 2 ^ k"
proof -
  have "w AND NOT (mask k) = c AND NOT (mask k) \<longleftrightarrow> (\<forall>i\<in>{k..<LENGTH('a)}. bit w i = bit c i)"
    by (auto simp: bit_eq_iff bit_simps)
  then show ?thesis by (simp add: high_bits_eq drop_bit_eq_unat)
qed

lemma octet_mask: "b AND 0xC0 = (64 :: u8) \<longleftrightarrow> unat b div 64 = 1"
proof -
  have "(0xC0 :: u8) = NOT (mask 6)" "(64 :: u8) AND NOT (mask 6) = 64" by code_simp+
  with mask_prefix [of b 6 64] show ?thesis by simp
qed

lemma segment_masks:
  "s AND 0xff00 = (0xff00 :: u16) \<longleftrightarrow> unat s div 256 = 255"
  "s AND 0xffc0 = (0xfe80 :: u16) \<longleftrightarrow> unat s div 64 = 1018"
  "s AND 0xfe00 = (0xfc00 :: u16) \<longleftrightarrow> unat s div 512 = 126"
proof -
  have m: "(0xff00 :: u16) = NOT (mask 8)" "(0xffc0 :: u16) = NOT (mask 6)" "(0xfe00 :: u16) = NOT (mask 9)"
    and c: "(0xff00 :: u16) AND NOT (mask 8) = 0xff00" "(0xfe80 :: u16) AND NOT (mask 6) = 0xfe80"
      "(0xfc00 :: u16) AND NOT (mask 9) = 0xfc00"
    by code_simp+
  show "s AND 0xff00 = 0xff00 \<longleftrightarrow> unat s div 256 = 255"
    using mask_prefix [of s 8 "0xff00"] unfolding c m(1) [symmetric] by simp
  show "s AND 0xffc0 = 0xfe80 \<longleftrightarrow> unat s div 64 = 1018"
    using mask_prefix [of s 6 "0xfe80"] unfolding c m(2) [symmetric] by simp
  show "s AND 0xfe00 = 0xfc00 \<longleftrightarrow> unat s div 512 = 126"
    using mask_prefix [of s 9 "0xfc00"] unfolding c m(3) [symmetric] by simp
qed

lemma unat_numeral_u8:
  "unat (16 :: u8) = 16" "unat (31 :: u8) = 31" "unat (224 :: u8) = 224" "unat (239 :: u8) = 239"
  by simp_all

lemma octet_ranges:
  "16 \<le> b \<and> b \<le> (31 :: u8) \<longleftrightarrow> unat b div 16 = 1"
  "224 \<le> b \<and> b \<le> (239 :: u8) \<longleftrightarrow> unat b div 16 = 14"
proof -
  have "16 \<le> x \<and> x \<le> 31 \<longleftrightarrow> x div 16 = 1" "224 \<le> x \<and> x \<le> 239 \<longleftrightarrow> x div 16 = 14" for x :: nat
  proof -
    have "x = 16 * (x div 16) + x mod 16" "x mod 16 < 16" by simp_all
    then show "16 \<le> x \<and> x \<le> 31 \<longleftrightarrow> x div 16 = 1" "224 \<le> x \<and> x \<le> 239 \<longleftrightarrow> x div 16 = 14" by linarith+
  qed
  from this [of "unat b"] show "16 \<le> b \<and> b \<le> (31 :: u8) \<longleftrightarrow> unat b div 16 = 1"
    "224 \<le> b \<and> b \<le> (239 :: u8) \<longleftrightarrow> unat b div 16 = 14"
    unfolding word_le_nat_alt by (simp_all only: unat_numeral_u8)
qed

lemma v4_block:
  "in_block v4_bits (Ipv4 a b c d) (Ipv4 a' b' c' d', n) \<longleftrightarrow>
     take n (word_bits a) = take n (word_bits a') \<and> take (n - 8) (word_bits b) = take (n - 8) (word_bits b')
     \<and> take (n - 16) (word_bits c) = take (n - 16) (word_bits c') \<and> take (n - 24) (word_bits d) = take (n - 24) (word_bits d')"
  by (simp add: in_block_def)

lemma v6_block:
  "in_block v6_bits (Ipv6 a b c d e f g h) (Ipv6 a' b' c' d' e' f' g' h', n) \<longleftrightarrow>
     take n (word_bits a) = take n (word_bits a') \<and> take (n - 16) (word_bits b) = take (n - 16) (word_bits b')
     \<and> take (n - 32) (word_bits c) = take (n - 32) (word_bits c') \<and> take (n - 48) (word_bits d) = take (n - 48) (word_bits d')
     \<and> take (n - 64) (word_bits e) = take (n - 64) (word_bits e') \<and> take (n - 80) (word_bits f) = take (n - 80) (word_bits f')
     \<and> take (n - 96) (word_bits g) = take (n - 96) (word_bits g') \<and> take (n - 112) (word_bits h) = take (n - 112) (word_bits h')"
  by (simp add: in_block_def)

lemma validate_v4_Ok:
  "validate_ssrf_safe (V4 ip) = Ok () \<longleftrightarrow> \<not> list_ex (in_block v4_bits ip) forbidden_v4"
proof (cases ip)
  case (Ipv4 a b c d)
  show ?thesis
    unfolding Ipv4 forbidden_v4_def
    by (simp add: v4_block word_prefix result_simps octet_mask octet_ranges [simplified conj_assoc]) blast
qed


lemma upt_16: "[0..<16] = [0, 1, 2, 3, 4, 5, 6, 7, 8, 9, 10, 11, 12, 13, 14, 15 :: nat]"
  "[0..<8] = [0, 1, 2, 3, 4, 5, 6, 7 :: nat]"
  by (simp_all add: upt_rec)

lemma word_bits_split: "word_bits (g :: u16) = word_bits (ucast (drop_bit 8 g) :: u8) @ word_bits (ucast g :: u8)"
  by (simp add: word_bits_def upt_16 bit_ucast_iff bit_drop_bit_eq)

lemma word_bits_const:
  "word_bits (0 :: u16) = replicate 16 False" "word_bits (0xffff :: u16) = replicate 16 True"
proof -
  show "word_bits (0 :: u16) = replicate 16 False" by (simp add: word_bits_def upt_16 numeral_eq_Suc)
  have "(0xffff :: u16) = mask 16" by (simp add: mask_eq_exp_minus_1)
  then show "word_bits (0xffff :: u16) = replicate 16 True"
    by (simp add: word_bits_def upt_16 bit_mask_iff numeral_eq_Suc)
qed

lemma length_v4_bits [simp]: "length (v4_bits v4) = 32"
  by (cases v4) simp

lemma v4_bits_eq [simp]: "v4_bits a = v4_bits b \<longleftrightarrow> a = b"
  by (cases a; cases b) simp

definition mapped_prefix :: "bool list" where
  "mapped_prefix = replicate 80 False @ replicate 16 True"

lemma mapped_iff: "to_ipv4_mapped ip = Some v4 \<longleftrightarrow> v6_bits ip = mapped_prefix @ v4_bits v4"
proof (cases ip)
  case (Ipv6 a b c d e f g h)
  have p: "mapped_prefix = word_bits (0::u16) @ word_bits (0::u16) @ word_bits (0::u16) @ word_bits (0::u16)
      @ word_bits (0::u16) @ word_bits (0xffff::u16)"
    by (simp add: mapped_prefix_def word_bits_const flip: replicate_add append_assoc)
  have t: "word_bits g @ word_bits h = v4_bits (Ipv4 (ucast (drop_bit 8 g)) (ucast g) (ucast (drop_bit 8 h)) (ucast h))"
    by (simp add: word_bits_split [of g] word_bits_split [of h])
  have "v6_bits ip = mapped_prefix @ v4_bits v4 \<longleftrightarrow>
      a = 0 \<and> b = 0 \<and> c = 0 \<and> d = 0 \<and> e = 0 \<and> f = 0xffff \<and> word_bits g @ word_bits h = v4_bits v4"
    unfolding Ipv6 p by simp
  then show ?thesis unfolding t v4_bits_eq by (auto simp: Ipv6 simp del: v4_bits.simps v6_bits.simps)
qed

lemma segments_nth:
  "segments (Ipv6 a b c d e f g h) ! 0 = a" "segments (Ipv6 a b c d e f g h) ! 1 = b"
  "segments (Ipv6 a b c d e f g h) ! 2 = c" "segments (Ipv6 a b c d e f g h) ! 3 = d"
  "segments (Ipv6 a b c d e f g h) ! 4 = e" "segments (Ipv6 a b c d e f g h) ! 5 = f"
  by simp_all

lemma validate_v6_Ok:
  "validate_ssrf_safe (V6 ip) = Ok () \<longleftrightarrow> \<not> list_ex (in_block v6_bits ip) forbidden_v6
    \<and> (\<forall>v4. to_ipv4_mapped ip = Some v4 \<longrightarrow> validate_ssrf_safe (V4 v4) = Ok ())"
proof -
  have m: "\<not> (case x of Some v4 \<Rightarrow> is_err (validate_ssrf_safe (V4 v4)) | None \<Rightarrow> False)
      \<longleftrightarrow> (\<forall>v4. x = Some v4 \<longrightarrow> validate_ssrf_safe (V4 v4) = Ok ())" for x
    by (cases x) (simp_all add: is_err_def is_ok_unit)
  obtain a b c d e f g h where ip: "ip = Ipv6 a b c d e f g h" by (cases ip)
  have blocks: "list_ex (in_block v6_bits ip) forbidden_v6 \<longleftrightarrow>
      unat a div 256 = 255 \<or> unat a div 64 = 1018 \<or> unat a div 512 = 126
      \<or> a = 0 \<and> b = 0 \<and> c = 0 \<and> d = 0 \<and> e = 0 \<and> f = 0
      \<or> a = 0x64 \<and> b = 0xff9b \<and> c = 0 \<and> d = 0 \<and> e = 0 \<and> f = 0"
    unfolding ip forbidden_v6_def by (simp add: v6_block word_prefix)
  have "validate_ssrf_safe (V6 ip) = Ok () \<longleftrightarrow>
      \<not> (unat a div 256 = 255 \<or> unat a div 64 = 1018 \<or> unat a div 512 = 126
      \<or> a = 0 \<and> b = 0 \<and> c = 0 \<and> d = 0 \<and> e = 0 \<and> f = 0
      \<or> a = 0x64 \<and> b = 0xff9b \<and> c = 0 \<and> d = 0 \<and> e = 0 \<and> f = 0)
      \<and> (\<forall>v4. to_ipv4_mapped ip = Some v4 \<longrightarrow> validate_ssrf_safe (V4 v4) = Ok ())"
    unfolding validate_ssrf_safe.simps(2) Let_def reject_if_Ok m
    unfolding ip v6_is_loopback_def v6_is_unspecified_def v6_is_multicast_def segments_nth segment_masks
    by (simp only: segments.simps list.inject) blast
  with blocks show ?thesis by simp
qed


section \<open>Correctness of the address filters\<close>

text \<open>The SSRF filter: an IPv4 address passes exactly when it lies in none of the forbidden blocks;
  an IPv6 address passes exactly when it lies in none of the forbidden IPv6 blocks and, if it is
  an IPv4-mapped address, the embedded IPv4 address lies in none of the forbidden IPv4 blocks.\<close>

lemma ssrf_filter_exact:
  "validate_ssrf_safe ip = Ok () \<longleftrightarrow>
     (case ip of
        V4 v4 \<Rightarrow> (\<forall>blk\<in>set forbidden_v4. \<not> in_block v4_bits v4 blk)
      | V6 v6 \<Rightarrow> (\<forall>blk\<in>set forbidden_v6. \<not> in_block v6_bits v6 blk)
          \<and> (\<forall>v4. v6_bits v6 = replicate 80 False @ replicate 16 True @ v4_bits v4
               \<longrightarrow> (\<forall>blk\<in>set forbidden_v4. \<not> in_block v4_bits v4 blk)))"
proof (cases ip)
  case (V4 v4)
  then show ?thesis by (simp only: validate_v4_Ok list_ex_iff ip_addr.case) blast
next
  case (V6 v6)
  then show ?thesis
    using mapped_iff [of v6]
    by (simp only: validate_v6_Ok validate_v4_Ok list_ex_iff ip_addr.case mapped_prefix_def append_assoc) blast
qed

text \<open>The registry accepts an IPv4-mapped loopback address and the zero network, which the proxy
  filter rejects.\<close>

lemma registry_accepts_mapped_loopback:
  "is_public_addr [Ip6 (Ipv6 0 0 0 0 0 0xffff 0x7f00 1)] \<and> is_public_addr [Ip4 (Ipv4 0 0 0 1)]
   \<and> validate_ssrf_safe (V6 (Ipv6 0 0 0 0 0 0xffff 0x7f00 1)) = Err Ipv6MappedExploit
   \<and> validate_ssrf_safe (V4 (Ipv4 0 0 0 1)) = Err Reserved"
  by (simp add: is_public_addr_def v6_is_loopback_def v6_is_unspecified_def private_octets_def
      v6_is_multicast_def segment_masks)

end
