(* ===== verification/Zone.thy ===== *)
theory Zone
  imports Kid Net_Security "HOL-Library.AList"
begin

text \<open>
  \<open>kinetic-types/src/nrs.rs\<close> (\<open>NrsZone\<close>, \<open>NrsEntry\<close>) and \<open>kinetic-core/src/types/nrs.rs\<close>: the
  zone embedded in a name record, its validation and its parser.

  A \<open>HashMap\<close> is the list of its entries in the order the map iterates them, which the
  standard library leaves open; keys are distinct. The JSON decoder and the libp2p \<open>PeerId\<close>
  parser are parameters.
\<close>

section \<open>Zones\<close>

datatype nrs_entry =
    A ipv4 | AAAA ipv6 | CNAME string | TXT string | PeerId string | KID string | IPFS string
  | Other

type_synonym nrs_zone = "(string \<times> nrs_entry list) list"

datatype nrs_error =
    ParseError | NrsInvalidSignature | TooManyRecords | InvalidLabelLength string | InvalidLabelCharacters string
  | InvalidCnameConfiguration string | TxtRecordTooLong string | InvalidCnameTarget string
  | InvalidPeerId string | InvalidKid string | InvalidIpfsCid string | MultipleCnames string
  | UpstreamResolveError string | DnsRequestFailed string | NrsServerExecutionError string
  | SeedDomainResolutionFailed string | DnsResolverInitFailed string | DnsLookupFailed string string

record zone_env = identity_env +
  peer_id_parses :: "string \<Rightarrow> bool"
  slice_zone :: "bytes \<Rightarrow> nrs_zone option"

definition is_cname :: "nrs_entry \<Rightarrow> bool" where
  "is_cname r = (case r of CNAME _ \<Rightarrow> True | _ \<Rightarrow> False)"

definition is_kid :: "nrs_entry \<Rightarrow> bool" where
  "is_kid r = (case r of KID _ \<Rightarrow> True | _ \<Rightarrow> False)"

section \<open>Validation\<close>

definition zone_label_check :: "string \<Rightarrow> (nrs_error, unit) result" where
  "zone_label_check label =
     reject_if (label = [] \<or> 63 < length label) (InvalidLabelLength label)
    (if label \<noteq> ''@'' \<and> label \<noteq> ''*''
     then reject_if (starts_with label ''-'' \<or> ends_with label ''-'') (InvalidLabelCharacters label)
         (reject_if (list_ex (\<lambda>c. \<not> is_ascii_alphanumeric c \<and> c \<noteq> CHR ''-'' \<and> c \<noteq> CHR ''_'') label)
            (InvalidLabelCharacters label) (Ok ()))
     else Ok ())"

definition cname_check :: "string \<Rightarrow> nrs_entry list \<Rightarrow> (nrs_error, unit) result" where
  "cname_check label records =
     (let cname_count = length (filter is_cname records) in
      reject_if (1 < cname_count) (MultipleCnames label)
     (if 0 < cname_count
      then reject_if (list_ex (\<lambda>r. \<not> (is_cname r \<or> is_kid r)) records) (InvalidCnameConfiguration label) (Ok ())
      else Ok ()))"

definition entry_check :: "'x zone_env_scheme \<Rightarrow> string \<Rightarrow> nrs_entry \<Rightarrow> (nrs_error, unit) result" where
  "entry_check E label r =
     (case r of
        A _ \<Rightarrow> Ok ()
      | AAAA _ \<Rightarrow> Ok ()
      | TXT txt \<Rightarrow> reject_if (255 < length txt) (TxtRecordTooLong label) (Ok ())
      | CNAME cname \<Rightarrow>
          reject_if (cname = [] \<or> 253 < length cname) (InvalidCnameTarget label)
         (reject_if (list_ex (\<lambda>c. \<not> is_ascii_alphanumeric c \<and> c \<noteq> CHR ''-'' \<and> c \<noteq> CHR ''.'') cname)
            (InvalidCnameTarget label) (Ok ()))
      | PeerId p \<Rightarrow> reject_if (\<not> peer_id_parses E p) (InvalidPeerId p) (Ok ())
      | KID k \<Rightarrow> reject_if (\<not> starts_with k (DID_PREFIX E)) (InvalidKid k) (Ok ())
      | IPFS cid \<Rightarrow>
          reject_if (cid = [] \<or> 100 < length cid) (InvalidIpfsCid cid)
         (reject_if (\<not> starts_with cid ''Qm'' \<and> \<not> starts_with cid ''b'') (InvalidIpfsCid cid) (Ok ()))
      | Other \<Rightarrow> Ok ())"

fun entries_check :: "'x zone_env_scheme \<Rightarrow> string \<Rightarrow> nrs_entry list \<Rightarrow> (nrs_error, unit) result" where
  "entries_check E label [] = Ok ()"
| "entries_check E label (r # rs) = and_then (entry_check E label r) (\<lambda>_. entries_check E label rs)"

fun labels_check :: "'x zone_env_scheme \<Rightarrow> nrs_zone \<Rightarrow> (nrs_error, unit) result" where
  "labels_check E [] = Ok ()"
| "labels_check E ((label, records) # rest) =
     and_then (zone_label_check label) (\<lambda>_.
     and_then (cname_check label records) (\<lambda>_.
     and_then (entries_check E label records) (\<lambda>_. labels_check E rest)))"

definition zone_validate :: "'x zone_env_scheme \<Rightarrow> nrs_zone \<Rightarrow> (nrs_error, unit) result" where
  "zone_validate E zone =
     reject_if (50 < sum_list (map (length \<circ> snd) zone)) TooManyRecords (labels_check E zone)"

section \<open>Parsing\<close>

text \<open>\<open>lower_records.entry(k.to_lowercase()).or_default().extend(v)\<close>\<close>

definition merge_entry :: "'x crypto_scheme \<Rightarrow> string \<times> nrs_entry list \<Rightarrow> nrs_zone \<Rightarrow> nrs_zone" where
  "merge_entry E kv acc =
     (let k = to_lowercase (unicode_lowercase E) (fst kv);
          old = (case map_of acc k of Some rs \<Rightarrow> rs | None \<Rightarrow> [])
      in AList.update k (old @ snd kv) acc)"

definition zone_parse_payload :: "'x zone_env_scheme \<Rightarrow> bytes \<Rightarrow> (nrs_error, nrs_zone) result" where
  "zone_parse_payload E payload =
     and_then (ok_or ParseError (slice_zone E payload)) (\<lambda>zone.
     let zone = fold (merge_entry E) zone [] in
     and_then (zone_validate E zone) (\<lambda>_. Ok zone))"

section \<open>What a valid zone is\<close>

definition zone_label_ok :: "string \<Rightarrow> bool" where
  "zone_label_ok l \<longleftrightarrow> l \<in> {''@'', ''*''} \<or>
     l \<noteq> [] \<and> length l \<le> 63 \<and> hd l \<noteq> CHR ''-'' \<and> last l \<noteq> CHR ''-''
     \<and> (\<forall>c\<in>set l. is_ascii_alphanumeric c \<or> c = CHR ''-'' \<or> c = CHR ''_'')"

definition cnames_ok :: "nrs_entry list \<Rightarrow> bool" where
  "cnames_ok rs \<longleftrightarrow> length (filter is_cname rs) \<le> 1
     \<and> ((\<exists>t. CNAME t \<in> set rs) \<longrightarrow> (\<forall>r\<in>set rs. is_cname r \<or> is_kid r))"

definition entry_ok :: "'x zone_env_scheme \<Rightarrow> nrs_entry \<Rightarrow> bool" where
  "entry_ok E r =
     (case r of
        TXT t \<Rightarrow> length t \<le> 255
      | CNAME t \<Rightarrow> length t \<in> {1..253} \<and> (\<forall>c\<in>set t. is_ascii_alphanumeric c \<or> c \<in> {CHR ''-'', CHR ''.''})
      | PeerId p \<Rightarrow> peer_id_parses E p
      | KID k \<Rightarrow> (\<exists>rest. k = DID_PREFIX E @ rest)
      | IPFS c \<Rightarrow> length c \<le> 100 \<and> (\<exists>rest. c = ''Qm'' @ rest \<or> c = ''b'' @ rest)
      | _ \<Rightarrow> True)"

lemma zone_label_check_Ok: "zone_label_check l = Ok () \<longleftrightarrow> zone_label_ok l"
  by (auto simp: zone_label_check_def zone_label_ok_def result_simps list_ex_iff starts_with_hd ends_with_last)

lemma is_cname_iff: "is_cname r \<longleftrightarrow> (\<exists>t. r = CNAME t)"
  by (cases r) (simp_all add: is_cname_def)

lemma cname_check_Ok: "cname_check l rs = Ok () \<longleftrightarrow> cnames_ok rs"
proof -
  have "0 < length (filter is_cname rs) \<longleftrightarrow> (\<exists>t. CNAME t \<in> set rs)"
    by (auto simp: filter_empty_conv is_cname_iff)
  then show ?thesis
    by (auto simp: cname_check_def cnames_ok_def Let_def result_simps list_ex_iff not_less)
qed

lemma entry_check_label: "entry_check E l r = Ok () \<longleftrightarrow> entry_ok E r"
  by (cases r)
     (auto simp: entry_ok_def entry_check_def result_simps list_ex_iff starts_with_iff not_less Suc_le_eq)

lemma entries_check_Ok: "entries_check E l rs = Ok () \<longleftrightarrow> (\<forall>r\<in>set rs. entry_ok E r)"
  by (induction rs) (simp_all add: result_simps entry_check_label)

lemma labels_check_Ok:
  "labels_check E z = Ok () \<longleftrightarrow> (\<forall>(l, rs)\<in>set z. zone_label_ok l \<and> cnames_ok rs \<and> (\<forall>r\<in>set rs. entry_ok E r))"
  by (induction E z rule: labels_check.induct)
     (auto simp: result_simps zone_label_check_Ok cname_check_Ok entries_check_Ok)

lemma zone_validate_Ok:
  "zone_validate E z = Ok () \<longleftrightarrow> sum_list (map (length \<circ> snd) z) \<le> 50
    \<and> (\<forall>(l, rs)\<in>set z. zone_label_ok l \<and> cnames_ok rs \<and> (\<forall>r\<in>set rs. entry_ok E r))"
  by (simp add: zone_validate_def result_simps labels_check_Ok not_less)

text \<open>Merging keeps the keys distinct and collects the entries of all spellings of a label.\<close>

lemma merge_distinct: "distinct (map fst acc) \<Longrightarrow> distinct (map fst (fold (merge_entry E) z acc))"
  by (induction z arbitrary: acc) (simp_all add: merge_entry_def Let_def distinct_update)

lemma merge_lookup:
  "map_of (fold (merge_entry E) z acc) l =
     (let new = filter (\<lambda>kv. to_lowercase (unicode_lowercase E) (fst kv) = l) z in
      if new = [] then map_of acc l
      else Some ((case map_of acc l of Some rs \<Rightarrow> rs | None \<Rightarrow> []) @ concat (map snd new)))"
proof (induction z arbitrary: acc)
  case (Cons kv z)
  then show ?case
    by (auto simp: merge_entry_def Let_def update_conv split: option.split)
qed simp


abbreviation zone_total :: "nrs_zone \<Rightarrow> nat" where
  "zone_total z \<equiv> sum_list (map (length \<circ> snd) z)"

lemma total_update:
  assumes "distinct (map fst acc)"
  shows "zone_total (AList.update k v acc) + length (case map_of acc k of Some rs \<Rightarrow> rs | None \<Rightarrow> [])
    = zone_total acc + length v"
  using assms
proof (induction acc)
  case (Cons a acc)
  then show ?case
    by (cases a) (auto simp: map_of_eq_None_iff [THEN iffD2] split: option.split)
qed simp

lemma merge_total:
  "distinct (map fst acc) \<Longrightarrow> zone_total (fold (merge_entry E) z acc) = zone_total acc + zone_total z"
proof (induction z arbitrary: acc)
  case (Cons kv z)
  let ?k = "to_lowercase (unicode_lowercase E) (fst kv)"
  have "distinct (map fst (merge_entry E kv acc))"
    using Cons.prems by (simp add: merge_entry_def Let_def distinct_update)
  moreover have "zone_total (merge_entry E kv acc) = zone_total acc + length (snd kv)"
    using total_update [OF Cons.prems, of ?k "(case map_of acc ?k of Some rs \<Rightarrow> rs | None \<Rightarrow> []) @ snd kv"]
    by (simp add: merge_entry_def Let_def)
  ultimately show ?case using Cons.IH [of "merge_entry E kv acc"] by (simp add: comp_def)
qed simp

lemma map_of_graph:
  assumes "distinct (map fst z)" and "\<And>l. map_of z l = (if l \<in> S then Some (c l) else None)"
  shows "(\<forall>(l, rs)\<in>set z. P l rs) \<longleftrightarrow> (\<forall>l\<in>S. P l (c l))"
proof -
  have "(l, rs) \<in> set z \<longleftrightarrow> l \<in> S \<and> rs = c l" for l rs
    using map_of_eq_Some_iff [OF assms(1), of l rs] assms(2) [of l] by (auto split: if_splits)
  then show ?thesis by fastforce
qed

section \<open>Correctness of the zone parser\<close>

text \<open>Zone parsing: a decoded payload is accepted exactly when it has at most 50 records and,
  for every label up to case, the label is legal and the records collected from all its spellings
  satisfy the CNAME rule and the per-record rules; the parsed zone then has exactly those labels,
  once each, in lower case, with exactly those records.\<close>

lemma zone_parse_exact:
  assumes "slice_zone E payload = Some raw"
  shows "let lower = to_lowercase (unicode_lowercase E);
             collected = (\<lambda>l. concat (map snd (filter (\<lambda>kv. lower (fst kv) = l) raw)));
             legal = (sum_list (map (length \<circ> snd) raw) \<le> 50
               \<and> (\<forall>l\<in>lower ` fst ` set raw. zone_label_ok l \<and> cnames_ok (collected l)
                    \<and> (\<forall>r\<in>set (collected l). entry_ok E r)))
    in if legal
       then \<exists>z. zone_parse_payload E payload = Ok z \<and> distinct (map fst z)
         \<and> (\<forall>l. map_of z l = (if l \<in> lower ` fst ` set raw then Some (collected l) else None))
       else is_err (zone_parse_payload E payload)"
proof -
  let ?lower = "to_lowercase (unicode_lowercase E)"
  let ?c = "\<lambda>l. concat (map snd (filter (\<lambda>kv. ?lower (fst kv) = l) raw))"
  define z where "z = fold (merge_entry E) raw []"
  have d: "distinct (map fst z)" unfolding z_def by (rule merge_distinct) simp
  have t: "zone_total z = zone_total raw" unfolding z_def by (simp add: merge_total)
  have lk: "map_of z l = (if l \<in> ?lower ` fst ` set raw then Some (?c l) else None)" for l
    unfolding z_def by (auto simp: merge_lookup Let_def filter_empty_conv image_iff)
  have v: "zone_validate E z = Ok () \<longleftrightarrow> zone_total raw \<le> 50
      \<and> (\<forall>l\<in>?lower ` fst ` set raw. zone_label_ok l \<and> cnames_ok (?c l) \<and> (\<forall>r\<in>set (?c l). entry_ok E r))"
    unfolding zone_validate_Ok t map_of_graph [OF d lk] by (rule refl)
  have p: "zone_parse_payload E payload = and_then (zone_validate E z) (\<lambda>_. Ok z)"
    using assms by (simp add: zone_parse_payload_def z_def Let_def)
  show ?thesis
    unfolding Let_def v [symmetric] p using d lk
    by (cases "zone_validate E z") (simp_all only: and_then_simps is_err_simps sum.inject sum.distinct, auto)
qed

definition sample_zone :: zone_env where
  "sample_zone = identity_env.extend sample_identity (zone_env.fields (\<lambda>_. True)
     (\<lambda>_. Some [(''WWW'', [CNAME ''a.b'']), (''www'', [KID ''did:kin:1''])]))"

end
