(* ===== verification/Vdf.thy ===== *)
theory Vdf
  imports Records
begin

text \<open>
  \<open>kinetic-vdf\<close>: the RSA verifiable delay function. \<open>hash_to_prime.rs\<close> (the Fiat-Shamir prime),
  the blockwise prover \<open>evaluate\<close> and the Wesolowski verifier \<open>verify\<close> of \<open>lib.rs\<close>.

  \<open>BigUint\<close> is \<open>nat\<close>. The primality test of the \<open>num-prime\<close> crate is the parameter \<open>is_prime\<close>;
  the search for a prime may run forever, so it and its callers return an \<open>option\<close> whose \<open>None\<close>
  is a call that does not return. The counts of the prover are quotients and remainders of the
  \<open>u64\<close> iteration count and are \<open>nat\<close>: \<open>k + 1\<close> is the only sum and cannot overflow.
\<close>

unbundle bit_operations_syntax

datatype vdf_error =
    LockFileError string | LockAcquireError string | DiscriminantError | ProofGenerationError
  | UnsupportedPlatform | InvalidProof | InvalidChallenge | MaxIterationsExceeded | TooManyTasks

definition RSA_2048_MODULUS :: nat where
  "RSA_2048_MODULUS = 25195908475657893494027183240048398571429282126204032027777137836043662020707595556264018525880784406918290641249515082189298559149176184502808489120072844992687392807287776735971418347270261896375014971824691165077613379859095700097330459748808428401797429100642458691817195118746121515172654632282216869987549182422433637259085141865462043576798423387184774447920739934236584823824281198163815010674810451660377306056201619676256133844143603833904414952634432190114657544454178424020924616515723350778707749817125772467962926386356373289912154831438167899885040445364023527381951378636564391212010397122822120720357"

record rsa_vdf_engine =
  modulus :: nat

definition rsa_new :: rsa_vdf_engine where
  "rsa_new = \<lparr>modulus = RSA_2048_MODULUS\<rparr>"

definition modpow :: "nat \<Rightarrow> nat \<Rightarrow> nat \<Rightarrow> nat" where
  "modpow base e m = base ^ e mod m"

section \<open>The Fiat-Shamir prime (hash\_to\_prime.rs)\<close>

definition prime_candidate :: "'x crypto_scheme \<Rightarrow> nat \<Rightarrow> nat \<Rightarrow> u64 \<Rightarrow> nat" where
  "prime_candidate E x y counter =
     (let candidate_bytes = sha256 E (nat_to_be_bytes x @ nat_to_be_bytes y @ u64_to_be_bytes counter);
          candidate_bytes = candidate_bytes[31 := candidate_bytes ! 31 OR 1];
          candidate_bytes = candidate_bytes[0 := candidate_bytes ! 0 OR 0x80]
      in be_value candidate_bytes)"

partial_function (option) prime_loop ::
  "'x crypto_scheme \<Rightarrow> (nat \<Rightarrow> bool) \<Rightarrow> nat \<Rightarrow> nat \<Rightarrow> u64 \<Rightarrow> nat option" where
  "prime_loop E is_prime x y counter =
     (let candidate = prime_candidate E x y counter
      in if is_prime candidate then Some candidate else prime_loop E is_prime x y (counter + 1))"

definition generate_prime_l :: "'x crypto_scheme \<Rightarrow> (nat \<Rightarrow> bool) \<Rightarrow> nat \<Rightarrow> nat \<Rightarrow> nat option" where
  "generate_prime_l E is_prime x y = prime_loop E is_prime x y 0"

section \<open>The prover (lib.rs)\<close>

definition b_block_size :: "u64 \<Rightarrow> u64" where
  "b_block_size iters =
     (let max_checkpoints = 300000; test_block_size = 1000 in
      if max_checkpoints * test_block_size < iters then iters div max_checkpoints
      else if test_block_size < iters then test_block_size
      else iters)"

text \<open>Pass 1: the delay loop with its checkpoints.\<close>

definition delay_step :: "nat \<Rightarrow> nat \<Rightarrow> nat \<Rightarrow> nat \<Rightarrow> nat \<times> nat list \<Rightarrow> nat \<times> nat list" where
  "delay_step n b needed i s =
     (let (y, checkpoints) = s; y = (y * y) mod n in
      if i mod b = 0 then
        let checkpoint_idx = i div b in
        if checkpoint_idx < needed then (y, checkpoints @ [y]) else (y, checkpoints)
      else (y, checkpoints))"

definition delay_loop :: "nat \<Rightarrow> nat \<Rightarrow> nat \<Rightarrow> nat \<Rightarrow> nat \<Rightarrow> nat \<times> nat list" where
  "delay_loop n b needed t y = fold (delay_step n b needed) [1..<Suc t] (y, [y])"

text \<open>Pass 2: long division of \<open>2 ^ t\<close> by the prime in base \<open>2 ^ b\<close>, most significant digit first.\<close>

definition division_step :: "nat \<Rightarrow> nat \<Rightarrow> nat \<times> nat list \<Rightarrow> nat \<times> nat list" where
  "division_step l bits s =
     (let (r, q_digits) = s; dividend = push_bit bits r
      in (dividend mod l, q_digits @ [dividend div l]))"

definition long_division :: "nat \<Rightarrow> nat \<Rightarrow> nat \<Rightarrow> nat \<Rightarrow> nat list" where
  "long_division l b k r_block =
     (let s = (1, []);
          s = (if 0 < r_block then division_step l r_block s else s);
          s = (division_step l b ^^ k) s
      in rev (snd s))"

text \<open>Pass 3: simultaneous multi-exponentiation of the checkpoints.\<close>

definition batch_mult :: "nat \<Rightarrow> nat list \<Rightarrow> nat list \<Rightarrow> nat \<Rightarrow> nat \<Rightarrow> nat" where
  "batch_mult n q_digits checkpoints k bit_idx =
     fold (\<lambda>i m. if bit (q_digits ! i) bit_idx then (m * checkpoints ! i) mod n else m) [0..<k] 1"

definition multi_exp :: "nat \<Rightarrow> nat list \<Rightarrow> nat list \<Rightarrow> nat \<Rightarrow> nat \<Rightarrow> nat" where
  "multi_exp n q_digits checkpoints k b =
     fold (\<lambda>bit_idx pi. let pi = (pi * pi) mod n
                        in (pi * batch_mult n q_digits checkpoints k bit_idx) mod n) (rev [0..<b]) 1"

text \<open>\<open>buf[start..start + bs.len()].copy_from_slice(bs)\<close>\<close>

definition write_slice :: "bytes \<Rightarrow> nat \<Rightarrow> bytes \<Rightarrow> bytes" where
  "write_slice buf start bs = take start buf @ bs @ drop (start + length bs) buf"

definition package :: "nat \<Rightarrow> nat \<Rightarrow> (vdf_error, vdf_proof) result" where
  "package y pi =
     (let y_bytes = nat_to_be_bytes y; pi_bytes = nat_to_be_bytes pi in
      reject_if (256 < length y_bytes \<or> 256 < length pi_bytes) ProofGenerationError
     (let buf = replicate 512 0;
          buf = write_slice buf (256 - length y_bytes) y_bytes;
          buf = write_slice buf (512 - length pi_bytes) pi_bytes
      in Ok \<lparr>proof_bytes = buf\<rparr>))"

definition evaluate ::
  "'x crypto_scheme \<Rightarrow> (nat \<Rightarrow> bool) \<Rightarrow> rsa_vdf_engine \<Rightarrow> commitment \<Rightarrow> u64
     \<Rightarrow> (vdf_error, vdf_proof) result option" where
  "evaluate E is_prime self challenge iters =
     (let x = be_value (cm_hash challenge); n = modulus self in
      if iters = 0 then Some (Err InvalidChallenge)
      else if x = 0 then Some (Err InvalidChallenge)
      else
        let t = unat iters;
            b = unat (b_block_size iters);
            k = t div b;
            r_block = t mod b;
            needed = (if 0 < r_block then k + 1 else k);
            (y, checkpoints) = delay_loop n b needed t (x mod n)
        in case generate_prime_l E is_prime x y of
             None \<Rightarrow> None
           | Some l \<Rightarrow>
               (let q_digits = long_division l b k r_block;
                    pi = multi_exp n q_digits checkpoints k b;
                    pi = (if 0 < r_block
                          then (pi * modpow (checkpoints ! k) (q_digits ! k) n) mod n else pi)
                in Some (package y pi)))"

section \<open>The verifier (lib.rs)\<close>

definition verify ::
  "'x crypto_scheme \<Rightarrow> (nat \<Rightarrow> bool) \<Rightarrow> rsa_vdf_engine \<Rightarrow> commitment \<Rightarrow> vdf_proof \<Rightarrow> u64
     \<Rightarrow> (vdf_error, bool) result option" where
  "verify E is_prime self challenge proof iters =
     (if length (proof_bytes proof) \<noteq> 512 then Some (Err InvalidProof)
      else if iters = 0 then Some (Err InvalidProof)
      else
        let x = be_value (cm_hash challenge); n = modulus self;
            y = be_value (take 256 (proof_bytes proof));
            pi = be_value (take 256 (drop 256 (proof_bytes proof)))
        in case generate_prime_l E is_prime x y of
             None \<Rightarrow> None
           | Some l \<Rightarrow>
               (let r = modpow 2 (unat iters) l;
                    pi_l = modpow pi l n;
                    x_r = modpow x r n;
                    lhs = (pi_l * x_r) mod n
                in Some (Ok (lhs = y))))"

section \<open>The prime\<close>

lemma prime_loop_returns:
  "is_prime (prime_candidate E x y (c + of_nat d)) \<Longrightarrow> \<exists>l. prime_loop E is_prime x y c = Some l"
proof (induction d arbitrary: c)
  case 0
  then show ?case by (subst prime_loop.simps) (simp add: Let_def)
next
  case (Suc d)
  from Suc.prems have "is_prime (prime_candidate E x y (c + 1 + of_nat d))" by (simp add: ac_simps)
  from Suc.IH [OF this] show ?case by (subst prime_loop.simps) (auto simp: Let_def)
qed

lemma prime_loop_result:
  assumes "prime_loop E is_prime x y c = Some l"
  shows "is_prime l \<and> (\<exists>c. l = prime_candidate E x y c)"
  by (rule prime_loop.raw_induct [of "\<lambda>E p x y c l. p l \<and> (\<exists>c. l = prime_candidate E x y c)"
        "((((E, is_prime), x), y), c)" l, unfolded prod.case, OF _ assms])
     (force simp: Let_def split: if_splits)

text \<open>Both ends of a candidate are forced: it is odd and has exactly 256 bits.\<close>

lemma or_top_bit: "128 \<le> unat (b OR 0x80 :: u8)"
proof -
  have "bit (0x80 :: u8) 7" by code_simp
  then have "bit (b OR 0x80 :: u8) 7" by (simp add: bit_or_iff)
  then have "\<not> unat (b OR 0x80) < 2 ^ 7" by (subst byte_less_power) (auto intro!: exI [of _ 7])
  then show ?thesis by simp
qed

lemma prime_candidate_bits:
  assumes "\<And>m. length (sha256 E m) = 32"
  shows "2 ^ 255 \<le> prime_candidate E x y c" and "prime_candidate E x y c < 2 ^ 256"
proof -
  define h where "h = sha256 E (nat_to_be_bytes x @ nat_to_be_bytes y @ u64_to_be_bytes c)"
  define h' where "h' = h[31 := h ! 31 OR 1, 0 := h ! 0 OR 0x80]"
  have len: "length h' = 32" using assms by (simp add: h'_def h_def)
  then obtain t where t: "h' = (h ! 0 OR 0x80) # t" "length t = 31"
    by (cases h) (auto simp: h'_def)
  have val: "prime_candidate E x y c = be_value h'"
    using assms by (simp add: prime_candidate_def Let_def h'_def h_def nth_list_update)
  have "128 * 256 ^ 31 \<le> unat (h ! 0 OR 0x80) * 256 ^ length t"
    by (simp only: t(2) mult_le_mono1 [OF or_top_bit])
  then show "2 ^ 255 \<le> prime_candidate E x y c" by (simp add: val t)
  show "prime_candidate E x y c < 2 ^ 256"
    using be_value_less [of h'] by (simp add: val len)
qed

section \<open>Pass 1\<close>

lemma delay_loop_spec:
  assumes "0 < b" "0 < needed"
  shows "fold (delay_step n b needed) [1..<Suc m] (x mod n, [x mod n])
         = (x ^ 2 ^ m mod n, map (\<lambda>j. x ^ 2 ^ (b * j) mod n) [0..<min needed (Suc (m div b))])"
proof (induction m)
  case 0
  from assms(2) have "min needed (Suc 0) = Suc 0" by simp
  then show ?case by simp
next
  case (Suc m)
  have sq: "x ^ 2 ^ m mod n * (x ^ 2 ^ m mod n) mod n = x ^ 2 ^ Suc m mod n"
    by (simp add: mod_mult_eq power_add [symmetric] mult_2)
  have "[1..<Suc (Suc m)] = [1..<Suc m] @ [Suc m]" by simp
  then have F: "fold (delay_step n b needed) [1..<Suc (Suc m)] (x mod n, [x mod n])
    = delay_step n b needed (Suc m) (x ^ 2 ^ m mod n, map (\<lambda>j. x ^ 2 ^ (b * j) mod n) [0..<min needed (Suc (m div b))])"
    using Suc by simp
  show ?case
  proof (cases "Suc m mod b = 0")
    case True
    then have d: "Suc m div b = Suc (m div b)" by (simp add: div_Suc)
    moreover have "b * (Suc m div b) = Suc m" using True by (metis dvd_mult_div_cancel mod_eq_0_iff_dvd)
    ultimately have e: "b + b * (m div b) = Suc m" by simp
    show ?thesis
    proof (cases "Suc (m div b) < needed")
      case lt: True
      then have "[0..<min needed (Suc (Suc m div b))] = [0..<min needed (Suc (m div b))] @ [Suc (m div b)]"
        by (simp add: d min_absorb2)
      with lt show ?thesis unfolding F by (simp add: delay_step_def Let_def True d sq e del: power_Suc upt_Suc)
    next
      case False
      then have "min needed (Suc (Suc m div b)) = min needed (Suc (m div b))" using d by simp
      with False show ?thesis unfolding F by (simp add: delay_step_def Let_def True d sq del: power_Suc upt_Suc)
    qed
  next
    case False
    then have "Suc m div b = m div b" by (simp add: div_Suc)
    with False show ?thesis unfolding F by (simp add: delay_step_def Let_def sq del: power_Suc upt_Suc)
  qed
qed

section \<open>Pass 2\<close>

definition digits_value :: "nat \<Rightarrow> nat list \<Rightarrow> nat" where
  "digits_value b q = foldl (\<lambda>a d. a * 2 ^ b + d) 0 q"

text \<open>What the division has established after dividing \<open>2 ^ e\<close>.\<close>

definition divided :: "nat \<Rightarrow> nat \<Rightarrow> nat \<Rightarrow> nat \<times> nat list \<Rightarrow> bool" where
  "divided l b e s \<longleftrightarrow>
     digits_value b (snd s) * l + fst s = 2 ^ e \<and> fst s < l \<and> (\<forall>d\<in>set (snd s). d < 2 ^ b)"

lemma digits_value_snoc: "digits_value b (q @ [d]) = digits_value b q * 2 ^ b + d"
  by (simp add: digits_value_def)

lemma quotient_less: "r < l \<Longrightarrow> r * 2 ^ b div l < 2 ^ b" for r l :: nat
  by (simp add: less_mult_imp_div_less mult.commute)

lemma divided_step: "divided l b e s \<Longrightarrow> divided l b (e + b) (division_step l b s)"
proof -
  assume "divided l b e s"
  then have v: "digits_value b (snd s) * l + fst s = 2 ^ e" and r: "fst s < l"
    and d: "\<forall>d\<in>set (snd s). d < 2 ^ b" by (simp_all add: divided_def)
  let ?D = "fst s * 2 ^ b"
  have "(digits_value b (snd s) * 2 ^ b + ?D div l) * l + ?D mod l = digits_value b (snd s) * 2 ^ b * l + ?D"
    by (simp add: add_mult_distrib)
  also have "\<dots> = (digits_value b (snd s) * l + fst s) * 2 ^ b" by (simp add: algebra_simps)
  also have "\<dots> = 2 ^ (e + b)" by (simp only: v power_add)
  finally show ?thesis
    using r d quotient_less [OF r, of b]
    by (auto simp: divided_def division_step_def digits_value_snoc push_bit_eq_mult Let_def split_beta)
qed

lemma divided_steps: "divided l b e s \<Longrightarrow> divided l b (e + k * b) ((division_step l b ^^ k) s)"
  by (induction k) (auto simp: add.assoc [symmetric] add.commute dest: divided_step)

lemma divided_start:
  assumes "1 < l" and "r_block < b"
  shows "divided l b r_block (if 0 < r_block then division_step l r_block (1, []) else (1, []))"
proof -
  have "(2 :: nat) ^ r_block \<le> 2 ^ b" using assms(2) by (simp add: power_increasing)
  moreover have "2 ^ r_block div l \<le> 2 ^ r_block" by simp
  ultimately have "2 ^ r_block div l \<le> 2 ^ b" by linarith
  moreover have "2 ^ r_block div l < 2 ^ r_block" using assms(1) by (simp add: div_less_dividend)
  ultimately have "2 ^ r_block div l < 2 ^ b"
    using \<open>(2 :: nat) ^ r_block \<le> 2 ^ b\<close> by linarith
  with assms show ?thesis
    by (auto simp: divided_def division_step_def digits_value_def push_bit_eq_mult Let_def)
qed

lemma length_division_steps:
  "length (snd ((division_step l b ^^ k) s)) = length (snd s) + k"
  by (induction k) (simp_all add: division_step_def split_beta Let_def)

lemma digits_value_sum: "digits_value b q = (\<Sum>i<length q. rev q ! i * 2 ^ (b * i))"
proof (induction q rule: rev_induct)
  case Nil
  then show ?case by (simp add: digits_value_def)
next
  case (snoc d q)
  have "(\<Sum>i<Suc (length q). (d # rev q) ! i * 2 ^ (b * i))
      = d + (\<Sum>i<length q. rev q ! i * 2 ^ (b * Suc i))"
    by (subst sum.lessThan_Suc_shift) simp
  also have "\<dots> = d + (\<Sum>i<length q. rev q ! i * 2 ^ (b * i)) * 2 ^ b"
    by (simp add: sum_distrib_left power_add algebra_simps)
  finally show ?case by (simp add: digits_value_snoc snoc)
qed

lemma long_division_spec:
  fixes l b k r_block :: nat
  assumes "1 < l" and "r_block < b"
  defines "q \<equiv> long_division l b k r_block"
  shows "length q = k + (if 0 < r_block then 1 else 0)" and "\<forall>d\<in>set q. d < 2 ^ b"
    and "(\<Sum>i<length q. q ! i * 2 ^ (b * i)) = 2 ^ (r_block + k * b) div l"
proof -
  define s where "s = (division_step l b ^^ k) (if 0 < r_block then division_step l r_block (1, []) else (1, []))"
  have q: "q = rev (snd s)" by (simp add: q_def long_division_def s_def Let_def)
  have D: "divided l b (r_block + k * b) s"
    unfolding s_def by (rule divided_steps [OF divided_start [OF assms(1,2)]])
  show "length q = k + (if 0 < r_block then 1 else 0)"
    by (simp add: q s_def length_division_steps division_step_def Let_def)
  show "\<forall>d\<in>set q. d < 2 ^ b" using D by (simp add: q divided_def)
  have v: "digits_value b (snd s) * l + fst s = 2 ^ (r_block + k * b)" and r: "fst s < l"
    using D by (simp_all add: divided_def)
  have "(digits_value b (snd s) * l + fst s) div l = digits_value b (snd s)" using r by simp
  then show "(\<Sum>i<length q. q ! i * 2 ^ (b * i)) = 2 ^ (r_block + k * b) div l"
    by (simp add: q digits_value_sum v [unfolded digits_value_sum])
qed

section \<open>Pass 3\<close>

lemma batch_mult_mod:
  "batch_mult n q c k j mod n = (\<Prod>i<k. c ! i ^ of_bool (bit (q ! i) j)) mod n"
proof (induction k)
  case 0
  then show ?case by (simp add: batch_mult_def)
next
  case (Suc k)
  have "batch_mult n q c (Suc k) j
        = (if bit (q ! k) j then (batch_mult n q c k j * c ! k) mod n else batch_mult n q c k j)"
    by (simp add: batch_mult_def)
  with Suc show ?case by (auto intro: mod_mult_cong)
qed

lemma triple_mod: "((a mod n) * (b mod n) * (c mod n)) mod n = (a * b * c) mod n" for a b c n :: nat
  by (metis mod_mult_eq mod_mult_left_eq)

lemma square_step_mod: "((p * p) mod n * m) mod n = ((p mod n) * (p mod n) * (m mod n)) mod n"
  for p m n :: nat
  by (simp only: triple_mod mod_mult_left_eq)

lemma multi_exp_mod:
  assumes "\<forall>i<k. q ! i < 2 ^ b" and "j \<le> b"
  shows "fold (\<lambda>bit_idx pi. let pi = (pi * pi) mod n in (pi * batch_mult n q c k bit_idx) mod n)
           (rev [j..<b]) 1 mod n
         = (\<Prod>i<k. c ! i ^ (q ! i div 2 ^ j)) mod n"
  using assms(2)
proof (induction "b - j" arbitrary: j)
  case 0
  then have "j = b" by simp
  moreover have "(\<Prod>i<k. c ! i ^ (q ! i div 2 ^ b)) = 1" using assms(1) by (simp add: prod.neutral)
  ultimately show ?case by simp
next
  case (Suc d)
  let ?f = "\<lambda>bit_idx pi. let pi = (pi * pi) mod n in (pi * batch_mult n q c k bit_idx) mod n"
  let ?p = "fold ?f (rev [Suc j..<b]) 1"
  have "rev [j..<b] = rev [Suc j..<b] @ [j]" using Suc.hyps(2) by (simp add: upt_conv_Cons)
  then have "fold ?f (rev [j..<b]) 1 mod n = ((?p * ?p) mod n * batch_mult n q c k j) mod n"
    by (simp add: Let_def)
  also have "\<dots> = ((?p mod n) * (?p mod n) * (batch_mult n q c k j mod n)) mod n"
    by (rule square_step_mod)
  also have "\<dots> = ((\<Prod>i<k. c ! i ^ (q ! i div 2 ^ Suc j)) * (\<Prod>i<k. c ! i ^ (q ! i div 2 ^ Suc j))
                    * (\<Prod>i<k. c ! i ^ of_bool (bit (q ! i) j))) mod n"
  proof -
    have "d = b - Suc j" "Suc j \<le> b" using Suc.hyps(2) by auto
    note IH = Suc.hyps(1) [OF this]
    show ?thesis unfolding IH batch_mult_mod by (rule triple_mod)
  qed
  also have "\<dots> = (\<Prod>i<k. c ! i ^ (q ! i div 2 ^ j)) mod n"
  proof -
    have "m div 2 ^ j = m div 2 ^ Suc j + m div 2 ^ Suc j + of_bool (bit m j)" for m :: nat
    proof -
      have "m div 2 ^ Suc j = m div 2 ^ j div 2" by (simp only: power_Suc2 div_mult2_eq)
      moreover have "of_bool (bit m j) = (m div 2 ^ j) mod 2" by (simp add: bit_iff_odd mod_2_eq_odd)
      ultimately show ?thesis using mult_div_mod_eq [of 2 "m div 2 ^ j"] by (simp only: mult_2)
    qed
    then have "c ! i ^ (q ! i div 2 ^ j)
               = c ! i ^ (q ! i div 2 ^ Suc j) * c ! i ^ (q ! i div 2 ^ Suc j) * c ! i ^ of_bool (bit (q ! i) j)" for i
      by (metis power_add)
    then show ?thesis by (simp only: prod.distrib)
  qed
  finally show ?case .
qed

lemma multi_exp_spec:
  assumes "\<forall>i<k. q ! i < 2 ^ b" and "0 < b"
  shows "multi_exp n q c k b = (\<Prod>i<k. c ! i ^ (q ! i)) mod n"
proof -
  have "rev [0..<b] = rev [Suc 0..<b] @ [0]" using assms(2) by (simp add: upt_conv_Cons)
  then have "multi_exp n q c k b mod n = multi_exp n q c k b" by (simp add: multi_exp_def Let_def)
  with multi_exp_mod [OF assms(1), of 0 n c] show ?thesis by (simp add: multi_exp_def)
qed

lemma powers_of_checkpoints:
  assumes "\<forall>i<k. c ! i mod n = x ^ 2 ^ (b * i) mod n"
  shows "(\<Prod>i<k. c ! i ^ (q ! i)) mod n = x ^ (\<Sum>i<k. q ! i * 2 ^ (b * i)) mod (n :: nat)"
  using assms
proof (induction k)
  case (Suc k)
  have "c ! k ^ (q ! k) mod n = (c ! k mod n) ^ (q ! k) mod n" by (simp add: power_mod)
  also have "\<dots> = x ^ (q ! k * 2 ^ (b * k)) mod n"
    using Suc.prems by (simp add: power_mod power_mult [symmetric] mult.commute)
  finally have "c ! k ^ (q ! k) mod n = x ^ (q ! k * 2 ^ (b * k)) mod n" .
  with Suc show ?case by (auto simp: power_add intro: mod_mult_cong)
qed simp

section \<open>The proof of the prover\<close>

text \<open>The whole three-pass computation equals the textbook proof \<open>x ^ (2 ^ t div l)\<close>.\<close>

definition prover_output :: "nat \<Rightarrow> nat \<Rightarrow> nat \<Rightarrow> nat \<Rightarrow> nat \<Rightarrow> nat \<Rightarrow> nat list \<Rightarrow> nat" where
  "prover_output n l b k r_block t checkpoints =
     (let q_digits = long_division l b k r_block;
          pi = multi_exp n q_digits checkpoints k b
      in if 0 < r_block then (pi * modpow (checkpoints ! k) (q_digits ! k) n) mod n else pi)"

lemma prover_output_spec:
  fixes x n b k t l :: nat
  assumes "0 < b" and "1 < l"
  defines "k \<equiv> t div b" and "r \<equiv> t mod b"
  defines "needed \<equiv> if 0 < r then k + 1 else k"
  assumes cps: "c = map (\<lambda>j. x ^ 2 ^ (b * j) mod n) [0..<needed]"
  shows "prover_output n l b k r t c = x ^ (2 ^ t div l) mod n"
proof -
  define q where "q = long_division l b k r"
  have rb: "r < b" using assms(1) by (simp add: r_def)
  note D = long_division_spec [OF assms(2) rb, of k, folded q_def]
  have t: "r + k * b = t" by (simp add: k_def r_def)
  have small: "\<forall>i<k. q ! i < 2 ^ b" using D(1,2) by (metis nth_mem trans_less_add1)
  have cp: "\<forall>i<needed. c ! i mod n = x ^ 2 ^ (b * i) mod n" by (simp add: cps)
  have len: "length q = needed" using D(1) by (simp add: needed_def)
  have "prover_output n l b k r t c = (\<Prod>i<needed. c ! i ^ (q ! i)) mod n"
    unfolding prover_output_def q_def [symmetric] Let_def multi_exp_spec [OF small assms(1)]
    by (simp add: needed_def modpow_def mod_mult_eq)
  also have "\<dots> = x ^ (\<Sum>i<needed. q ! i * 2 ^ (b * i)) mod n"
    by (rule powers_of_checkpoints [OF cp])
  also have "\<dots> = x ^ (2 ^ t div l) mod n" using D(3) by (simp only: len t)
  finally show ?thesis .
qed

lemma block_size_pos: "iters \<noteq> 0 \<Longrightarrow> 0 < unat (b_block_size iters)"
proof -
  assume "iters \<noteq> 0"
  then have p: "0 < unat iters" by (simp add: unat_gt_0)
  have "0 < unat iters div 300000" if "300000000 < iters"
    using that by (simp add: word_less_nat_alt div_greater_zero_iff)
  with p show ?thesis
    by (auto simp: b_block_size_def Let_def word_less_nat_alt unat_div)
qed

lemma evaluate_eq:
  assumes "be_value (cm_hash c) \<noteq> 0" and "iters \<noteq> 0"
    and l: "generate_prime_l E is_prime (be_value (cm_hash c)) (be_value (cm_hash c) ^ 2 ^ unat iters mod modulus self) = Some l"
    and "1 < l"
  shows "evaluate E is_prime self c iters
         = Some (package (be_value (cm_hash c) ^ 2 ^ unat iters mod modulus self)
                   (be_value (cm_hash c) ^ (2 ^ unat iters div l) mod modulus self))"
proof -
  let ?x = "be_value (cm_hash c)" let ?n = "modulus self" let ?t = "unat iters"
  define b where "b = unat (b_block_size iters)"
  define needed where "needed = (if 0 < ?t mod b then ?t div b + 1 else ?t div b)"
  have b: "0 < b" using block_size_pos [OF assms(2)] by (simp add: b_def)
  have tpos: "0 < ?t" using assms(2) by (simp add: unat_gt_0)
  then have np: "0 < needed" using b by (auto simp: needed_def div_greater_zero_iff Suc_le_eq)
  have mn: "min needed (Suc (?t div b)) = needed" by (simp add: needed_def)
  have cps: "delay_loop ?n b needed ?t (?x mod ?n)
      = (?x ^ 2 ^ ?t mod ?n, map (\<lambda>j. ?x ^ 2 ^ (b * j) mod ?n) [0..<needed])"
    unfolding delay_loop_def delay_loop_spec [OF b np] mn ..
  have P: "prover_output ?n l b (?t div b) (?t mod b) ?t (map (\<lambda>j. ?x ^ 2 ^ (b * j) mod ?n) [0..<needed])
           = ?x ^ (2 ^ ?t div l) mod ?n"
    by (rule prover_output_spec [OF b assms(4)]) (simp add: needed_def)
  show ?thesis
    unfolding evaluate_def Let_def b_def [symmetric] needed_def [symmetric] cps prod.case l option.case
    using assms(1,2) P [unfolded prover_output_def Let_def]
    by (simp only: if_False) 
qed

section \<open>Proof bytes\<close>

lemma package_fits:
  assumes "y < 256 ^ 256" and "pi < 256 ^ 256"
  shows "package y pi = Ok \<lparr>proof_bytes =
           replicate (256 - length (nat_to_be_bytes y)) 0 @ nat_to_be_bytes y
           @ replicate (256 - length (nat_to_be_bytes pi)) 0 @ nat_to_be_bytes pi\<rparr>"
proof -
  have "length (nat_to_be_bytes y) \<le> 256" "length (nat_to_be_bytes pi) \<le> 256"
    using assms by (auto intro!: length_nat_to_be_bytes)
  moreover have "write_slice (write_slice (replicate 512 0) (256 - length a) a) (512 - length b) b
      = replicate (256 - length a) 0 @ a @ replicate (256 - length b) 0 @ b"
    if "length a \<le> 256" "length b \<le> 256" for a b :: bytes
  proof -
    have "512 - length b - 256 = 256 - length b" using that by simp
    with that show ?thesis by (simp add: write_slice_def)
  qed
  ultimately show ?thesis by (simp add: package_def Let_def)
qed

lemma package_halves:
  assumes "y < 256 ^ 256" and "pi < 256 ^ 256"
  obtains p where "package y pi = Ok p" "length (proof_bytes p) = 512"
    "be_value (take 256 (proof_bytes p)) = y" "be_value (take 256 (drop 256 (proof_bytes p))) = pi"
proof -
  have "length (nat_to_be_bytes y) \<le> 256" "length (nat_to_be_bytes pi) \<le> 256"
    using assms by (auto intro!: length_nat_to_be_bytes)
  then show thesis by (intro that [OF package_fits [OF assms]]) simp_all
qed

lemma modulus_fits: "0 < RSA_2048_MODULUS" "RSA_2048_MODULUS < 256 ^ 256"
  by (simp_all add: RSA_2048_MODULUS_def)

lemma generate_prime_returns:
  assumes "\<exists>counter. is_prime (prime_candidate E x y counter)"
  obtains l where "generate_prime_l E is_prime x y = Some l"
proof -
  obtain counter where "is_prime (prime_candidate E x y counter)" using assms by blast
  then have "is_prime (prime_candidate E x y (0 + of_nat (unat counter)))" by simp
  from prime_loop_returns [of is_prime E x y 0 "unat counter", OF this] that show thesis by (auto simp: generate_prime_l_def)
qed

lemma generate_prime_size:
  assumes "\<And>m. length (sha256 E m) = 32" and "generate_prime_l E is_prime x y = Some l"
  shows "2 ^ 255 \<le> l" "l < 2 ^ 256" "is_prime l"
  using prime_loop_result [OF assms(2) [unfolded generate_prime_l_def]] prime_candidate_bits [OF assms(1)]
  by auto

section \<open>Completeness and the accepted outputs\<close>

lemma verify_eq:
  assumes "length (proof_bytes p) = 512" and "iters \<noteq> 0"
    and "generate_prime_l E is_prime (be_value (cm_hash c)) (be_value (take 256 (proof_bytes p))) = Some l"
  shows "verify E is_prime self c p iters
         = Some (Ok (be_value (take 256 (drop 256 (proof_bytes p))) ^ l
                     * be_value (cm_hash c) ^ (2 ^ unat iters mod l) mod modulus self
                     = be_value (take 256 (proof_bytes p))))"
  unfolding verify_def Let_def assms(3) option.case modpow_def
  using assms(1,2) by (simp add: mod_mult_eq)

lemma evaluate_complete:
  assumes "\<And>m. length (sha256 E m) = 32" and "be_value (cm_hash c) \<noteq> 0" and "iters \<noteq> 0"
    and "\<And>x y. \<exists>counter. is_prime (prime_candidate E x y counter)"
  shows "\<exists>p l. evaluate E is_prime rsa_new c iters = Some (Ok p) \<and> length (proof_bytes p) = 512
           \<and> generate_prime_l E is_prime (be_value (cm_hash c)) (be_value (take 256 (proof_bytes p))) = Some l
           \<and> be_value (take 256 (proof_bytes p)) = be_value (cm_hash c) ^ 2 ^ unat iters mod RSA_2048_MODULUS
           \<and> be_value (drop 256 (proof_bytes p))
               = be_value (cm_hash c) ^ (2 ^ unat iters div l) mod RSA_2048_MODULUS
           \<and> verify E is_prime rsa_new c p iters = Some (Ok True)"
proof -
  let ?x = "be_value (cm_hash c)" let ?n = RSA_2048_MODULUS let ?e = "2 ^ unat iters :: nat"
  have m: "modulus rsa_new = ?n" by (simp add: rsa_new_def)
  obtain l where l: "generate_prime_l E is_prime ?x (?x ^ ?e mod ?n) = Some l"
    by (rule generate_prime_returns [OF assms(4)])
  have l1: "1 < l"
    using generate_prime_size(1) [OF assms(1) l] by (rule less_le_trans [rotated]) simp
  have small: "?x ^ j mod ?n < 256 ^ 256" for j
    using modulus_fits mod_less_divisor [of ?n "?x ^ j"] by linarith
  obtain p where p: "package (?x ^ ?e mod ?n) (?x ^ (?e div l) mod ?n) = Ok p" "length (proof_bytes p) = 512"
    "be_value (take 256 (proof_bytes p)) = ?x ^ ?e mod ?n"
    "be_value (take 256 (drop 256 (proof_bytes p))) = ?x ^ (?e div l) mod ?n"
    by (rule package_halves [OF small small])
  have E: "evaluate E is_prime rsa_new c iters = Some (Ok p)"
    using evaluate_eq [OF assms(2,3) _ l1, of E is_prime rsa_new] l p(1) by (simp only: m)
  have "(?x ^ (?e div l) mod ?n) ^ l * ?x ^ (?e mod l) mod ?n = (?x ^ (?e div l)) ^ l * ?x ^ (?e mod l) mod ?n"
    by (metis mod_mult_left_eq power_mod)
  also have "\<dots> = ?x ^ ?e mod ?n"
    by (simp only: power_mult [symmetric] power_add [symmetric] div_mult_mod_eq)
  finally have "verify E is_prime rsa_new c p iters = Some (Ok True)"
    using verify_eq [OF p(2) assms(3), of E is_prime c l rsa_new] l p(3,4)
    by (simp only: m simp_thms)
  moreover have "take 256 (drop 256 (proof_bytes p)) = drop 256 (proof_bytes p)" using p(2) by simp
  ultimately show ?thesis using E p l by auto
qed

text \<open>C4. Completeness of the delay function, with the blockwise prover as the code computes it. For a
  non-zero challenge and a positive iteration count the prover returns a 512-byte proof whose
  first half is \<open>x ^ (2 ^ t) mod n\<close> and whose second half is \<open>x ^ (2 ^ t div l) mod n\<close> for the
  Fiat-Shamir prime \<open>l\<close>: the checkpointed three-pass computation equals the textbook Wesolowski
  proof. The verifier accepts it. Hypotheses: SHA-256 digests have 32 bytes, and the search for
  the prime meets a candidate the primality test accepts.\<close>

theorem vdf_complete:
  assumes "\<And>m. length (sha256 E m) = 32" and "be_value (cm_hash c) \<noteq> 0" and "iters \<noteq> 0"
    and "\<And>x y. \<exists>counter. is_prime (prime_candidate E x y counter)"
  shows "\<exists>p l. evaluate E is_prime rsa_new c iters = Some (Ok p) \<and> length (proof_bytes p) = 512
           \<and> generate_prime_l E is_prime (be_value (cm_hash c)) (be_value (take 256 (proof_bytes p))) = Some l
           \<and> be_value (take 256 (proof_bytes p)) = be_value (cm_hash c) ^ 2 ^ unat iters mod RSA_2048_MODULUS
           \<and> be_value (drop 256 (proof_bytes p))
               = be_value (cm_hash c) ^ (2 ^ unat iters div l) mod RSA_2048_MODULUS
           \<and> verify E is_prime rsa_new c p iters = Some (Ok True)"
  by (rule evaluate_complete [OF assms])

text \<open>The digest of 32 bytes and a test that accepts every candidate, for the witnesses.\<close>

definition sample_digest :: crypto where
  "sample_digest = sample_crypto\<lparr>sha256 := \<lambda>_. replicate 32 7\<rparr>"

theorem vdf_complete_witness:
  "\<exists>p l. evaluate sample_digest (\<lambda>_. True) rsa_new \<lparr>cm_hash = 1 # replicate 31 0\<rparr> 1005 = Some (Ok p)
     \<and> length (proof_bytes p) = 512
     \<and> generate_prime_l sample_digest (\<lambda>_. True) (be_value (cm_hash \<lparr>cm_hash = 1 # replicate 31 0\<rparr>))
         (be_value (take 256 (proof_bytes p))) = Some l
     \<and> be_value (take 256 (proof_bytes p))
         = be_value (cm_hash \<lparr>cm_hash = 1 # replicate 31 0\<rparr>) ^ 2 ^ unat (1005 :: u64) mod RSA_2048_MODULUS
     \<and> be_value (drop 256 (proof_bytes p))
         = be_value (cm_hash \<lparr>cm_hash = 1 # replicate 31 0\<rparr>) ^ (2 ^ unat (1005 :: u64) div l) mod RSA_2048_MODULUS
     \<and> verify sample_digest (\<lambda>_. True) rsa_new \<lparr>cm_hash = 1 # replicate 31 0\<rparr> p 1005 = Some (Ok True)"
proof (rule vdf_complete)
  show "be_value (cm_hash \<lparr>cm_hash = 1 # replicate 31 0\<rparr>) \<noteq> 0" by simp
qed (simp_all add: sample_digest_def)

text \<open>C5. The verifier does not require a delay to have been computed: the proof of 512 zero bytes
  passes for every challenge and every positive iteration count, since neither the output nor the
  proof element is required to be a unit of the group.\<close>

theorem zero_proof_accepted:
  assumes "\<And>m. length (sha256 E m) = 32" and "iters \<noteq> 0"
    and "\<exists>counter. is_prime (prime_candidate E (be_value (cm_hash c)) 0 counter)"
  shows "verify E is_prime rsa_new c \<lparr>proof_bytes = replicate 512 0\<rparr> iters = Some (Ok True)"
proof -
  obtain l where l: "generate_prime_l E is_prime (be_value (cm_hash c)) 0 = Some l"
    by (rule generate_prime_returns [OF assms(3)])
  have "0 < l" using generate_prime_size(1) [OF assms(1) l] by (rule less_le_trans [rotated]) simp
  with verify_eq [of "\<lparr>proof_bytes = replicate 512 0\<rparr>" iters E is_prime c l rsa_new] l assms(2)
  show ?thesis by (simp add: zero_power)
qed

theorem zero_proof_accepted_witness:
  "verify sample_digest (\<lambda>_. True) rsa_new \<lparr>cm_hash = 1 # replicate 31 0\<rparr> \<lparr>proof_bytes = replicate 512 0\<rparr>
     3582297450 = Some (Ok True)"
  by (rule zero_proof_accepted) (simp_all add: sample_digest_def)

end
