(* ===== verification/Resolution.thy ===== *)
theory Resolution
  imports Store Net_Security Vdf
begin

text \<open>
  \<open>kinetic-network/src/event_loop/utils.rs\<close>: the filter on advertised addresses and the
  tie-breaker that picks one of the payloads a resolution has collected.

  \<open>resolution_env\<close> adds the serde decoders the tie-breaker tries in turn. The engine it creates
  is the engine of the environment, which is the RSA engine in every node the workspace builds.
\<close>

unbundle bit_operations_syntax

record resolution_env = store_env +
  slice_document :: "bytes \<Rightarrow> document option"
  slice_host_route :: "bytes \<Rightarrow> host_route option"
  slice_reveal :: "bytes \<Rightarrow> reveal option"

section \<open>Advertised addresses\<close>

fun routable_loop :: "bool \<Rightarrow> multiaddr \<Rightarrow> bool" where
  "routable_loop allow_dns [] = True"
| "routable_loop allow_dns (p # rest) =
     (case p of
        Ip4 ip \<Rightarrow>
          if v4_is_private ip \<or> v4_is_loopback ip \<or> v4_is_link_local ip \<or> v4_is_unspecified ip
             \<or> v4_is_broadcast ip \<or> v4_is_documentation ip
          then False else routable_loop allow_dns rest
      | Ip6 ip \<Rightarrow>
          if v6_is_loopback ip \<or> v6_is_unspecified ip then False
          else if segments ip ! 0 AND 0xfe00 = 0xfc00 then False
          else if segments ip ! 0 AND 0xffc0 = 0xfe80 then False
          else routable_loop allow_dns rest
      | Memory _ \<Rightarrow> True
      | Dns _ \<Rightarrow> if \<not> allow_dns then False else routable_loop allow_dns rest
      | Dns4 _ \<Rightarrow> if \<not> allow_dns then False else routable_loop allow_dns rest
      | Dns6 _ \<Rightarrow> if \<not> allow_dns then False else routable_loop allow_dns rest
      | OtherProtocol _ \<Rightarrow> routable_loop allow_dns rest)"

definition is_routable_multiaddr ::
  "'x network_constants_scheme \<Rightarrow> multiaddr \<Rightarrow> bool \<Rightarrow> bool \<Rightarrow> bool" where
  "is_routable_multiaddr E addr disable_challenge allow_dns =
     (if dev_mode E \<or> disable_challenge then True else routable_loop allow_dns addr)"

section \<open>The tie-breaker\<close>

datatype parsed_payload = ParsedKid document | ParsedReveal reveal | ParsedHostRouting host_route

definition parse_candidate :: "'x resolution_env_scheme \<Rightarrow> string \<Rightarrow> bytes \<Rightarrow> parsed_payload option" where
  "parse_candidate E query_name p =
     (case slice_document E p of
        Some doc \<Rightarrow> if as_str (doc_kid doc) = query_name then Some (ParsedKid doc) else None
      | None \<Rightarrow>
          (case slice_host_route E p of
             Some route \<Rightarrow>
               if query_name = ''routing:'' @ host_id route then Some (ParsedHostRouting route) else None
           | None \<Rightarrow>
               (case slice_reveal E p of
                  Some reveal \<Rightarrow>
                    if rv_name reveal = query_name \<and> is_ok (validate E reveal)
                    then Some (ParsedReveal reveal) else None
                | None \<Rightarrow> None)))"

definition parse_candidates ::
  "'x resolution_env_scheme \<Rightarrow> string \<Rightarrow> bytes list \<Rightarrow> (bytes \<times> parsed_payload) list" where
  "parse_candidates E query_name payloads =
     List.map_filter (\<lambda>p. map_option (Pair p) (parse_candidate E query_name p)) payloads"

definition is_kid_payload :: "bytes \<times> parsed_payload \<Rightarrow> bool" where
  "is_kid_payload x = (case snd x of ParsedKid _ \<Rightarrow> True | _ \<Rightarrow> False)"

definition is_host_payload :: "bytes \<times> parsed_payload \<Rightarrow> bool" where
  "is_host_payload x = (case snd x of ParsedHostRouting _ \<Rightarrow> True | _ \<Rightarrow> False)"

text \<open>\<open>Iterator::min_by_key\<close>: the first of the minimal elements.\<close>

definition min_by_key :: "('a \<Rightarrow> 'k::linorder) \<Rightarrow> 'a list \<Rightarrow> 'a option" where
  "min_by_key f xs =
     (case xs of [] \<Rightarrow> None | x # rest \<Rightarrow> Some (fold (\<lambda>y m. if f y < f m then y else m) rest x))"

definition kid_candidate ::
  "'x resolution_env_scheme \<Rightarrow> u64 \<Rightarrow> bytes \<times> parsed_payload \<Rightarrow> (bytes \<times> u64) option" where
  "kid_candidate E current_time x =
     (case snd x of
        ParsedKid doc \<Rightarrow>
          if is_err (doc_verify E doc) then None
          else if current_time + 300 < created_at doc then None
          else Some (fst x, 18446744073709551615 - created_at doc)
      | _ \<Rightarrow> None)"

definition host_candidate ::
  "'x resolution_env_scheme \<Rightarrow> kyn \<Rightarrow> bytes \<times> parsed_payload \<Rightarrow> (bytes \<times> u64) option" where
  "host_candidate E current x =
     (case snd x of
        ParsedHostRouting route \<Rightarrow>
          if is_err (verify_host_routing_record E route current) then None
          else Some (fst x, 18446744073709551615 - hr_kyn route)
      | _ \<Rightarrow> None)"

definition kyn_distance :: "kyn \<Rightarrow> reveal \<Rightarrow> bytes" where
  "kyn_distance current reveal =
     (let kyn_bytes = u64_to_be_bytes current @ replicate 24 0;
          y_bytes = (if 32 \<le> length (proof_bytes (rv_vdf_proof reveal))
                     then take 32 (proof_bytes (rv_vdf_proof reveal)) else replicate 32 0)
      in map2 (XOR) y_bytes kyn_bytes)"

definition reveal_candidate ::
  "kyn \<Rightarrow> bytes \<times> parsed_payload \<Rightarrow> (bytes \<times> reveal \<times> bytes) option" where
  "reveal_candidate current x =
     (case snd x of
        ParsedReveal reveal \<Rightarrow> Some (fst x, reveal, kyn_distance current reveal)
      | _ \<Rightarrow> None)"

text \<open>The checks of one candidate: \<open>False\<close> is a \<open>continue\<close> of the loop, \<open>True\<close> its \<open>return\<close>.\<close>

definition candidate_accepted ::
  "'x store_env_scheme \<Rightarrow> action_state option \<Rightarrow> kyn \<Rightarrow> reveal \<Rightarrow> bool" where
  "candidate_accepted E G current reveal =
     (if \<not> (dev_mode E \<or> is_ok (reveal_verify_signature E reveal (NETWORK_SALT E))) then False
      else case hex_decode E (beacon_signature reveal) of
        None \<Rightarrow> False
      | Some drand_sig \<Rightarrow>
          if \<not> verify_beacon_signature E (rv_kyn reveal) (beacon_signature reveal) (dev_mode E) then False
          else
            let drand_bytes = sha256 E drand_sig;
                hash = sha256 E (as_bytes (rv_name reveal) @ rv_salt reveal @ drand_bytes @ rv_pubkey reveal)
            in if RESQUARING_EPOCH_KYNS < saturating_sub current (rv_kyn reveal) then False
               else case compute_required_iterations E G reveal current of
                 Inl _ \<Rightarrow> False
               | Inr required \<Rightarrow>
                   if \<not> dev_mode E \<and> rv_iterations reveal < required then False
                   else if dev_mode E then True
                   else case vdf_engine_verify E \<lparr>cm_hash = hash\<rparr> (rv_vdf_proof reveal) (rv_iterations reveal) of
                     Inr b \<Rightarrow> b
                   | Inl _ \<Rightarrow> False)"

fun first_accepted ::
  "'x store_env_scheme \<Rightarrow> action_state option \<Rightarrow> kyn \<Rightarrow> (bytes \<times> reveal \<times> bytes) list \<Rightarrow> bytes option" where
  "first_accepted E G current [] = None"
| "first_accepted E G current ((p, reveal, dist) # rest) =
     (if candidate_accepted E G current reveal then Some p else first_accepted E G current rest)"

definition xor_tie_breaker ::
  "'x resolution_env_scheme \<Rightarrow> action_state option \<Rightarrow> string \<Rightarrow> bytes list \<Rightarrow> kyn \<Rightarrow> bytes option" where
  "xor_tie_breaker E G query_name payloads current =
     (if payloads = [] then None
      else
        let unique_payloads = remdups_adj (sort payloads);
            parsed = parse_candidates E query_name unique_payloads
        in if list_ex is_kid_payload parsed then
             let current_time = to_ukyn current (BEACON_GENESIS E)
             in map_option fst (min_by_key snd (List.map_filter (kid_candidate E current_time) parsed))
           else if list_ex is_host_payload parsed then
             map_option fst (min_by_key snd (List.map_filter (host_candidate E current) parsed))
           else
             let candidates = List.map_filter (reveal_candidate current) parsed
             in first_accepted E G current (sort_key (\<lambda>(_, _, dist). dist) candidates))"

section \<open>What the tie-breaker returns\<close>

lemma set_map_filter: "set (List.map_filter f xs) = {y. \<exists>x\<in>set xs. f x = Some y}"
  by (force simp: List.map_filter_def)

lemma set_parse_candidates:
  "(p, d) \<in> set (parse_candidates E q ps) \<longleftrightarrow> p \<in> set ps \<and> parse_candidate E q p = Some d"
  by (auto simp: parse_candidates_def set_map_filter)

lemma min_by_key_fold:
  "let m = fold (\<lambda>y m. if f y < f m then y else m) xs x
   in m \<in> insert x (set xs) \<and> (\<forall>y\<in>insert x (set xs). (f m :: 'k::linorder) \<le> f y)"
proof (induction xs arbitrary: x)
  case (Cons a xs)
  show ?case
    using Cons.IH [of "if f a < f x then a else x"]
    by (auto simp: Let_def split: if_splits)
qed simp

lemma min_by_key_Some:
  assumes "min_by_key f xs = Some m"
  shows "m \<in> set xs" and "\<forall>y\<in>set xs. f m \<le> (f y :: 'k::linorder)"
proof -
  from assms obtain x rest where "xs = x # rest" "m = fold (\<lambda>y m. if f y < f m then y else m) rest x"
    by (auto simp: min_by_key_def split: list.splits)
  with min_by_key_fold [of f rest x] show "m \<in> set xs" "\<forall>y\<in>set xs. f m \<le> f y"
    by (simp_all add: Let_def)
qed

lemma min_by_key_None: "min_by_key f xs = None \<longleftrightarrow> xs = []"
  by (simp add: min_by_key_def split: list.splits)

lemma first_accepted_Some:
  assumes "first_accepted E G t xs = Some p" and "sorted (map (\<lambda>(_, _, d). d) xs)"
  shows "\<exists>r d. (p, r, d) \<in> set xs \<and> candidate_accepted E G t r
           \<and> (\<forall>(p', r', d')\<in>set xs. candidate_accepted E G t r' \<longrightarrow> d \<le> d')"
  using assms
proof (induction xs)
  case (Cons x xs)
  obtain p' r' d' where x: "x = (p', r', d')" by (cases x) auto
  show ?case
  proof (cases "candidate_accepted E G t r'")
    case True
    with Cons.prems x show ?thesis by (intro exI [of _ r'] exI [of _ d']) auto
  next
    case False
    with Cons.prems x obtain r d where "(p, r, d) \<in> set xs" "candidate_accepted E G t r"
      "\<forall>(p', r', d')\<in>set xs. candidate_accepted E G t r' \<longrightarrow> d \<le> d'" using Cons.IH by auto
    with False x show ?thesis by (intro exI [of _ r] exI [of _ d]) auto
  qed
qed simp

lemma first_accepted_None:
  "first_accepted E G t xs = None \<longleftrightarrow> (\<forall>(p, r, d)\<in>set xs. \<not> candidate_accepted E G t r)"
  by (induction E G t xs rule: first_accepted.induct) auto

text \<open>The specification: which payloads may be returned, and which of two of the same kind wins.\<close>

definition acceptable ::
  "'x resolution_env_scheme \<Rightarrow> action_state option \<Rightarrow> kyn \<Rightarrow> parsed_payload \<Rightarrow> bool" where
  "acceptable E G t d =
     (case d of
        ParsedKid doc \<Rightarrow> doc_verify E doc = Ok () \<and> created_at doc \<le> to_ukyn t (BEACON_GENESIS E) + 300
      | ParsedHostRouting route \<Rightarrow> verify_host_routing_record E route t = Ok ()
      | ParsedReveal reveal \<Rightarrow> candidate_accepted E G t reveal)"

fun beats :: "kyn \<Rightarrow> parsed_payload \<Rightarrow> parsed_payload \<Rightarrow> bool" where
  "beats t (ParsedKid a) (ParsedKid b) = (created_at b \<le> created_at a)"
| "beats t (ParsedHostRouting a) (ParsedHostRouting b) = (hr_kyn b \<le> hr_kyn a)"
| "beats t (ParsedReveal a) (ParsedReveal b) = (kyn_distance t a \<le> kyn_distance t b)"
| "beats t _ _ = False"

text \<open>The kind that is considered: documents before host routes before reveals.\<close>

fun payload_rank :: "parsed_payload \<Rightarrow> nat" where
  "payload_rank (ParsedKid _) = 0"
| "payload_rank (ParsedHostRouting _) = 1"
| "payload_rank (ParsedReveal _) = 2"

definition considered :: "'x resolution_env_scheme \<Rightarrow> string \<Rightarrow> bytes list \<Rightarrow> parsed_payload set" where
  "considered E q ps =
     (let found = {d. \<exists>p\<in>set ps. parse_candidate E q p = Some d}
      in {d \<in> found. \<forall>d'\<in>found. payload_rank d \<le> payload_rank d'})"

lemma unat_complement: "unat (18446744073709551615 - a :: u64) = 18446744073709551615 - unat a"
proof -
  have "a \<le> 18446744073709551615" using unat_lt_u64 [of a] by (simp add: word_le_nat_alt)
  then show ?thesis by (simp add: unat_sub)
qed

lemma complement_le:
  "18446744073709551615 - a \<le> 18446744073709551615 - b \<longleftrightarrow> b \<le> (a :: u64)"
  unfolding word_le_nat_alt unat_complement using unat_lt_u64 [of a] unat_lt_u64 [of b] by auto

lemma kid_candidate_Some:
  "kid_candidate E now x = Some y \<longleftrightarrow>
    (\<exists>doc. snd x = ParsedKid doc \<and> doc_verify E doc = Ok () \<and> created_at doc \<le> now + 300
       \<and> y = (fst x, 18446744073709551615 - created_at doc))"
  by (auto simp: kid_candidate_def is_ok_iff_Ok not_less split: parsed_payload.splits)

lemma host_candidate_Some:
  "host_candidate E t x = Some y \<longleftrightarrow>
    (\<exists>route. snd x = ParsedHostRouting route \<and> verify_host_routing_record E route t = Ok ()
       \<and> y = (fst x, 18446744073709551615 - hr_kyn route))"
  by (auto simp: host_candidate_def is_ok_iff_Ok split: parsed_payload.splits)

lemma reveal_candidate_Some:
  "reveal_candidate t x = Some y \<longleftrightarrow>
    (\<exists>r. snd x = ParsedReveal r \<and> y = (fst x, r, kyn_distance t r))"
  by (auto simp: reveal_candidate_def split: parsed_payload.splits)

lemmas candidate_Some = kid_candidate_Some host_candidate_Some reveal_candidate_Some

lemma is_kid_iff: "is_kid_payload x \<longleftrightarrow> payload_rank (snd x) = 0"
  by (auto simp: is_kid_payload_def split: parsed_payload.splits)

lemma is_host_iff: "is_host_payload x \<longleftrightarrow> payload_rank (snd x) = 1"
  by (auto simp: is_host_payload_def split: parsed_payload.splits)

lemma considered_rank:
  assumes "d \<in> considered E q ps" and "p \<in> set ps" and "parse_candidate E q p = Some d'"
  shows "payload_rank d \<le> payload_rank d'"
  using assms by (auto simp: considered_def Let_def)

text \<open>Each branch as a choice among the payloads of the considered kind.\<close>

definition best ::
  "'x resolution_env_scheme \<Rightarrow> action_state option \<Rightarrow> string \<Rightarrow> bytes list \<Rightarrow> kyn \<Rightarrow> bytes option \<Rightarrow> bool" where
  "best E G q ps t res =
     (case res of
        Some p \<Rightarrow> p \<in> set ps \<and> (\<exists>d. parse_candidate E q p = Some d \<and> d \<in> considered E q ps \<and> acceptable E G t d
                    \<and> (\<forall>d'\<in>considered E q ps. acceptable E G t d' \<longrightarrow> beats t d d'))
      | None \<Rightarrow> \<forall>d\<in>considered E q ps. \<not> acceptable E G t d)"

lemma best_min_by_key:
  assumes cand: "\<And>p d y. p \<in> set ps \<Longrightarrow> parse_candidate E q p = Some d \<Longrightarrow>
      f (p, d) = Some y \<longleftrightarrow> d \<in> considered E q ps \<and> acceptable E G t d \<and> y = (p, key d)"
    and key: "\<And>d d'. d \<in> considered E q ps \<Longrightarrow> d' \<in> considered E q ps \<Longrightarrow>
      (key d :: u64) \<le> key d' \<Longrightarrow> beats t d d'"
    and us: "set us = set ps"
  shows "best E G q ps t (map_option fst (min_by_key snd (List.map_filter f (parse_candidates E q us))))"
proof (cases "min_by_key snd (List.map_filter f (parse_candidates E q us))")
  case None
  have "\<not> acceptable E G t d" if "d \<in> considered E q ps" for d
  proof
    assume "acceptable E G t d"
    obtain p where "p \<in> set ps" "parse_candidate E q p = Some d"
      using \<open>d \<in> _\<close> by (auto simp: considered_def Let_def)
    then have "(p, key d) \<in> set (List.map_filter f (parse_candidates E q us))"
      using that \<open>acceptable E G t d\<close> by (auto simp: set_map_filter set_parse_candidates us cand intro!: bexI [of _ "(p, d)"])
    with None show False by (auto simp: min_by_key_None)
  qed
  with None show ?thesis by (simp add: best_def)
next
  case (Some m)
  note M = min_by_key_Some [OF Some]
  from M(1) obtain p d where d: "p \<in> set ps" "parse_candidate E q p = Some d" "f (p, d) = Some m"
    by (auto simp: set_map_filter set_parse_candidates us)
  then have D: "d \<in> considered E q ps" "acceptable E G t d" "m = (p, key d)" by (auto simp: cand)
  have "beats t d d'" if d': "d' \<in> considered E q ps" "acceptable E G t d'" for d'
  proof -
    obtain p' where p': "p' \<in> set ps" "parse_candidate E q p' = Some d'"
      using d'(1) by (auto simp: considered_def Let_def)
    then have "(p', key d') \<in> set (List.map_filter f (parse_candidates E q us))"
      using d' by (auto simp: set_map_filter set_parse_candidates us cand intro!: bexI [of _ "(p', d')"])
    with M(2) D(3) have "key d \<le> key d'" by auto
    with key D(1) d'(1) show ?thesis by blast
  qed
  with Some d D show ?thesis by (auto simp: best_def)
qed

lemma best_first_accepted:
  assumes "\<And>p d. p \<in> set ps \<Longrightarrow> parse_candidate E q p = Some d \<Longrightarrow> payload_rank d = 2" and us: "set us = set ps"
  shows "best E G q ps t (first_accepted E G t (sort_key (\<lambda>(_, _, dist). dist)
           (List.map_filter (reveal_candidate t) (parse_candidates E q us))))" (is "best E G q ps t ?res")
proof -
  let ?xs = "sort_key (\<lambda>(_, _, dist). dist) (List.map_filter (reveal_candidate t) (parse_candidates E q us))"
  have C: "d \<in> considered E q ps \<longleftrightarrow> (\<exists>p\<in>set ps. parse_candidate E q p = Some d)" for d
    using assms(1) by (force simp: considered_def Let_def)
  have R: "\<exists>r. d = ParsedReveal r" if "d \<in> considered E q ps" for d
    using that assms(1) by (cases d) (force simp: C)+
  have mem: "(p, r, d) \<in> set ?xs \<longleftrightarrow>
      p \<in> set ps \<and> parse_candidate E q p = Some (ParsedReveal r) \<and> d = kyn_distance t r" for p r d
    by (auto simp: set_map_filter set_parse_candidates us reveal_candidate_Some
        intro!: bexI [of _ "(p, ParsedReveal r)"])
  show ?thesis
  proof (cases ?res)
    case None
    have "\<not> acceptable E G t d" if d: "d \<in> considered E q ps" for d
    proof -
      obtain r p where r: "d = ParsedReveal r" "p \<in> set ps" "parse_candidate E q p = Some (ParsedReveal r)"
        using R [OF d] d by (auto simp: C)
      then have "(p, r, kyn_distance t r) \<in> set ?xs" by (simp only: mem)
      with None r show ?thesis by (auto simp: first_accepted_None acceptable_def)
    qed
    with None show ?thesis by (simp add: best_def)
  next
    case (Some p)
    obtain r d where r: "(p, r, d) \<in> set ?xs" "candidate_accepted E G t r"
      and least: "\<forall>(p', r', d')\<in>set ?xs. candidate_accepted E G t r' \<longrightarrow> d \<le> d'"
      using first_accepted_Some [OF Some] by (auto simp del: set_sort)
    have "beats t (ParsedReveal r) d'" if d': "d' \<in> considered E q ps" "acceptable E G t d'" for d'
    proof -
      obtain r' p' where r': "d' = ParsedReveal r'" "p' \<in> set ps" "parse_candidate E q p' = Some (ParsedReveal r')"
        using R [OF d'(1)] d'(1) by (auto simp: C)
      then have "(p', r', kyn_distance t r') \<in> set ?xs" by (simp only: mem)
      with least d'(2) r' have "d \<le> kyn_distance t r'" by (auto simp: acceptable_def simp del: set_sort)
      with r' r(1) show ?thesis unfolding mem by simp
    qed
    with r show ?thesis unfolding mem by (auto simp: Some best_def C acceptable_def)
  qed
qed

lemma kid_branch:
  assumes "p0 \<in> set ps" "parse_candidate E q p0 = Some (ParsedKid d0)"
  shows "d \<in> considered E q ps \<longleftrightarrow> (\<exists>p\<in>set ps. parse_candidate E q p = Some d) \<and> payload_rank d = 0"
  using assms by (force simp: considered_def Let_def)

lemma host_branch:
  assumes "p0 \<in> set ps" "parse_candidate E q p0 = Some (ParsedHostRouting d0)"
    and "\<And>p d. p \<in> set ps \<Longrightarrow> parse_candidate E q p = Some d \<Longrightarrow> payload_rank d \<noteq> 0"
  shows "d \<in> considered E q ps \<longleftrightarrow> (\<exists>p\<in>set ps. parse_candidate E q p = Some d) \<and> payload_rank d = 1"
proof
  assume "d \<in> considered E q ps"
  with assms show "(\<exists>p\<in>set ps. parse_candidate E q p = Some d) \<and> payload_rank d = 1"
    by (cases d) (force simp: considered_def Let_def)+
next
  assume "(\<exists>p\<in>set ps. parse_candidate E q p = Some d) \<and> payload_rank d = 1"
  with assms(3) show "d \<in> considered E q ps"
    by (fastforce simp: considered_def Let_def Suc_le_eq)
qed

lemma rank_0: "payload_rank d = 0 \<longleftrightarrow> (\<exists>doc. d = ParsedKid doc)"
  by (cases d) simp_all

lemma rank_1: "payload_rank d = Suc 0 \<longleftrightarrow> (\<exists>route. d = ParsedHostRouting route)"
  by (cases d) simp_all

lemma best_kid:
  assumes k: "p0 \<in> set ps" "parse_candidate E q p0 = Some (ParsedKid d0)" and us: "set us = set ps"
  shows "best E G q ps t (map_option fst (min_by_key snd
           (List.map_filter (kid_candidate E (to_ukyn t (BEACON_GENESIS E))) (parse_candidates E q us))))"
proof (rule best_min_by_key [where key = "\<lambda>d. case d of ParsedKid doc \<Rightarrow> 18446744073709551615 - created_at doc | _ \<Rightarrow> 0",
      OF _ _ us])
  fix p d y assume "p \<in> set ps" "parse_candidate E q p = Some d"
  then show "kid_candidate E (to_ukyn t (BEACON_GENESIS E)) (p, d) = Some y
      \<longleftrightarrow> d \<in> considered E q ps \<and> acceptable E G t d
          \<and> y = (p, case d of ParsedKid doc \<Rightarrow> 18446744073709551615 - created_at doc | _ \<Rightarrow> 0)"
    by (auto simp: kid_branch [OF k] kid_candidate_Some acceptable_def rank_0)
qed (auto simp: kid_branch [OF k] rank_0 complement_le)

lemma best_host:
  assumes h: "p0 \<in> set ps" "parse_candidate E q p0 = Some (ParsedHostRouting d0)"
    and r0: "\<And>p d. p \<in> set ps \<Longrightarrow> parse_candidate E q p = Some d \<Longrightarrow> payload_rank d \<noteq> 0"
    and us: "set us = set ps"
  shows "best E G q ps t (map_option fst (min_by_key snd
           (List.map_filter (host_candidate E t) (parse_candidates E q us))))"
proof -
  have H: "d \<in> considered E q ps \<longleftrightarrow> (\<exists>p\<in>set ps. parse_candidate E q p = Some d) \<and> payload_rank d = Suc 0" for d
    using host_branch [OF h, of d] r0 by simp
  show ?thesis
  proof (rule best_min_by_key [where key = "\<lambda>d. case d of ParsedHostRouting route \<Rightarrow> 18446744073709551615 - hr_kyn route | _ \<Rightarrow> 0",
        OF _ _ us])
    fix p d y assume "p \<in> set ps" "parse_candidate E q p = Some d"
    then show "host_candidate E t (p, d) = Some y
        \<longleftrightarrow> d \<in> considered E q ps \<and> acceptable E G t d
            \<and> y = (p, case d of ParsedHostRouting route \<Rightarrow> 18446744073709551615 - hr_kyn route | _ \<Rightarrow> 0)"
      by (auto simp: H host_candidate_Some acceptable_def rank_1)
  qed (auto simp: H rank_1 complement_le)
qed

text \<open>C6. The tie-breaker of a resolution is exact. Among the collected payloads that parse as the query
  asks for (identity documents first, then host routes, then reveals), it returns one that passes
  every check of its kind and that no other passing payload of that kind beats: the newest
  document, the newest host route, the reveal whose delay output is nearest to the current kyn by
  XOR; it returns nothing only when no payload passes.\<close>

theorem tie_breaker_exact:
  "best E G q ps t (xor_tie_breaker E G q ps t)"
proof (cases "ps = []")
  case True
  then show ?thesis by (simp add: xor_tie_breaker_def best_def considered_def)
next
  case ne: False
  let ?us = "remdups_adj (sort ps)"
  have us: "set ?us = set ps" by simp
  have ex: "list_ex P (parse_candidates E q ?us)
      \<longleftrightarrow> (\<exists>p d. p \<in> set ps \<and> parse_candidate E q p = Some d \<and> P (p, d))" for P
    by (auto simp: list_ex_iff set_parse_candidates)
  show ?thesis
  proof (cases "list_ex is_kid_payload (parse_candidates E q ?us)")
    case True
    then obtain p0 d0 where k: "p0 \<in> set ps" "parse_candidate E q p0 = Some (ParsedKid d0)"
      by (auto simp: ex is_kid_iff rank_0)
    from best_kid [OF k us] ne True show ?thesis by (simp add: xor_tie_breaker_def Let_def)
  next
    case nk: False
    then have r0: "payload_rank d \<noteq> 0" if "p \<in> set ps" "parse_candidate E q p = Some d" for p d
      using that by (auto simp: ex is_kid_iff)
    show ?thesis
    proof (cases "list_ex is_host_payload (parse_candidates E q ?us)")
      case True
      then obtain p0 d0 where h: "p0 \<in> set ps" "parse_candidate E q p0 = Some (ParsedHostRouting d0)"
        by (auto simp: ex is_host_iff rank_1)
      from best_host [OF h r0 us] ne nk True show ?thesis by (simp add: xor_tie_breaker_def Let_def)
    next
      case False
      have "payload_rank d = 2" if "p \<in> set ps" "parse_candidate E q p = Some d" for p d
        using r0 [OF that] False that by (cases d) (auto simp: ex is_host_iff)
      from best_first_accepted [OF this us] ne nk False show ?thesis
        by (simp add: xor_tie_breaker_def Let_def)
    qed
  qed
qed

text \<open>The challenge of the tie-breaker leaves out the network salt that commitments start with.\<close>

lemma candidate_accepted_iff:
  assumes "\<not> dev_mode E"
  shows "candidate_accepted E G t r \<longleftrightarrow>
    (\<exists>sig required. reveal_verify_signature E r (NETWORK_SALT E) = Ok ()
      \<and> hex_decode E (beacon_signature r) = Some sig
      \<and> verify_beacon_signature E (rv_kyn r) (beacon_signature r) False
      \<and> saturating_sub t (rv_kyn r) \<le> RESQUARING_EPOCH_KYNS
      \<and> compute_required_iterations E G r t = Ok required \<and> required \<le> rv_iterations r
      \<and> vdf_engine_verify E \<lparr>cm_hash = sha256 E (as_bytes (rv_name r) @ rv_salt r @ sha256 E sig @ rv_pubkey r)\<rparr>
          (rv_vdf_proof r) (rv_iterations r) = Ok True)"
proof (cases "hex_decode E (beacon_signature r)")
  case None
  then show ?thesis by (simp add: candidate_accepted_def)
next
  case (Some sig)
  have v: "(case x of Inl _ \<Rightarrow> False | Inr b \<Rightarrow> b) \<longleftrightarrow> x = Ok True" for x :: "(string, bool) result"
    by (cases x) auto
  show ?thesis
    by (cases "compute_required_iterations E G r t")
       (use assms in \<open>auto simp: candidate_accepted_def Some Let_def v is_ok_unit not_less\<close>)
qed

text \<open>Resolution and storage disagree on the challenge of a reveal: a reveal whose delay proof
  is valid for one challenge only, and which the store accepts, is never accepted by the
  tie-breaker of a resolution, because the tie-breaker recomputes the challenge without the
  network salt. Hypotheses: no SHA-256 collision between the two preimages, a non-empty
  network salt.\<close>

lemma stored_reveal_not_resolved:
  assumes "\<not> dev_mode E" and "NETWORK_SALT E \<noteq> []" and "inj (sha256 E)"
    and "verify_reveal E G S st r t = Ok ()"
    and "\<And>c c'. vdf_engine_verify E c (rv_vdf_proof r) (rv_iterations r) = Ok True \<Longrightarrow>
           vdf_engine_verify E c' (rv_vdf_proof r) (rv_iterations r) = Ok True \<Longrightarrow> c = c'"
  shows "\<not> candidate_accepted E G t' r"
proof
  assume "candidate_accepted E G t' r"
  then obtain sig where sig: "hex_decode E (beacon_signature r) = Some sig"
    and c: "vdf_engine_verify E \<lparr>cm_hash = sha256 E (as_bytes (rv_name r) @ rv_salt r @ sha256 E sig @ rv_pubkey r)\<rparr>
               (rv_vdf_proof r) (rv_iterations r) = Ok True"
    by (auto simp: candidate_accepted_iff [OF assms(1)])
  from assms(4) sig have "vdf_engine_verify E (reveal_challenge E r sig) (rv_vdf_proof r) (rv_iterations r) = Ok True"
    by (auto simp: verify_reveal_Ok [OF assms(1)])
  from assms(5) [OF c this] have "sha256 E (as_bytes (rv_name r) @ rv_salt r @ sha256 E sig @ rv_pubkey r)
      = sha256 E (NETWORK_SALT E @ as_bytes (rv_name r) @ rv_salt r @ sha256 E sig @ rv_pubkey r)"
    by (simp add: derive_def Let_def)
  then have "as_bytes (rv_name r) @ rv_salt r @ sha256 E sig @ rv_pubkey r
      = NETWORK_SALT E @ as_bytes (rv_name r) @ rv_salt r @ sha256 E sig @ rv_pubkey r"
    using assms(3) by (simp add: inj_eq)
  then have "length (NETWORK_SALT E) = 0" by (metis append_Nil append_same_eq length_0_conv)
  with assms(2) show False by simp
qed

text \<open>An engine that accepts one challenge only.\<close>

definition binding_store :: store_env where
  "binding_store = sample_store\<lparr>sha256 := id,
     vdf_engine_verify := \<lambda>c _ _. Ok (c = \<lparr>cm_hash = replicate 32 7 @ as_bytes ''satoshi.kin'' @ replicate 32 0
       @ replicate 96 0 @ replicate 1952 0\<rparr>)\<rparr>"

lemma binding_challenge:
  "reveal_challenge binding_store sample_reveal (replicate 96 0)
   = \<lparr>cm_hash = replicate 32 7 @ as_bytes ''satoshi.kin'' @ replicate 32 0 @ replicate 96 0 @ replicate 1952 0\<rparr>"
  by (simp add: derive_def binding_store_def sample_reveal_def sample_store_simps)

lemma binding_names: "names_ok binding_store" "NSP_SUFFIX binding_store = ''.kin''"
  by (rule sample_names_ok) (simp_all add: binding_store_def sample_store_simps)

lemma binding_iterations: "iterations binding_store ''satoshi.kin'' = 3582297450"
  unfolding satoshi_iterations [OF binding_names]
  by (rule word_eq_unatI) (simp add: label_iters_def Let_def unat_calc binding_store_def sample_store_simps)

lemma binding_fields [simp]:
  "signed_by binding_store pk m s" "hex_decode binding_store x = Some (replicate 96 0)"
  "\<not> dev_mode binding_store" "MINIMUM_COMMIT_AGE_KYNS binding_store = 30"
  "verify_beacon_signature binding_store i beacon False"
  "sha256 binding_store = id" "NETWORK_SALT binding_store \<noteq> []"
  by (simp_all add: signed_by_def verify_beacon_signature_def binding_store_def sample_store_simps)

definition binding_db :: "bytes wasm_storage" where
  "binding_db = \<lparr>db = [(KRS_COMMIT_PREFIX @ cm_hash (reveal_challenge binding_store sample_reveal (replicate 96 0)),
     u64_to_be_bytes 900)], opfs_handle = None\<rparr>"

lemma binding_accepts:
  "verify_reveal binding_store None (wasm_ops memory_file) binding_db sample_reveal 1000 = Ok ()"
proof (rule sample_accepted)
  have "vdf_engine_verify binding_store (reveal_challenge binding_store sample_reveal (replicate 96 0)) p i = Ok True" for p i
    unfolding binding_challenge by (simp add: binding_store_def)
  then show "accepts_sample binding_store"
    using binding_names binding_iterations satoshi_iterations [OF binding_names] by (simp add: accepts_sample_def)
  show "get_u64_from_db (wasm_ops memory_file) binding_db
      (KRS_COMMIT_PREFIX @ cm_hash (reveal_challenge binding_store sample_reveal (replicate 96 0))) = Some 900"
    by (simp add: get_u64_from_db_def storage_get_def binding_db_def)
qed

end
