(* ===== verification/Challenge.thy ===== *)
theory Challenge
  imports Network_Config
begin

text \<open>
  \<open>kinetic-network/src/challenge.rs\<close>: the Argon2id proof of work that a peer identity carries.
  Argon2id with the fixed parameters of the sources (16 MiB, one pass, one lane) is the
  parameter \<open>argon2\<close>, a function of the password and salt bytes that returns nothing when the
  allocation fails. The endless search of \<open>solve_p2p_challenge\<close> is a search over the list of
  key pairs the generator produces, which returns \<open>None\<close> while none of them is good enough.
\<close>

definition EPOCH_KYNS :: u64 where
  "EPOCH_KYNS = 1440"

definition CHALLENGE_THRESHOLD_BITS :: u32 where
  "CHALLENGE_THRESHOLD_BITS = 15"

definition CHALLENGE_THRESHOLD_BITS_CLIENT :: u32 where
  "CHALLENGE_THRESHOLD_BITS_CLIENT = 8"

text \<open>\<open>u8::leading_zeros\<close> of the standard library: the unset bits before the first set one.\<close>

definition byte_leading_zeros :: "u8 \<Rightarrow> u32" where
  "byte_leading_zeros b = of_nat (length (takeWhile (\<lambda>i. \<not> bit b (7 - i)) [0..<8]))"

fun leading_zeros_from :: "u32 \<Rightarrow> bytes \<Rightarrow> u32" where
  "leading_zeros_from zeros [] = zeros"
| "leading_zeros_from zeros (b # hash) =
     (if b = 0 then leading_zeros_from (zeros + 8) hash else zeros + byte_leading_zeros b)"

definition leading_zeros :: "bytes \<Rightarrow> u32" where
  "leading_zeros hash = leading_zeros_from 0 hash"

definition compute_pow_hash :: "(bytes \<Rightarrow> bytes \<Rightarrow> bytes option) \<Rightarrow> bytes \<Rightarrow> u64 \<Rightarrow> bytes option" where
  "compute_pow_hash argon2 peer_bytes epoch = argon2 peer_bytes (u64_to_be_bytes epoch)"

definition staggered_epoch :: "bytes \<Rightarrow> u64 \<Rightarrow> u64" where
  "staggered_epoch peer_bytes kyn =
     (let len = length peer_bytes;
          offset_bytes = (if 8 \<le> len then drop (len - 8) peer_bytes
                          else replicate (8 - len) 0 @ peer_bytes);
          offset = u64_from_be_bytes offset_bytes mod EPOCH_KYNS
      in saturating_add kyn offset div EPOCH_KYNS)"

definition pow_hash_reaches :: "(bytes \<Rightarrow> bytes \<Rightarrow> bytes option) \<Rightarrow> bytes \<Rightarrow> u64 \<Rightarrow> u32 \<Rightarrow> bool" where
  "pow_hash_reaches argon2 peer_bytes epoch difficulty =
     (case compute_pow_hash argon2 peer_bytes epoch of
        Some hash \<Rightarrow> difficulty \<le> leading_zeros hash
      | None \<Rightarrow> False)"

definition verify_p2p_challenge ::
  "'x network_constants_scheme \<Rightarrow> (bytes \<Rightarrow> bytes \<Rightarrow> bytes option) \<Rightarrow> bytes \<Rightarrow> u64 \<Rightarrow> u32 \<Rightarrow> bool" where
  "verify_p2p_challenge E argon2 peer_bytes current_kyn difficulty =
     (if dev_mode E then True
      else if current_kyn = 0 then False
      else let current_epoch = staggered_epoch peer_bytes current_kyn in
        if pow_hash_reaches argon2 peer_bytes current_epoch difficulty then True
        else if 0 < current_epoch
                \<and> pow_hash_reaches argon2 peer_bytes (current_epoch - 1) difficulty then True
        else False)"

datatype challenge_panic = KynUninitialized | Argon2Failed

text \<open>
  The loop of \<open>solve_p2p_challenge\<close> over the key pairs the generator hands out; \<open>to_bytes\<close> is
  \<open>PeerId::from(keypair.public()).to_bytes()\<close>.
\<close>

fun solve_loop ::
  "(bytes \<Rightarrow> bytes \<Rightarrow> bytes option) \<Rightarrow> ('k \<Rightarrow> bytes) \<Rightarrow> u64 \<Rightarrow> u32 \<Rightarrow> 'k list
     \<Rightarrow> (challenge_panic, 'k option) result" where
  "solve_loop argon2 to_bytes current_kyn difficulty [] = Ok None"
| "solve_loop argon2 to_bytes current_kyn difficulty (keypair # generated) =
     (let peer_bytes = to_bytes keypair;
          current_epoch = staggered_epoch peer_bytes current_kyn
      in case compute_pow_hash argon2 peer_bytes current_epoch of
           None \<Rightarrow> Err Argon2Failed
         | Some hash \<Rightarrow>
             if difficulty \<le> leading_zeros hash then Ok (Some keypair)
             else solve_loop argon2 to_bytes current_kyn difficulty generated)"

definition solve_p2p_challenge ::
  "'x network_constants_scheme \<Rightarrow> (bytes \<Rightarrow> bytes \<Rightarrow> bytes option) \<Rightarrow> ('k \<Rightarrow> bytes) \<Rightarrow> u64 \<Rightarrow> u32
     \<Rightarrow> 'k list \<Rightarrow> (challenge_panic, 'k option) result" where
  "solve_p2p_challenge E argon2 to_bytes current_kyn difficulty generated =
     reject_if (current_kyn = 0 \<and> \<not> dev_mode E) KynUninitialized
    (if dev_mode E then
       Ok (case generated of [] \<Rightarrow> None | keypair # _ \<Rightarrow> Some keypair)
     else solve_loop argon2 to_bytes current_kyn difficulty generated)"

section \<open>Leading zeros and the numeric target\<close>

lemma le_length_takeWhile_upt:
  "k \<le> length (takeWhile P [0..<n]) \<longleftrightarrow> k \<le> n \<and> (\<forall>i<k. P i)"
proof (induction n)
  case (Suc n)
  show ?case
  proof (cases "\<forall>i<n. P i")
    case True
    then have "takeWhile P ([0..<n] @ [n]) = [0..<n] @ takeWhile P [n]"
      by (intro takeWhile_append2) simp
    with True show ?thesis by (auto simp: le_Suc_eq less_Suc_eq)
  next
    case False
    then obtain x where "x < n" "\<not> P x" by blast
    then have "takeWhile P ([0..<n] @ [n]) = takeWhile P [0..<n]"
      by (intro takeWhile_append1 [of x]) simp_all
    with Suc.IH \<open>x < n\<close> \<open>\<not> P x\<close> show ?thesis by (auto simp: le_Suc_eq)
  qed
qed auto

lemma unat_byte_leading_zeros:
  "unat (byte_leading_zeros b) = length (takeWhile (\<lambda>i. \<not> bit b (7 - i)) [0..<8])"
proof -
  have "length (takeWhile (\<lambda>i. \<not> bit b (7 - i)) [0..<8]) \<le> 8"
    using length_takeWhile_le [of "\<lambda>i. \<not> bit b (7 - i)" "[0..<8]"] by simp
  then show ?thesis by (simp add: byte_leading_zeros_def unat_of_nat)
qed

lemma byte_leading_zeros_ge:
  assumes "k \<le> 8"
  shows "k \<le> unat (byte_leading_zeros b) \<longleftrightarrow> unat b < 2 ^ (8 - k)"
proof -
  have "(\<forall>i<k. \<not> bit b (7 - i)) \<longleftrightarrow> (\<forall>j<8. 8 - k \<le> j \<longrightarrow> \<not> bit b j)"
  proof (safe)
    fix j assume H: "\<forall>i<k. \<not> bit b (7 - i)" "j < 8" "8 - k \<le> j" "bit b j"
    then have "7 - j < k" "7 - (7 - j) = j" using assms by auto
    with H show False by metis
  next
    fix i assume H: "\<forall>j<8. 8 - k \<le> j \<longrightarrow> \<not> bit b j" "i < k" "bit b (7 - i)"
    then have "7 - i < 8" "8 - k \<le> 7 - i" using assms by auto
    with H show False by blast
  qed
  with assms show ?thesis
    by (simp add: unat_byte_leading_zeros le_length_takeWhile_upt byte_less_power)
qed

lemma leading_zeros_from_ge:
  assumes "unat z + 8 * length bs < 2 ^ 32"
  shows "unat z \<le> unat (leading_zeros_from z bs)
         \<and> (\<forall>k \<le> 8 * length bs. unat z + k \<le> unat (leading_zeros_from z bs)
                \<longleftrightarrow> be_value bs < 2 ^ (8 * length bs - k))"
  using assms
proof (induction bs arbitrary: z)
  case (Cons b bs)
  let ?n = "length bs"
  have P: "(256 :: nat) ^ ?n = 2 ^ (8 * ?n)" by (simp add: power_mult)
  show ?case
  proof (cases "b = 0")
    case True
    have z8: "unat (z + 8) = unat z + 8"
      using Cons.prems by (simp add: unat_word_ariths)
    have IH: "unat (z + 8) \<le> unat (leading_zeros_from (z + 8) bs)"
      "\<And>k. k \<le> 8 * ?n \<Longrightarrow> unat (z + 8) + k \<le> unat (leading_zeros_from (z + 8) bs)
              \<longleftrightarrow> be_value bs < 2 ^ (8 * ?n - k)"
      using Cons.IH [of "z + 8"] Cons.prems z8 by auto
    have "unat z + k \<le> unat (leading_zeros_from (z + 8) bs)
            \<longleftrightarrow> be_value bs < 2 ^ (8 * Suc ?n - k)" if "k \<le> 8 * Suc ?n" for k
    proof (cases "k \<le> 8")
      case le: True
      have "(2 :: nat) ^ (8 * ?n) \<le> 2 ^ (8 * Suc ?n - k)"
        by (rule power_increasing) (use le in auto)
      then have "be_value bs < 2 ^ (8 * Suc ?n - k)"
        using be_value_less [of bs] P by linarith
      with IH(1) le z8 show ?thesis by simp
    next
      case False
      then have "8 * ?n - (k - 8) = 8 * Suc ?n - k" by simp
      with False that IH(2) [of "k - 8"] z8 show ?thesis by simp
    qed
    moreover have "unat z \<le> unat (leading_zeros_from (z + 8) bs)" using IH(1) z8 by linarith
    ultimately show ?thesis using True by simp
  next
    case False
    have lz8: "unat (byte_leading_zeros b) \<le> 8"
      by (simp add: unat_byte_leading_zeros order_trans [OF length_takeWhile_le])
    then have sum: "unat (z + byte_leading_zeros b) = unat z + unat (byte_leading_zeros b)"
      using Cons.prems by (simp add: unat_word_ariths)
    have nz: "0 < unat b" using False by (simp add: unat_gt_0)
    have "k \<le> unat (byte_leading_zeros b) \<longleftrightarrow> be_value (b # bs) < 2 ^ (8 * Suc ?n - k)"
      if "k \<le> 8 * Suc ?n" for k
    proof (cases "k \<le> 8")
      case True
      then have "(2 :: nat) ^ (8 * Suc ?n - k) = 2 ^ (8 - k) * 2 ^ (8 * ?n)"
        by (simp add: power_add [symmetric])
      then show ?thesis
        using byte_leading_zeros_ge [OF True, of b] be_value_less [of bs] P
        by (simp add: digit_less)
    next
      case k: False
      then have "(2 :: nat) ^ (8 * Suc ?n - k) \<le> 2 ^ (8 * ?n)"
        by (intro power_increasing) auto
      moreover have "(2 :: nat) ^ (8 * ?n) \<le> be_value (b # bs)"
      proof -
        have "1 * (2 :: nat) ^ (8 * ?n) \<le> unat b * 2 ^ (8 * ?n)"
          by (rule mult_le_mono1) (use nz in simp)
        then show ?thesis unfolding be_value.simps P by linarith
      qed
      moreover have "\<not> k \<le> unat (byte_leading_zeros b)" using lz8 k by linarith
      ultimately show ?thesis by linarith
    qed
    with False sum show ?thesis by simp
  qed
qed simp

lemma leading_zeros_ge:
  assumes "length bs < 2 ^ 29" and "unat d \<le> 8 * length bs"
  shows "d \<le> leading_zeros bs \<longleftrightarrow> be_value bs < 2 ^ (8 * length bs - unat d)"
  using leading_zeros_from_ge [of 0 bs] assms by (simp add: leading_zeros_def word_le_nat_alt)

section \<open>Epochs\<close>

definition epoch_offset :: "bytes \<Rightarrow> nat" where
  "epoch_offset peer_bytes =
     unat (u64_from_be_bytes (if 8 \<le> length peer_bytes then drop (length peer_bytes - 8) peer_bytes
             else replicate (8 - length peer_bytes) 0 @ peer_bytes)) mod 1440"

lemma unat_staggered_epoch:
  "unat (staggered_epoch p kyn) = min (unat kyn + epoch_offset p) (2 ^ 64 - 1) div 1440"
  by (simp only: staggered_epoch_def Let_def unat_div unat_saturating_add unat_mod
      EPOCH_KYNS_def epoch_offset_def) simp

lemma div_window: "a \<le> b \<Longrightarrow> b < a + 1440 \<Longrightarrow> b div 1440 = a div 1440 \<or> b div 1440 = Suc (a div 1440)"
  for a b :: nat
  by linarith

text \<open>Within one epoch length of kyns the staggered epoch moves by at most one.\<close>

lemma staggered_epoch_window:
  assumes "kyn \<le> kyn'" and "unat kyn' < unat kyn + unat EPOCH_KYNS"
  shows "staggered_epoch p kyn' = staggered_epoch p kyn
         \<or> 0 < staggered_epoch p kyn' \<and> staggered_epoch p kyn' - 1 = staggered_epoch p kyn"
proof -
  have "min (unat kyn + epoch_offset p) (2 ^ 64 - 1) \<le> min (unat kyn' + epoch_offset p) (2 ^ 64 - 1)"
    and "min (unat kyn' + epoch_offset p) (2 ^ 64 - 1)
         < min (unat kyn + epoch_offset p) (2 ^ 64 - 1) + 1440"
    using assms by (auto simp: word_le_nat_alt EPOCH_KYNS_def)
  then have "unat (staggered_epoch p kyn') = unat (staggered_epoch p kyn)
             \<or> unat (staggered_epoch p kyn') = Suc (unat (staggered_epoch p kyn))"
    unfolding unat_staggered_epoch by (rule div_window)
  then show ?thesis
  proof
    assume S: "unat (staggered_epoch p kyn') = Suc (unat (staggered_epoch p kyn))"
    then have "0 < staggered_epoch p kyn'" by (simp add: word_less_nat_alt)
    moreover from this S have "unat (staggered_epoch p kyn' - 1) = unat (staggered_epoch p kyn)"
      by (simp add: unat_minus_one)
    ultimately show ?thesis using word_eq_unatI by blast
  qed (use word_eq_unatI in blast)
qed


section \<open>Mining and verification\<close>

lemma solve_loop_mined:
  "solve_loop argon2 to_bytes kyn d ks = Ok (Some k) \<Longrightarrow>
     k \<in> set ks \<and> pow_hash_reaches argon2 (to_bytes k) (staggered_epoch (to_bytes k) kyn) d"
  by (induction ks) (auto simp: Let_def pow_hash_reaches_def split: option.splits if_splits)

lemma solve_loop_progress:
  assumes "\<And>p s. argon2 p s \<noteq> None"
    and "k \<in> set ks" "pow_hash_reaches argon2 (to_bytes k) (staggered_epoch (to_bytes k) kyn) d"
  shows "\<exists>k'. solve_loop argon2 to_bytes kyn d ks = Ok (Some k')"
  using assms(2,3)
proof (induction ks)
  case (Cons a ks)
  obtain h where "compute_pow_hash argon2 (to_bytes a) (staggered_epoch (to_bytes a) kyn) = Some h"
    using assms(1) by (fastforce simp: compute_pow_hash_def)
  with Cons show ?case by (auto simp: Let_def pow_hash_reaches_def)
qed simp

lemma pow_hash_reaches_iff:
  assumes "\<And>p s h. argon2 p s = Some h \<Longrightarrow> length h = 32" and "unat d \<le> 256"
  shows "pow_hash_reaches argon2 p e d
         \<longleftrightarrow> (\<exists>h. argon2 p (u64_to_be_bytes e) = Some h \<and> be_value h < 2 ^ (256 - unat d))"
proof (cases "argon2 p (u64_to_be_bytes e)")
  case (Some h)
  then have "length h = 32" by (rule assms(1))
  with Some assms(2) leading_zeros_ge [of h d] show ?thesis
    by (simp add: pow_hash_reaches_def compute_pow_hash_def)
qed (simp add: pow_hash_reaches_def compute_pow_hash_def)

text \<open>Outside dev mode the proof-of-work check of a peer identity is exactly the numeric one:
  the kyn is known (not 0) and the Argon2id hash of the peer id under the staggered epoch, or
  under the epoch before it when there is one, is below \<open>2 ^ (256 - difficulty)\<close> as a big-endian
  number.\<close>

lemma verify_p2p_challenge_exact:
  assumes "\<not> dev_mode E"
    and "\<And>p s h. argon2 p s = Some h \<Longrightarrow> length h = 32" and "unat difficulty \<le> 256"
  shows "verify_p2p_challenge E argon2 peer_bytes kyn difficulty
         \<longleftrightarrow> kyn \<noteq> 0 \<and> (\<exists>e h. (e = staggered_epoch peer_bytes kyn
                            \<or> 0 < staggered_epoch peer_bytes kyn \<and> e = staggered_epoch peer_bytes kyn - 1)
                      \<and> argon2 peer_bytes (u64_to_be_bytes e) = Some h
                      \<and> be_value h < 2 ^ (256 - unat difficulty))"
proof -
  have P: "pow_hash_reaches argon2 peer_bytes e difficulty
           \<longleftrightarrow> (\<exists>h. argon2 peer_bytes (u64_to_be_bytes e) = Some h \<and> be_value h < 2 ^ (256 - unat difficulty))"
    for e by (rule pow_hash_reaches_iff [OF _ assms(3)]) (rule assms(2))
  show ?thesis
    unfolding verify_p2p_challenge_def Let_def P using assms(1) by auto
qed

text \<open>C38. An identity mined at a kyn is accepted, at the difficulty it was mined for, at every kyn
  from then on until a full epoch of \<open>EPOCH_KYNS\<close> kyns has passed; the miner itself returns as
  soon as the generator has produced a key pair whose hash reaches the difficulty, if Argon2
  never fails.\<close>

theorem mined_identity_accepted:
  assumes "\<not> dev_mode E" and "kyn \<noteq> 0" and "\<And>p s. argon2 p s \<noteq> None"
    and "k \<in> set generated"
    and "pow_hash_reaches argon2 (to_bytes k) (staggered_epoch (to_bytes k) kyn) difficulty"
  shows "\<exists>keypair\<in>set generated.
           solve_p2p_challenge E argon2 to_bytes kyn difficulty generated = Ok (Some keypair)
           \<and> (\<forall>kyn'. kyn \<le> kyn' \<longrightarrow> unat kyn' < unat kyn + unat EPOCH_KYNS
                \<longrightarrow> verify_p2p_challenge E argon2 (to_bytes keypair) kyn' difficulty)"
proof -
  obtain keypair where L: "solve_loop argon2 to_bytes kyn difficulty generated = Ok (Some keypair)"
    using solve_loop_progress [of argon2 k generated to_bytes kyn difficulty] assms(3-5) by blast
  note R = solve_loop_mined [OF L]
  have "verify_p2p_challenge E argon2 (to_bytes keypair) kyn' difficulty"
    if "kyn \<le> kyn'" "unat kyn' < unat kyn + unat EPOCH_KYNS" for kyn'
  proof -
    have "kyn' \<noteq> 0" using that(1) assms(2) by (auto simp: word_le_nat_alt unat_eq_zero)
    with staggered_epoch_window [OF that, of "to_bytes keypair"] R show ?thesis
      unfolding verify_p2p_challenge_def Let_def by auto
  qed
  with L R assms(1,2) show ?thesis by (auto simp: solve_p2p_challenge_def)
qed

text \<open>A hash of 32 bytes whose first byte is 0 and a fixed key, at the light-client difficulty.\<close>

definition sample_argon2 :: "bytes \<Rightarrow> bytes \<Rightarrow> bytes option" where
  "sample_argon2 p s = Some (replicate 31 0 @ [1])"

theorem mined_identity_accepted_witness:
  "\<exists>keypair\<in>set [[7 :: u8]].
     solve_p2p_challenge (default_network\<lparr>dev_mode := False\<rparr>) sample_argon2 id 2000
       CHALLENGE_THRESHOLD_BITS_CLIENT [[7]] = Ok (Some keypair)
     \<and> (\<forall>kyn'. 2000 \<le> kyn' \<longrightarrow> unat kyn' < unat (2000 :: u64) + unat EPOCH_KYNS
          \<longrightarrow> verify_p2p_challenge (default_network\<lparr>dev_mode := False\<rparr>) sample_argon2 (id keypair)
                kyn' CHALLENGE_THRESHOLD_BITS_CLIENT)"
proof (rule mined_identity_accepted)
  have "leading_zeros (replicate 31 0 @ [1]) = 255" by code_simp
  then show "pow_hash_reaches sample_argon2 (id [7]) (staggered_epoch (id [7]) 2000)
               CHALLENGE_THRESHOLD_BITS_CLIENT"
    by (simp add: pow_hash_reaches_def compute_pow_hash_def sample_argon2_def
        CHALLENGE_THRESHOLD_BITS_CLIENT_def)
qed (simp_all add: sample_argon2_def)

end
