(* ===== verification/Dns_Tree.thy ===== *)
theory Dns_Tree
  imports Rust_Strings Net_Security
begin

text \<open>
  \<open>kinetic-network/src/dns_tree.rs\<close>: discovery of bootstrap addresses through a tree of DNS TXT
  records. The resolver and the parser of multiaddresses are parameters; \<open>txt_lookup\<close> gives the
  character strings of each TXT record of an answer, or nothing when the lookup fails.
  \<open>trim_unicode\<close> and \<open>first_word_unicode\<close> are \<open>str::trim\<close> and the first item of
  \<open>str::split_whitespace\<close> on strings with code points beyond ASCII.
\<close>

record dns_env =
  resolver_ok :: bool
  txt_lookup :: "string \<Rightarrow> string list list option"
  parse_multiaddr :: "string \<Rightarrow> multiaddr option"
  trim_unicode :: "string \<Rightarrow> string"
  first_word_unicode :: "string \<Rightarrow> string option"

section \<open>The standard library\<close>

text \<open>\<open>std::str::from_utf8\<close> succeeds on the well-formed byte sequences.\<close>

definition utf8_tail :: "nat \<Rightarrow> bool" where
  "utf8_tail b = (128 \<le> b \<and> b \<le> 191)"

fun utf8_valid :: "nat list \<Rightarrow> bool" where
  "utf8_valid [] = True"
| "utf8_valid (b # bs) =
     (if b < 128 then utf8_valid bs
      else if 194 \<le> b \<and> b \<le> 223 then
        (case bs of c # r \<Rightarrow> utf8_tail c \<and> utf8_valid r | _ \<Rightarrow> False)
      else if 224 \<le> b \<and> b \<le> 239 then
        (case bs of c # d # r \<Rightarrow>
           utf8_tail c \<and> (b = 224 \<longrightarrow> 160 \<le> c) \<and> (b = 237 \<longrightarrow> c \<le> 159) \<and> utf8_tail d \<and> utf8_valid r
         | _ \<Rightarrow> False)
      else if 240 \<le> b \<and> b \<le> 244 then
        (case bs of c # d # e # r \<Rightarrow>
           utf8_tail c \<and> (b = 240 \<longrightarrow> 144 \<le> c) \<and> (b = 244 \<longrightarrow> c \<le> 143) \<and> utf8_tail d \<and> utf8_tail e
           \<and> utf8_valid r
         | _ \<Rightarrow> False)
      else False)"

definition from_utf8 :: "string \<Rightarrow> string option" where
  "from_utf8 raw = (if utf8_valid (map code raw) then Some raw else None)"

definition is_ascii_space :: "char \<Rightarrow> bool" where
  "is_ascii_space c = (9 \<le> code c \<and> code c \<le> 13 \<or> code c = 32)"

definition trim_str :: "'x dns_env_scheme \<Rightarrow> string \<Rightarrow> string" where
  "trim_str R s =
     (if list_all is_ascii s then rev (dropWhile is_ascii_space (rev (dropWhile is_ascii_space s)))
      else trim_unicode R s)"

definition first_word :: "'x dns_env_scheme \<Rightarrow> string \<Rightarrow> string option" where
  "first_word R s =
     (if list_all is_ascii s then
        (let w = takeWhile (\<lambda>c. \<not> is_ascii_space c) (dropWhile is_ascii_space s)
         in if w = [] then None else Some w)
      else first_word_unicode R s)"

text \<open>The second item of \<open>str::split\<close> with a string pattern.\<close>

fun split_first :: "'a list \<Rightarrow> 'a list \<Rightarrow> ('a list \<times> 'a list) option" where
  "split_first p s =
     (if starts_with s p then Some ([], drop (length p) s)
      else case s of [] \<Rightarrow> None | x # xs \<Rightarrow> map_option (\<lambda>(a, b). (x # a, b)) (split_first p xs))"

declare split_first.simps [simp del]

definition second_part :: "'a list \<Rightarrow> 'a list \<Rightarrow> 'a list option" where
  "second_part p s =
     (case split_first p s of
        None \<Rightarrow> None
      | Some (_, rest) \<Rightarrow> Some (case split_first p rest of None \<Rightarrow> rest | Some (a, _) \<Rightarrow> a))"

text \<open>\<open>str::trim_start_matches\<close> removes the pattern as often as it occurs.\<close>

function trim_start_matches :: "'a list \<Rightarrow> 'a list \<Rightarrow> 'a list" where
  "trim_start_matches p s =
     (if p \<noteq> [] \<and> starts_with s p then trim_start_matches p (drop (length p) s) else s)"
  by pat_completeness auto
termination
proof (relation "measure (\<lambda>(p, s). length s)")
  fix p s :: "'a list"
  assume "p \<noteq> [] \<and> starts_with s p"
  then show "((p, drop (length p) s), p, s) \<in> measure (\<lambda>(p, s). length s)"
    by (auto simp: starts_with_iff)
qed simp

declare trim_start_matches.simps [simp del]

section \<open>The resolution\<close>

text \<open>The loop over the TXT strings of the root domain.\<close>

definition root_txt ::
  "'x dns_env_scheme \<Rightarrow> string \<Rightarrow> string option \<times> multiaddr list \<Rightarrow> string option \<times> multiaddr list" where
  "root_txt R raw_txt acc =
     (let (root_hash, addrs) = acc in
      case from_utf8 raw_txt of
        None \<Rightarrow> acc
      | Some txt_str \<Rightarrow>
          if starts_with txt_str ''kintree-root:v1'' then
            (case second_part '' e='' txt_str of
               Some hash_part \<Rightarrow>
                 (Some (case first_word R hash_part of Some h \<Rightarrow> h | None \<Rightarrow> hash_part), addrs)
             | None \<Rightarrow> acc)
          else if starts_with txt_str ''/ip4/'' \<or> starts_with txt_str ''/ip6/'' then
            (case parse_multiaddr R (trim_str R txt_str) of
               Some ma \<Rightarrow> (root_hash, addrs @ [ma])
             | None \<Rightarrow> acc)
          else acc)"

text \<open>The loop over the TXT strings of a branch domain.\<close>

definition branch_txt ::
  "'x dns_env_scheme \<Rightarrow> string \<Rightarrow> string list \<times> multiaddr list \<Rightarrow> string list \<times> multiaddr list" where
  "branch_txt R raw_txt acc =
     (let (branches, addrs) = acc in
      case from_utf8 raw_txt of
        None \<Rightarrow> acc
      | Some txt_str \<Rightarrow>
          if starts_with txt_str ''kintree-branch:'' then
            let parts = trim_start_matches ''kintree-branch:'' txt_str
            in (branches @ filter (\<lambda>h. h \<noteq> []) (map (trim_str R) (split_on CHR '','' parts)), addrs)
          else if starts_with txt_str ''kintree-leaf:'' then
            let ma_str = trim_str R (trim_start_matches ''kintree-leaf:'' txt_str)
            in (case parse_multiaddr R ma_str of
                  Some ma \<Rightarrow> (branches, addrs @ [ma])
                | None \<Rightarrow> acc)
          else acc)"

definition max_lookups :: nat where
  "max_lookups = 20"

text \<open>The traversal: the branches to visit (the last one first), the visited hashes and the
  addresses found so far. Its final value keeps the visited hashes, which are the lookups made.\<close>

function tree_loop ::
  "'x dns_env_scheme \<Rightarrow> string \<Rightarrow> string list \<Rightarrow> string list \<Rightarrow> nat \<Rightarrow> multiaddr list
     \<Rightarrow> string list \<times> multiaddr list" where
  "tree_loop R domain branches visited lookups addrs =
     (if branches = [] then (visited, addrs)
      else
        let branch_hash = last branches; branches = butlast branches in
        if max_lookups \<le> lookups \<or> 50 \<le> length addrs then (visited, addrs)
        else if branch_hash \<in> set visited then tree_loop R domain branches visited lookups addrs
        else
          let (branches', addrs') =
                (case txt_lookup R (branch_hash @ ''.'' @ domain) of
                   Some response \<Rightarrow> fold (branch_txt R) (concat response) (branches, addrs)
                 | None \<Rightarrow> (branches, addrs))
          in tree_loop R domain branches' (visited @ [branch_hash]) (lookups + 1) addrs')"
  by pat_completeness auto
termination
  by (relation "measures [\<lambda>(R, domain, branches, visited, lookups, addrs). max_lookups - lookups,
                          \<lambda>(R, domain, branches, visited, lookups, addrs). length branches]") auto

declare tree_loop.simps [simp del]

definition resolve_dns_tree :: "'x dns_env_scheme \<Rightarrow> string \<Rightarrow> multiaddr list" where
  "resolve_dns_tree R domain =
     (if \<not> resolver_ok R then []
      else case txt_lookup R domain of
        None \<Rightarrow> []
      | Some root_records \<Rightarrow>
          (let (root_hash, addrs) = fold (root_txt R) (concat root_records) (None, [])
           in case root_hash of
                Some hash \<Rightarrow> snd (tree_loop R domain [hash] [] 0 addrs)
              | None \<Rightarrow> addrs))"

section \<open>Bounds and origin of the addresses\<close>

text \<open>The TXT strings an address may be parsed from, for the domains looked up.\<close>

definition root_address :: "'x dns_env_scheme \<Rightarrow> string \<Rightarrow> multiaddr \<Rightarrow> bool" where
  "root_address R domain a =
     (\<exists>response txt. txt_lookup R domain = Some response \<and> txt \<in> set (concat response)
        \<and> (starts_with txt ''/ip4/'' \<or> starts_with txt ''/ip6/'') \<and> parse_multiaddr R (trim_str R txt) = Some a)"

definition leaf_address :: "'x dns_env_scheme \<Rightarrow> string \<Rightarrow> string \<Rightarrow> multiaddr \<Rightarrow> bool" where
  "leaf_address R domain hash a =
     (\<exists>response txt. txt_lookup R (hash @ ''.'' @ domain) = Some response \<and> txt \<in> set (concat response)
        \<and> starts_with txt ''kintree-leaf:''
        \<and> parse_multiaddr R (trim_str R (trim_start_matches ''kintree-leaf:'' txt)) = Some a)"

lemma from_utf8_Some: "from_utf8 raw = Some s \<longleftrightarrow> s = raw \<and> utf8_valid (map code raw)"
  by (auto simp: from_utf8_def)

lemma root_fold_addresses:
  "a \<in> set (snd (fold (root_txt R) txts acc)) \<Longrightarrow>
     a \<in> set (snd acc) \<or> (\<exists>txt\<in>set txts. (starts_with txt ''/ip4/'' \<or> starts_with txt ''/ip6/'')
        \<and> parse_multiaddr R (trim_str R txt) = Some a)"
proof (induction txts arbitrary: acc)
  case (Cons s ss)
  then have "a \<in> set (snd (root_txt R s acc)) \<or> (\<exists>txt\<in>set ss. (starts_with txt ''/ip4/'' \<or> starts_with txt ''/ip6/'')
        \<and> parse_multiaddr R (trim_str R txt) = Some a)" by simp
  then show ?case
    by (auto simp: root_txt_def from_utf8_Some split_beta Let_def split: option.splits if_splits)
qed simp

lemma branch_fold_addresses:
  "a \<in> set (snd (fold (branch_txt R) txts acc)) \<Longrightarrow>
     a \<in> set (snd acc) \<or> (\<exists>txt\<in>set txts. starts_with txt ''kintree-leaf:''
        \<and> parse_multiaddr R (trim_str R (trim_start_matches ''kintree-leaf:'' txt)) = Some a)"
proof (induction txts arbitrary: acc)
  case (Cons s ss)
  then have "a \<in> set (snd (branch_txt R s acc)) \<or> (\<exists>txt\<in>set ss. starts_with txt ''kintree-leaf:''
        \<and> parse_multiaddr R (trim_str R (trim_start_matches ''kintree-leaf:'' txt)) = Some a)" by simp
  then show ?case
    by (auto simp: branch_txt_def from_utf8_Some split_beta Let_def split: option.splits if_splits)
qed simp

lemma tree_loop_bounds:
  assumes "distinct visited" and "lookups = length visited" and "lookups \<le> max_lookups"
    and "tree_loop R domain branches visited lookups addrs = (visited', addrs')"
  shows "distinct visited' \<and> length visited' \<le> max_lookups
         \<and> (\<forall>a\<in>set addrs'. a \<in> set addrs \<or> (\<exists>h\<in>set visited'. leaf_address R domain h a))
         \<and> set visited \<subseteq> set visited'"
  using assms
proof (induction R domain branches visited lookups addrs rule: tree_loop.induct)
  case (1 R domain branches visited lookups addrs)
  let ?h = "last branches"
  consider (stop) "branches = [] \<or> max_lookups \<le> lookups \<or> 50 \<le> length addrs"
    | (seen) "branches \<noteq> []" "\<not> (max_lookups \<le> lookups \<or> 50 \<le> length addrs)" "?h \<in> set visited"
    | (visit) "branches \<noteq> []" "\<not> (max_lookups \<le> lookups \<or> 50 \<le> length addrs)" "?h \<notin> set visited"
    by blast
  then show ?case
  proof cases
    case stop
    then have "visited' = visited \<and> addrs' = addrs"
      using "1.prems"(4) by (subst (asm) tree_loop.simps) (auto simp: Let_def split: if_splits)
    with "1.prems" show ?thesis by auto
  next
    case seen
    then have "tree_loop R domain (butlast branches) visited lookups addrs = (visited', addrs')"
      using "1.prems"(4) by (subst (asm) tree_loop.simps) (simp add: Let_def)
    with "1.IH"(1) [OF seen(1) refl refl seen(2,3)] "1.prems" show ?thesis by blast
  next
    case visit
    obtain branches'' addrs'' where f: "(branches'', addrs'')
        = (case txt_lookup R (?h @ ''.'' @ domain) of
             Some response \<Rightarrow> fold (branch_txt R) (concat response) (butlast branches, addrs)
           | None \<Rightarrow> (butlast branches, addrs))"
      by (metis surj_pair)
    then have loop: "tree_loop R domain branches'' (visited @ [?h]) (lookups + 1) addrs'' = (visited', addrs')"
      using visit "1.prems"(4) by (subst (asm) tree_loop.simps) (simp add: Let_def split: prod.splits)
    have new: "a \<in> set addrs \<or> leaf_address R domain ?h a" if "a \<in> set addrs''" for a
    proof (cases "txt_lookup R (?h @ ''.'' @ domain)")
      case None
      with f that show ?thesis by simp
    next
      case (Some response)
      with f have "addrs'' = snd (fold (branch_txt R) (concat response) (butlast branches, addrs))"
        by (simp add: prod_eq_iff)
      with branch_fold_addresses [of a R "concat response"] that Some show ?thesis
        unfolding leaf_address_def by fastforce
    qed
    have "distinct visited' \<and> length visited' \<le> max_lookups
         \<and> (\<forall>a\<in>set addrs'. a \<in> set addrs'' \<or> (\<exists>h\<in>set visited'. leaf_address R domain h a))
         \<and> set (visited @ [?h]) \<subseteq> set visited'"
      by (rule "1.IH"(2) [OF visit(1) refl refl visit(2,3) f refl _ _ _ loop])
        (use visit "1.prems" in auto)
    with new show ?thesis by fastforce
  qed
qed

text \<open>The traversal reads the DNS only at the branches it has visited.\<close>

lemma strings_local [simp]:
  "trim_str (R\<lparr>txt_lookup := f\<rparr>) = trim_str R" "first_word (R\<lparr>txt_lookup := f\<rparr>) = first_word R"
  by (simp_all add: fun_eq_iff trim_str_def first_word_def)

lemma txt_local [simp]:
  "root_txt (R\<lparr>txt_lookup := f\<rparr>) = root_txt R" "branch_txt (R\<lparr>txt_lookup := f\<rparr>) = branch_txt R"
  by (simp_all add: fun_eq_iff root_txt_def branch_txt_def Let_def cong: option.case_cong if_cong)

lemma tree_loop_local:
  assumes "tree_loop R domain branches visited lookups addrs = (visited', addrs')"
    and "distinct visited" and "lookups = length visited" and "lookups \<le> max_lookups"
    and "\<forall>h\<in>set visited'. f (h @ ''.'' @ domain) = txt_lookup R (h @ ''.'' @ domain)"
  shows "tree_loop (R\<lparr>txt_lookup := f\<rparr>) domain branches visited lookups addrs = (visited', addrs')"
  using assms
proof (induction R domain branches visited lookups addrs rule: tree_loop.induct)
  case (1 R domain branches visited lookups addrs)
  let ?h = "last branches" and ?R = "R\<lparr>txt_lookup := f\<rparr>"
  consider (stop) "branches = [] \<or> max_lookups \<le> lookups \<or> 50 \<le> length addrs"
    | (seen) "branches \<noteq> []" "\<not> (max_lookups \<le> lookups \<or> 50 \<le> length addrs)" "?h \<in> set visited"
    | (visit) "branches \<noteq> []" "\<not> (max_lookups \<le> lookups \<or> 50 \<le> length addrs)" "?h \<notin> set visited"
    by blast
  then show ?case
  proof cases
    case stop
    with "1.prems"(1) show ?thesis
      by (subst (asm) tree_loop.simps, subst tree_loop.simps) (auto simp: Let_def split: if_splits)
  next
    case seen
    then have "tree_loop R domain (butlast branches) visited lookups addrs = (visited', addrs')"
      using "1.prems"(1) by (subst (asm) tree_loop.simps) (simp add: Let_def)
    from "1.IH"(1) [OF seen(1) refl refl seen(2,3) this "1.prems"(2-5)] seen show ?thesis
      by (subst tree_loop.simps) (simp add: Let_def)
  next
    case visit
    obtain branches'' addrs'' where f: "(branches'', addrs'')
        = (case txt_lookup R (?h @ ''.'' @ domain) of
             Some response \<Rightarrow> fold (branch_txt R) (concat response) (butlast branches, addrs)
           | None \<Rightarrow> (butlast branches, addrs))"
      by (metis surj_pair)
    then have loop: "tree_loop R domain branches'' (visited @ [?h]) (lookups + 1) addrs'' = (visited', addrs')"
      using visit "1.prems"(1) by (subst (asm) tree_loop.simps) (simp add: Let_def split: prod.splits)
    have ok: "distinct (visited @ [?h])" "lookups + 1 = length (visited @ [?h])" "lookups + 1 \<le> max_lookups"
      using visit "1.prems" by auto
    have "?h \<in> set visited'" using tree_loop_bounds [OF ok loop] by auto
    then have "f (?h @ ''.'' @ domain) = txt_lookup R (?h @ ''.'' @ domain)" using "1.prems"(5) by blast
    with f have "(case f (?h @ ''.'' @ domain) of
             Some response \<Rightarrow> fold (branch_txt R) (concat response) (butlast branches, addrs)
           | None \<Rightarrow> (butlast branches, addrs)) = (branches'', addrs'')" by simp
    with "1.IH"(2) [OF visit(1) refl refl visit(2,3) f refl loop ok "1.prems"(5)] visit show ?thesis
      by (subst tree_loop.simps) (simp add: Let_def cong: option.case_cong)
  qed
qed

text \<open>C40. Discovery over the DNS tree terminates on every tree, also a cyclic or an endless one,
  after looking up the root and at most 20 different branches: the result is a function of these
  lookups alone. Every address it returns was parsed from a flat record of the root or a leaf
  record of one of these branches.\<close>

theorem dns_tree_bounded:
  "\<exists>visited. distinct visited \<and> length visited \<le> 20
     \<and> (\<forall>a\<in>set (resolve_dns_tree R domain).
          root_address R domain a \<or> (\<exists>h\<in>set visited. leaf_address R domain h a))
     \<and> (\<forall>f. f domain = txt_lookup R domain
            \<and> (\<forall>h\<in>set visited. f (h @ ''.'' @ domain) = txt_lookup R (h @ ''.'' @ domain))
          \<longrightarrow> resolve_dns_tree (R\<lparr>txt_lookup := f\<rparr>) domain = resolve_dns_tree R domain)"
proof (cases "resolver_ok R \<and> txt_lookup R domain \<noteq> None")
  case False
  then show ?thesis
    by (intro exI [of _ "[]"]) (auto simp: resolve_dns_tree_def)
next
  case True
  then obtain records where r: "resolver_ok R" "txt_lookup R domain = Some records" by auto
  obtain root_hash addrs where rh: "fold (root_txt R) (concat records) (None, []) = (root_hash, addrs)"
    by (cases "fold (root_txt R) (concat records) (None, [])")
  have root: "root_address R domain a" if "a \<in> set addrs" for a
    using root_fold_addresses [of a R "concat records" "(None, [])"] rh r that
    by (fastforce simp: root_address_def)
  show ?thesis
  proof (cases root_hash)
    case None
    with r rh root show ?thesis
      by (intro exI [of _ "[]"]) (auto simp: resolve_dns_tree_def)
  next
    case (Some hash)
    obtain visited addrs' where l: "tree_loop R domain [hash] [] 0 addrs = (visited, addrs')"
      by (cases "tree_loop R domain [hash] [] 0 addrs")
    have res: "resolve_dns_tree R domain = addrs'" by (simp add: resolve_dns_tree_def r rh Some l)
    from tree_loop_bounds [OF _ _ _ l] tree_loop_local [OF l] res root r rh Some l show ?thesis
      by (intro exI [of _ visited]) (auto simp: resolve_dns_tree_def max_lookups_def)
  qed
qed

theorem dns_tree_bounded_witness:
  "\<exists>visited. distinct visited \<and> length visited \<le> 20
     \<and> (\<forall>a\<in>set (resolve_dns_tree \<lparr>resolver_ok = True, txt_lookup = \<lambda>_. Some [[''/ip4/1.2.3.4'']],
            parse_multiaddr = \<lambda>_. Some [], trim_unicode = id, first_word_unicode = Some\<rparr> ''seed'').
          root_address \<lparr>resolver_ok = True, txt_lookup = \<lambda>_. Some [[''/ip4/1.2.3.4'']],
            parse_multiaddr = \<lambda>_. Some [], trim_unicode = id, first_word_unicode = Some\<rparr> ''seed'' a
          \<or> (\<exists>h\<in>set visited. leaf_address \<lparr>resolver_ok = True, txt_lookup = \<lambda>_. Some [[''/ip4/1.2.3.4'']],
            parse_multiaddr = \<lambda>_. Some [], trim_unicode = id, first_word_unicode = Some\<rparr> ''seed'' h a))"
  using dns_tree_bounded [of "\<lparr>resolver_ok = True, txt_lookup = \<lambda>_. Some [[''/ip4/1.2.3.4'']],
            parse_multiaddr = \<lambda>_. Some [], trim_unicode = id, first_word_unicode = Some\<rparr>" "''seed''"]
  by blast

end
