(* ===== verification/Net_State.thy ===== *)
theory Net_State
  imports Resolution Challenge Dns_Tree
begin

text \<open>
  The messages and the state of the reactor of \<open>kinetic-network/src/event_loop\<close> that owns the
  libp2p swarm and the record store: \<open>reactor.rs\<close>, \<open>utils.rs\<close>, \<open>client/command.rs\<close>,
  \<open>client/types.rs\<close> and the error types they carry.

  The swarm, the \<open>lru\<close> caches and the peer cache are opaque; their operations are the fields of
  \<open>net_ops\<close>, together with the backends of the store. A \<open>oneshot\<close> sender is a number, and sending
  on it appends to \<open>answers\<close>. Spawned work joins the queue \<open>tasks\<close> and runs as a step of its own;
  what it sends back joins \<open>loopback\<close>. \<open>proxied\<close> and \<open>gossiped\<close> are what has been handed to the
  channels \<open>incoming_proxy_tx\<close> and \<open>gossip_tx\<close>.
\<close>

section \<open>Messages\<close>

type_synonym peer_id = bytes
type_synonym query_id = nat
type_synonym request_id = nat
type_synonym responder = nat
type_synonym channel = nat
type_synonym message_id = bytes

datatype severity = Severity_Info | Severity_Warning | Severity_Error | Severity_Critical

definition store_severity :: "kinetic_store_error \<Rightarrow> severity" where
  "store_severity e =
     (case e of
        TieBroken \<Rightarrow> Severity_Info | InsufficientIterations \<Rightarrow> Severity_Info | VdfExpired _ \<Rightarrow> Severity_Info
      | RevealNotFound \<Rightarrow> Severity_Info | NameNotFound \<Rightarrow> Severity_Info
      | PayloadTooLarge \<Rightarrow> Severity_Warning | UnknownRecordType \<Rightarrow> Severity_Warning
      | RateLimited \<Rightarrow> Severity_Warning
      | _ \<Rightarrow> Severity_Error)"

datatype publish_error =
    PubOffline | PubInvalidProof string | PubAlreadyOwned string | PubAllFailed nat | PubRejected string
  | PubInternal string

datatype resolution_error =
    ResOffline | ResNotFound string nat | ResVdfVerificationFailed string nat | ResExpired string u64
  | ResTimeout string u64 nat | ResInternal string | ResSignatureVerificationFailed string

datatype network_client_error =
    NetTimeout | NetOffline | RoutingTableEmpty | NetChannelClosed | GossipSubError string | NetOther string

datatype proxy_error =
    ProxyTimeout | ProxyOffline | ProxyConnectionClosed | UnsupportedProtocols | ProxyChannelClosed
  | ProxyOther string

record proxy_request =
  pr_method :: string
  pr_path :: string
  pr_headers :: "(string \<times> string) list"
  pr_body :: bytes

record proxy_response =
  pr_status :: u16
  pr_res_headers :: "(string \<times> string) list"
  pr_res_body :: bytes

text \<open>What is sent on a \<open>oneshot\<close> sender.\<close>

datatype answer =
    KynAnswer u64
  | PublishAnswer "(publish_error, unit) result"
  | ResolveAnswer "(resolution_error, bytes) result"
  | QuorumAnswer "(network_client_error, nat) result"
  | UnitAnswer "(network_client_error, unit) result"
  | StatusAnswer string string nat "string list" string
  | NamesAnswer "string list"
  | BannedAnswer "(string \<times> u64) list"
  | ProxyAnswer "(proxy_error, proxy_response) result"
  | ActionSyncAnswer "(proxy_error, signed_network_action list) result"

datatype acceptance = Accept | Reject | Ignore

datatype command =
    FetchCurrentKyn responder
  | PublishRedundant string bytes responder
  | BootstrapCmd responder
  | PublishHeartbeat string bytes responder
  | ResolveRedundant string responder
  | ResolveHeartbeat string responder
  | VerifyQuorum string bytes responder
  | SendProxyRequest peer_id proxy_request responder
  | SendProxyResponse channel proxy_response
  | GetNetworkStatus responder
  | SubscribeGossip string responder
  | BroadcastGossip string bytes responder
  | ReportGossipValidation message_id peer_id acceptance
  | FetchConnectedPeers responder
  | FetchGossipTopics responder
  | FetchBannedPeers responder
  | SendActionSyncRequest peer_id responder
  | UpdateActionLog "signed_network_action list"

datatype query_type = QGet string | QQuorum string | QPut string

datatype loopback_command =
    CommitVerifiedRecord peer_id kad_record "(kinetic_store_error, unit) result"
  | CommitGossipValidation message_id peer_id "bool option"
  | ConnectionPoWVerified peer_id bool bool bool multiaddr
  | DialResolvedSeed multiaddr
  | CdnResolutionVerified string bytes peer_id

text \<open>Calls on the swarm whose result the code drops.\<close>

datatype swarm_call =
    StartProviding bytes
  | KadBootstrap
  | AddAddress peer_id multiaddr
  | RemovePeer peer_id
  | AddExternalAddress multiaddr
  | IdentifyPush peer_id
  | ReportValidation message_id peer_id acceptance
  | ProxyResponseOut channel proxy_response
  | CdnResponseOut channel "bytes option"
  | ActionSyncResponseOut channel "signed_network_action list"

datatype dial_target = DialAddr multiaddr | DialPeer peer_id

section \<open>State (reactor.rs, utils.rs)\<close>

record pending_get =
  pg_responders :: "responder list"
  pg_expected :: nat
  pg_payloads :: "bytes list"
  pg_peers_queried :: nat

record pending_quorum =
  pq_responder :: responder
  pq_expected :: nat
  pq_target :: bytes
  pq_match_count :: nat

record pending_put =
  pu_responder :: responder
  pu_expected :: nat
  pu_success_count :: nat

text \<open>Spawned work, with the values its closure has captured.\<close>

datatype task =
    VerifyRecord peer_id kad_record reveal kyn
  | VerifyCdn string bytes peer_id name_envelope kyn
  | CheckPoW peer_id kyn bool multiaddr
  | ValidateGossip string bytes message_id peer_id
  | ResolveTie string pending_get kyn "bytes option"
  | ScanBanned kyn
  | ForwardProxy proxy_request channel
  | ResolveSeeds "string list" bool

record event_env = resolution_env +
  argon2id :: "bytes \<Rightarrow> bytes \<Rightarrow> bytes option"
  peer_to_string :: "peer_id \<Rightarrow> string"
  value_reveal :: "bytes \<Rightarrow> reveal option"
  slice_raw_kyn :: "bytes \<Rightarrow> raw_kyn option"
  slice_signed_action :: "bytes \<Rightarrow> signed_network_action option"
  store_error_string :: "kinetic_store_error \<Rightarrow> string"
  ACTION_MODEL :: string
  node_action_config :: action_config
  NETWORK_SALT_HEX :: string
  DB_PREFIX_BANNED_PEER :: string
  node_dns :: dns_env

record ('s, 'm, 'c, 'd, 'w, 'b, 'n, 'r) net_ops = "('s, 'm, 'c, 'd) backends" +
  sw_get_record :: "'w \<Rightarrow> bytes \<Rightarrow> query_id \<times> 'w"
  sw_put_record :: "'w \<Rightarrow> ('s, 'm, 'c, 'd) krs \<Rightarrow> kad_record \<Rightarrow> query_id option \<times> 'w \<times> ('s, 'm, 'c, 'd) krs"
  sw_send_proxy :: "'w \<Rightarrow> peer_id \<Rightarrow> proxy_request \<Rightarrow> request_id \<times> 'w"
  sw_send_cdn :: "'w \<Rightarrow> peer_id \<Rightarrow> string \<Rightarrow> request_id \<times> 'w"
  sw_send_action_sync :: "'w \<Rightarrow> peer_id \<Rightarrow> request_id \<times> 'w"
  sw_disconnect :: "'w \<Rightarrow> peer_id \<Rightarrow> bool \<times> 'w"
  sw_dial :: "'w \<Rightarrow> dial_target \<Rightarrow> bool \<times> 'w"
  sw_subscribe :: "'w \<Rightarrow> string \<Rightarrow> (string, unit) result \<times> 'w"
  sw_publish :: "'w \<Rightarrow> string \<Rightarrow> bytes \<Rightarrow> (string, unit) result \<times> 'w"
  sw_call :: "'w \<Rightarrow> swarm_call \<Rightarrow> 'w"
  sw_connected_peers :: "'w \<Rightarrow> peer_id list"
  sw_num_peers :: "'w \<Rightarrow> nat"
  sw_topics :: "'w \<Rightarrow> string list"
  sw_local_peer_id :: "'w \<Rightarrow> peer_id"
  sw_listeners :: "'w \<Rightarrow> string list"
  bv_get :: "'b \<Rightarrow> peer_id \<Rightarrow> (u32 \<times> instant) option \<times> 'b"
  bv_put :: "'b \<Rightarrow> peer_id \<Rightarrow> u32 \<times> instant \<Rightarrow> 'b"
  bn_peek :: "'n \<Rightarrow> peer_id \<Rightarrow> u64 option"
  bn_put :: "'n \<Rightarrow> peer_id \<Rightarrow> u64 \<Rightarrow> 'n"
  bn_pop :: "'n \<Rightarrow> peer_id \<Rightarrow> 'n"
  bn_iter :: "'n \<Rightarrow> (peer_id \<times> u64) list"
  reg_get :: "'r \<Rightarrow> peer_id \<Rightarrow> multiaddr list option \<times> 'r"
  reg_put :: "'r \<Rightarrow> peer_id \<Rightarrow> multiaddr list \<Rightarrow> 'r"

record ('s, 'm, 'c, 'd, 'w, 'b, 'n, 'r) event_loop =
  swarm :: 'w
  el_store :: "('s, 'm, 'c, 'd) krs"
  pending_gets :: "string \<rightharpoonup> pending_get"
  pending_quorums :: "string \<rightharpoonup> pending_quorum"
  pending_puts :: "string \<rightharpoonup> pending_put"
  pending_reveals :: "query_id \<rightharpoonup> peer_id \<times> kad_record"
  query_id_to_name :: "query_id \<rightharpoonup> query_type"
  pending_proxy_requests :: "request_id \<rightharpoonup> responder"
  pending_cdn_requests :: "request_id \<rightharpoonup> string"
  pending_action_sync_requests :: "request_id \<rightharpoonup> responder"
  action_log :: "signed_network_action list"
  peer_registry :: 'r
  incoming_proxy_tx :: bool
  gossip_tx :: bool
  bad_vdf_counts :: 'b
  el_kyn :: kyn
  bootstrap_nodes :: "multiaddr list"
  seed_domain :: "string list"
  bootstrap_peers :: "peer_id list"
  disable_challenge :: bool
  banned_peers :: 'n
  bootstrap_connection_time :: "peer_id \<rightharpoonup> instant"
  nat_status :: string
  loopback_tx :: bool
  gossip_permits :: nat
  proxy_cdn_usage :: nat
  tasks :: "task list"
  loopback :: "loopback_command list"
  answers :: "(responder \<times> answer) list"
  proxied :: "(proxy_request \<times> channel) list"
  gossiped :: "(string \<times> bytes \<times> message_id \<times> peer_id) list"

abbreviation send :: "responder \<Rightarrow> answer \<Rightarrow> ('s, 'm, 'c, 'd, 'w, 'b, 'n, 'r) event_loop \<Rightarrow> ('s, 'm, 'c, 'd, 'w, 'b, 'n, 'r) event_loop" where
  "send r a self \<equiv> self\<lparr>answers := answers self @ [(r, a)]\<rparr>"

abbreviation spawn :: "task \<Rightarrow> ('s, 'm, 'c, 'd, 'w, 'b, 'n, 'r) event_loop \<Rightarrow> ('s, 'm, 'c, 'd, 'w, 'b, 'n, 'r) event_loop" where
  "spawn t self \<equiv> self\<lparr>tasks := tasks self @ [t]\<rparr>"

abbreviation call :: "_ \<Rightarrow> swarm_call \<Rightarrow> ('s, 'm, 'c, 'd, 'w, 'b, 'n, 'r) event_loop \<Rightarrow> ('s, 'm, 'c, 'd, 'w, 'b, 'n, 'r) event_loop" where
  "call N c self \<equiv> self\<lparr>swarm := sw_call N (swarm self) c\<rparr>"

abbreviation disconnect :: "_ \<Rightarrow> peer_id \<Rightarrow> ('s, 'm, 'c, 'd, 'w, 'b, 'n, 'r) event_loop \<Rightarrow> ('s, 'm, 'c, 'd, 'w, 'b, 'n, 'r) event_loop" where
  "disconnect N p self \<equiv> self\<lparr>swarm := snd (sw_disconnect N (swarm self) p)\<rparr>"

end
