(* ===== verification/Event_Loop.thy ===== *)
theory Event_Loop
  imports Net_State
begin

text \<open>
  The handlers of the reactor: queries and strikes (\<open>swarm_handler.rs\<close>, \<open>reactor.rs\<close>), the
  commands of the client (\<open>command_handler.rs\<close>), the protocol events (\<open>handlers/\<close>), the loopback
  messages, the timers and the spawned work. A handler returns \<open>None\<close> when a call of the store
  panics.
\<close>

section \<open>Strikes and bans (reactor.rs)\<close>

definition MINUTE_NANOS :: nat where
  "MINUTE_NANOS = 60 * 10 ^ 9"

definition BAN_KYNS :: u64 where
  "BAN_KYNS = 28800"

text \<open>The strike counter, which three places of the code update alike; the result is the new count.\<close>

definition record_strike ::
  "('s, 'm, 'c, 'd, 'w, 'b, 'n, 'r, 'y) net_ops_scheme \<Rightarrow> instant \<Rightarrow> peer_id
     \<Rightarrow> ('s, 'm, 'c, 'd, 'w, 'b, 'n, 'r) event_loop \<Rightarrow> u32 \<times> ('s, 'm, 'c, 'd, 'w, 'b, 'n, 'r) event_loop" where
  "record_strike N now source self =
     (let (entry, b) = bv_get N (bad_vdf_counts self) source;
          (count, last_time) = (case entry of Some v \<Rightarrow> v | None \<Rightarrow> (0, now));
          new_val = (if MINUTE_NANOS < now - last_time then (1, now) else (count + 1, now))
      in (fst new_val, self\<lparr>bad_vdf_counts := bv_put N b source new_val\<rparr>))"

definition is_banned ::
  "('s, 'm, 'c, 'd, 'w, 'b, 'n, 'r, 'y) net_ops_scheme \<Rightarrow> peer_id
     \<Rightarrow> ('s, 'm, 'c, 'd, 'w, 'b, 'n, 'r) event_loop \<Rightarrow> bool" where
  "is_banned N peer self = (bn_peek N (banned_peers self) peer \<noteq> None)"

definition ban_gossip ::
  "('s, 'm, 'c, 'd, 'w, 'b, 'n, 'r, 'y) net_ops_scheme \<Rightarrow> instant \<Rightarrow> peer_id
     \<Rightarrow> ('s, 'm, 'c, 'd, 'w, 'b, 'n, 'r) event_loop \<Rightarrow> ('s, 'm, 'c, 'd, 'w, 'b, 'n, 'r) event_loop" where
  "ban_gossip N now source self =
     (let (count, self) = record_strike N now source self
      in if 3 \<le> count
         then self\<lparr>banned_peers := bn_put N (banned_peers self) source (el_kyn self + BAN_KYNS)\<rparr>
         else self)"

text \<open>The strike of a record whose verdict is an error (\<open>handle_loopback\<close>).\<close>

definition strike_record ::
  "('s, 'm, 'c, 'd, 'w, 'b, 'n, 'r, 'y) net_ops_scheme \<Rightarrow> instant \<Rightarrow> peer_id
     \<Rightarrow> ('s, 'm, 'c, 'd, 'w, 'b, 'n, 'r) event_loop \<Rightarrow> ('s, 'm, 'c, 'd, 'w, 'b, 'n, 'r) event_loop" where
  "strike_record N now source self =
     (let (count, self) = record_strike N now source self
      in if 3 \<le> count
         then let self = disconnect N source self
              in self\<lparr>banned_peers := bn_put N (banned_peers self) source (el_kyn self + BAN_KYNS)\<rparr>
         else self)"

text \<open>The strike of a record the store has rejected (\<open>handlers/kademlia.rs\<close>), which is persisted.\<close>

definition strike_inbound ::
  "'x event_env_scheme \<Rightarrow> ('s, 'm, 'c, 'd, 'w, 'b, 'n, 'r, 'y) net_ops_scheme \<Rightarrow> instant \<Rightarrow> peer_id
     \<Rightarrow> ('s, 'm, 'c, 'd, 'w, 'b, 'n, 'r) event_loop \<Rightarrow> ('s, 'm, 'c, 'd, 'w, 'b, 'n, 'r) event_loop" where
  "strike_inbound E N now source self =
     (let (count, self) = record_strike N now source self
      in if 3 \<le> count
         then let self = disconnect N source self;
                  expire_kyn = el_kyn self + BAN_KYNS;
                  self = self\<lparr>banned_peers := bn_put N (banned_peers self) source expire_kyn\<rparr>;
                  key = as_bytes (DB_PREFIX_BANNED_PEER E @ peer_to_string E source)
              in self\<lparr>el_store := (el_store self)\<lparr>storage :=
                   snd (st_put N (storage (el_store self)) key (u64_to_be_bytes expire_kyn))\<rparr>\<rparr>
         else self)"

section \<open>Completion of queries (swarm\_handler.rs)\<close>

text \<open>\<open>expected_responses -= 1\<close> on a \<open>usize\<close>.\<close>

definition usize_pred :: "nat \<Rightarrow> nat" where
  "usize_pred n = (if n = 0 then 2 ^ 64 - 1 else n - 1)"

definition handle_quorum_completion ::
  "string \<Rightarrow> ('s, 'm, 'c, 'd, 'w, 'b, 'n, 'r) event_loop \<Rightarrow> ('s, 'm, 'c, 'd, 'w, 'b, 'n, 'r) event_loop" where
  "handle_quorum_completion name self =
     (case pending_quorums self name of
        None \<Rightarrow> self
      | Some p \<Rightarrow>
          (let p = p\<lparr>pq_expected := usize_pred (pq_expected p)\<rparr> in
           if pq_expected p = 0
           then send (pq_responder p) (QuorumAnswer (Ok (pq_match_count p)))
                  (self\<lparr>pending_quorums := (pending_quorums self)(name := None)\<rparr>)
           else self\<lparr>pending_quorums := (pending_quorums self)(name \<mapsto> p)\<rparr>))"

text \<open>The first record the local store has under the storage keys of a name.\<close>

definition local_record ::
  "'x crypto_scheme \<Rightarrow> ('s, 'm, 'c, 'd, 'y) backends_scheme \<Rightarrow> ('s, 'm, 'c, 'd) krs \<Rightarrow> string \<Rightarrow> bytes option" where
  "local_record E B st name =
     (case List.map_filter (krs_get B st) (derive_storage_keys E name (NETWORK_SALT E)) of
        [] \<Rightarrow> None | r # _ \<Rightarrow> Some (kr_value r))"

definition handle_get_completion ::
  "'x event_env_scheme \<Rightarrow> ('s, 'm, 'c, 'd, 'w, 'b, 'n, 'r, 'y) net_ops_scheme \<Rightarrow> string
     \<Rightarrow> ('s, 'm, 'c, 'd, 'w, 'b, 'n, 'r) event_loop \<Rightarrow> ('s, 'm, 'c, 'd, 'w, 'b, 'n, 'r) event_loop" where
  "handle_get_completion E N name self =
     (case pending_gets self name of
        None \<Rightarrow> self
      | Some p \<Rightarrow>
          (let p = p\<lparr>pg_expected := usize_pred (pg_expected p)\<rparr> in
           if pg_expected p = 0
           then let self = self\<lparr>pending_gets := (pending_gets self)(name := None)\<rparr>;
                    local_fallback = local_record E N (el_store self) name
                in spawn (ResolveTie name p (el_kyn self) local_fallback) self
           else self\<lparr>pending_gets := (pending_gets self)(name \<mapsto> p)\<rparr>))"

definition is_valid_pow ::
  "'x event_env_scheme \<Rightarrow> peer_id \<Rightarrow> u32 \<Rightarrow> ('s, 'm, 'c, 'd, 'w, 'b, 'n, 'r) event_loop \<Rightarrow> bool" where
  "is_valid_pow E peer difficulty self =
     (if disable_challenge self then True
      else 0 < el_kyn self \<and> verify_p2p_challenge E (argon2id E) peer (el_kyn self) difficulty)"

section \<open>Kademlia events (handlers/kademlia.rs)\<close>

datatype kad_event =
    FoundRecord query_id kad_record
  | GetRecordFinished query_id
  | PutRecordResult query_id bool
  | InboundPutRecord peer_id kad_record
  | OtherKad

definition handle_found_record ::
  "'x event_env_scheme \<Rightarrow> action_state option \<Rightarrow> ('s, 'm, 'c, 'd, 'w, 'b, 'n, 'r, 'y) net_ops_scheme \<Rightarrow> instant
     \<Rightarrow> query_id \<Rightarrow> kad_record \<Rightarrow> ('s, 'm, 'c, 'd, 'w, 'b, 'n, 'r) event_loop
     \<Rightarrow> ('s, 'm, 'c, 'd, 'w, 'b, 'n, 'r) event_loop option" where
  "handle_found_record E G N now qid r self =
     (case query_id_to_name self qid of
        Some (QQuorum name) \<Rightarrow>
          Some (case pending_quorums self name of
             Some p \<Rightarrow>
               if kr_value r = pq_target p
               then self\<lparr>pending_quorums := (pending_quorums self)(name \<mapsto> p\<lparr>pq_match_count := pq_match_count p + 1\<rparr>)\<rparr>
               else self
           | None \<Rightarrow> self)
      | Some (QGet name) \<Rightarrow>
          Some (case pending_gets self name of
             Some p \<Rightarrow> self\<lparr>pending_gets := (pending_gets self)(name \<mapsto> p\<lparr>pg_payloads := pg_payloads p @ [kr_value r]\<rparr>)\<rparr>
           | None \<Rightarrow> self)
      | Some (QPut _) \<Rightarrow> Some self
      | None \<Rightarrow>
          (case pending_reveals self qid of
             None \<Rightarrow> Some self
           | Some (source, parked_record) \<Rightarrow>
               (let self = self\<lparr>pending_reveals := (pending_reveals self)(qid := None)\<rparr> in
                case krs_put E G N now (el_store self) r of
                  None \<Rightarrow> None
                | Some (_, st) \<Rightarrow>
                    (let self = self\<lparr>el_store := st\<rparr> in
                     Some (case (json_has_field E (kr_value parked_record), value_reveal E (kr_value parked_record)) of
                        (Some _, Some reveal) \<Rightarrow>
                          if loopback_tx self
                          then spawn (VerifyRecord source parked_record reveal (current_kyn (el_store self))) self
                          else self
                      | _ \<Rightarrow> self)))))"

definition handle_get_finished ::
  "'x event_env_scheme \<Rightarrow> ('s, 'm, 'c, 'd, 'w, 'b, 'n, 'r, 'y) net_ops_scheme
     \<Rightarrow> query_id \<Rightarrow> ('s, 'm, 'c, 'd, 'w, 'b, 'n, 'r) event_loop \<Rightarrow> ('s, 'm, 'c, 'd, 'w, 'b, 'n, 'r) event_loop" where
  "handle_get_finished E N qid self =
     (case query_id_to_name self qid of
        Some mapped \<Rightarrow>
          (let self = self\<lparr>query_id_to_name := (query_id_to_name self)(qid := None)\<rparr> in
           case mapped of
             QQuorum name \<Rightarrow> handle_quorum_completion name self
           | QGet name \<Rightarrow> handle_get_completion E N name self
           | QPut _ \<Rightarrow> self)
      | None \<Rightarrow> self\<lparr>pending_reveals := (pending_reveals self)(qid := None)\<rparr>)"

definition handle_put_result ::
  "query_id \<Rightarrow> bool \<Rightarrow> ('s, 'm, 'c, 'd, 'w, 'b, 'n, 'r) event_loop \<Rightarrow> ('s, 'm, 'c, 'd, 'w, 'b, 'n, 'r) event_loop" where
  "handle_put_result qid ok self =
     (let mapped = query_id_to_name self qid;
          self = self\<lparr>query_id_to_name := (query_id_to_name self)(qid := None)\<rparr>
      in case mapped of
           Some (QPut name) \<Rightarrow>
             (case pending_puts self name of
                None \<Rightarrow> self
              | Some p \<Rightarrow>
                  (let p = p\<lparr>pu_expected := usize_pred (pu_expected p)\<rparr>;
                       p = (if ok then p\<lparr>pu_success_count := pu_success_count p + 1\<rparr> else p)
                   in if pu_expected p = 0
                      then send (pu_responder p)
                             (PublishAnswer (if 0 < pu_success_count p then Ok () else Err (PubAllFailed 0)))
                             (self\<lparr>pending_puts := (pending_puts self)(name := None)\<rparr>)
                      else self\<lparr>pending_puts := (pending_puts self)(name \<mapsto> p)\<rparr>))
         | _ \<Rightarrow> self)"

text \<open>The reveal of an inbound record whose verification is spawned, if it is one.\<close>

definition inbound_reveal :: "'x event_env_scheme \<Rightarrow> kad_record \<Rightarrow> reveal option" where
  "inbound_reveal E r =
     (case json_has_field E (kr_value r) of
        Some has \<Rightarrow> if has ''vdf_proof'' then value_reveal E (kr_value r) else None
      | None \<Rightarrow> None)"

definition handle_inbound_put ::
  "'x event_env_scheme \<Rightarrow> action_state option \<Rightarrow> ('s, 'm, 'c, 'd, 'w, 'b, 'n, 'r, 'y) net_ops_scheme \<Rightarrow> instant
     \<Rightarrow> peer_id \<Rightarrow> kad_record \<Rightarrow> ('s, 'm, 'c, 'd, 'w, 'b, 'n, 'r) event_loop
     \<Rightarrow> ('s, 'm, 'c, 'd, 'w, 'b, 'n, 'r) event_loop option" where
  "handle_inbound_put E G N now source r self =
     (case inbound_reveal E r of
        Some reveal \<Rightarrow>
          Some (if loopback_tx self
                then spawn (VerifyRecord source r reveal (current_kyn (el_store self))) self else self)
      | None \<Rightarrow>
          (case krs_put E G N now (el_store self) r of
             None \<Rightarrow> None
           | Some (res, st) \<Rightarrow>
               (let self = self\<lparr>el_store := st\<rparr> in
                Some (case res of
                   Inl e \<Rightarrow> if store_severity e = Severity_Error then strike_inbound E N now source self else self
                 | Inr _ \<Rightarrow> self))))"

definition handle_kad ::
  "'x event_env_scheme \<Rightarrow> action_state option \<Rightarrow> ('s, 'm, 'c, 'd, 'w, 'b, 'n, 'r, 'y) net_ops_scheme \<Rightarrow> instant
     \<Rightarrow> kad_event \<Rightarrow> ('s, 'm, 'c, 'd, 'w, 'b, 'n, 'r) event_loop
     \<Rightarrow> ('s, 'm, 'c, 'd, 'w, 'b, 'n, 'r) event_loop option" where
  "handle_kad E G N now ev self =
     (case ev of
        FoundRecord qid r \<Rightarrow> handle_found_record E G N now qid r self
      | GetRecordFinished qid \<Rightarrow> Some (handle_get_finished E N qid self)
      | PutRecordResult qid ok \<Rightarrow> Some (handle_put_result qid ok self)
      | InboundPutRecord source r \<Rightarrow> handle_inbound_put E G N now source r self
      | OtherKad \<Rightarrow> Some self)"

section \<open>Commands (command\_handler.rs)\<close>

text \<open>The loop over the keys: stops at the first record the local store rejects, and counts the
  queries the swarm has started.\<close>

fun enqueue_loop ::
  "'x event_env_scheme \<Rightarrow> action_state option \<Rightarrow> ('s, 'm, 'c, 'd, 'w, 'b, 'n, 'r, 'y) net_ops_scheme \<Rightarrow> instant
     \<Rightarrow> string \<Rightarrow> bytes \<Rightarrow> bytes list \<Rightarrow> nat \<Rightarrow> ('s, 'm, 'c, 'd, 'w, 'b, 'n, 'r) event_loop
     \<Rightarrow> ((kinetic_store_error, nat) result \<times> ('s, 'm, 'c, 'd, 'w, 'b, 'n, 'r) event_loop) option" where
  "enqueue_loop E G N now name payload [] expected self = Some (Ok expected, self)"
| "enqueue_loop E G N now name payload (key # keys) expected self =
     (let r = \<lparr>kr_key = key, kr_value = payload\<rparr> in
      case krs_put E G N now (el_store self) r of
        None \<Rightarrow> None
      | Some (Inl e, st) \<Rightarrow> Some (Err e, self\<lparr>el_store := st\<rparr>)
      | Some (Inr _, st) \<Rightarrow>
          (let (res, w, st) = sw_put_record N (swarm self) st r;
               self = self\<lparr>swarm := w, el_store := st\<rparr>
           in case res of
                Some qid \<Rightarrow>
                  enqueue_loop E G N now name payload keys (expected + 1)
                    (self\<lparr>query_id_to_name := (query_id_to_name self)(qid \<mapsto> QPut name)\<rparr>)
              | None \<Rightarrow> enqueue_loop E G N now name payload keys expected self))"

definition enqueue_dht_puts ::
  "'x event_env_scheme \<Rightarrow> action_state option \<Rightarrow> ('s, 'm, 'c, 'd, 'w, 'b, 'n, 'r, 'y) net_ops_scheme \<Rightarrow> instant
     \<Rightarrow> string \<Rightarrow> bytes list \<Rightarrow> bytes \<Rightarrow> responder \<Rightarrow> ('s, 'm, 'c, 'd, 'w, 'b, 'n, 'r) event_loop
     \<Rightarrow> ('s, 'm, 'c, 'd, 'w, 'b, 'n, 'r) event_loop option" where
  "enqueue_dht_puts E G N now name keys payload responder self =
     (if pending_puts self name \<noteq> None then
        Some (send responder (PublishAnswer (Err (PubRejected
          ''A publish operation for this apex name is already in progress''))) self)
      else case enqueue_loop E G N now name payload keys 0 self of
        None \<Rightarrow> None
      | Some (Inl e, self) \<Rightarrow> Some (send responder (PublishAnswer (Err (PubRejected (store_error_string E e)))) self)
      | Some (Inr expected, self) \<Rightarrow>
          Some (if 0 < expected
            then self\<lparr>pending_puts := (pending_puts self)(name \<mapsto>
                   \<lparr>pu_responder = responder, pu_expected = expected, pu_success_count = 0\<rparr>)\<rparr>
            else send responder (PublishAnswer (Err (PubAllFailed (length keys)))) self))"

fun dispatch_dht_queries ::
  "('s, 'm, 'c, 'd, 'w, 'b, 'n, 'r, 'y) net_ops_scheme \<Rightarrow> query_type \<Rightarrow> bytes list \<Rightarrow> nat
     \<Rightarrow> ('s, 'm, 'c, 'd, 'w, 'b, 'n, 'r) event_loop \<Rightarrow> nat \<times> ('s, 'm, 'c, 'd, 'w, 'b, 'n, 'r) event_loop" where
  "dispatch_dht_queries N q [] expected self = (expected, self)"
| "dispatch_dht_queries N q (key # keys) expected self =
     (let (qid, w) = sw_get_record N (swarm self) key
      in dispatch_dht_queries N q keys (expected + 1)
           (self\<lparr>swarm := w, query_id_to_name := (query_id_to_name self)(qid \<mapsto> q)\<rparr>))"

definition start_get ::
  "('s, 'm, 'c, 'd, 'w, 'b, 'n, 'r, 'y) net_ops_scheme \<Rightarrow> string \<Rightarrow> bytes list \<Rightarrow> responder
     \<Rightarrow> ('s, 'm, 'c, 'd, 'w, 'b, 'n, 'r) event_loop \<Rightarrow> ('s, 'm, 'c, 'd, 'w, 'b, 'n, 'r) event_loop" where
  "start_get N name keys responder self =
     (let (expected, self) = dispatch_dht_queries N (QGet name) keys 0 self
      in self\<lparr>pending_gets := (pending_gets self)(name \<mapsto>
           \<lparr>pg_responders = [responder], pg_expected = expected, pg_payloads = [], pg_peers_queried = expected\<rparr>)\<rparr>)"

definition join_get ::
  "string \<Rightarrow> pending_get \<Rightarrow> responder \<Rightarrow> ('s, 'm, 'c, 'd, 'w, 'b, 'n, 'r) event_loop
     \<Rightarrow> ('s, 'm, 'c, 'd, 'w, 'b, 'n, 'r) event_loop" where
  "join_get name p responder self =
     self\<lparr>pending_gets := (pending_gets self)(name \<mapsto> p\<lparr>pg_responders := pg_responders p @ [responder]\<rparr>)\<rparr>"

definition resolve_heartbeat ::
  "'x event_env_scheme \<Rightarrow> ('s, 'm, 'c, 'd, 'w, 'b, 'n, 'r, 'y) net_ops_scheme \<Rightarrow> string \<Rightarrow> responder
     \<Rightarrow> ('s, 'm, 'c, 'd, 'w, 'b, 'n, 'r) event_loop \<Rightarrow> ('s, 'm, 'c, 'd, 'w, 'b, 'n, 'r) event_loop" where
  "resolve_heartbeat E N name responder self =
     (if sw_num_peers N (swarm self) = 0 then send responder (ResolveAnswer (Err ResOffline)) self
      else let hb_name = ''hb:'' @ name in
        case pending_gets self hb_name of
          Some p \<Rightarrow> join_get hb_name p responder self
        | None \<Rightarrow> start_get N hb_name (derive_heartbeat_keys E name (NETWORK_SALT E)) responder self)"

fun send_cdn_requests ::
  "('s, 'm, 'c, 'd, 'w, 'b, 'n, 'r, 'y) net_ops_scheme \<Rightarrow> string \<Rightarrow> peer_id list
     \<Rightarrow> ('s, 'm, 'c, 'd, 'w, 'b, 'n, 'r) event_loop \<Rightarrow> ('s, 'm, 'c, 'd, 'w, 'b, 'n, 'r) event_loop" where
  "send_cdn_requests N name [] self = self"
| "send_cdn_requests N name (peer # peers) self =
     (let (req_id, w) = sw_send_cdn N (swarm self) peer name
      in send_cdn_requests N name peers
           (self\<lparr>swarm := w, pending_cdn_requests := (pending_cdn_requests self)(req_id \<mapsto> name)\<rparr>))"

definition resolve_redundant ::
  "'x event_env_scheme \<Rightarrow> ('s, 'm, 'c, 'd, 'w, 'b, 'n, 'r, 'y) net_ops_scheme \<Rightarrow> string \<Rightarrow> responder
     \<Rightarrow> ('s, 'm, 'c, 'd, 'w, 'b, 'n, 'r) event_loop \<Rightarrow> ('s, 'm, 'c, 'd, 'w, 'b, 'n, 'r) event_loop" where
  "resolve_redundant E N name responder self =
     (if sw_num_peers N (swarm self) = 0 then
        (case local_record E N (el_store self) name of
           Some v \<Rightarrow> send responder (ResolveAnswer (Ok v)) self
         | None \<Rightarrow> send responder (ResolveAnswer (Err ResOffline)) self)
      else case pending_gets self name of
        Some p \<Rightarrow> join_get name p responder self
      | None \<Rightarrow>
          start_get N name (derive_storage_keys E name (NETWORK_SALT E)) responder
            (send_cdn_requests N name (take 3 (sw_connected_peers N (swarm self))) self))"

definition verify_quorum ::
  "'x event_env_scheme \<Rightarrow> ('s, 'm, 'c, 'd, 'w, 'b, 'n, 'r, 'y) net_ops_scheme \<Rightarrow> string \<Rightarrow> bytes \<Rightarrow> responder
     \<Rightarrow> ('s, 'm, 'c, 'd, 'w, 'b, 'n, 'r) event_loop \<Rightarrow> ('s, 'm, 'c, 'd, 'w, 'b, 'n, 'r) event_loop" where
  "verify_quorum E N name payload responder self =
     (if pending_quorums self name \<noteq> None then
        send responder (QuorumAnswer (Err (NetOther
          ''A quorum verification for this apex name is already in progress''))) self
      else if sw_num_peers N (swarm self) = 0 then send responder (QuorumAnswer (Ok 0)) self
      else
        let (expected, self) = dispatch_dht_queries N (QQuorum name)
               (derive_storage_keys E name (NETWORK_SALT E)) 0 self
        in self\<lparr>pending_quorums := (pending_quorums self)(name \<mapsto>
             \<lparr>pq_responder = responder, pq_expected = expected, pq_target = payload, pq_match_count = 0\<rparr>)\<rparr>)"

definition gossip_answer :: "(string, unit) result \<Rightarrow> answer" where
  "gossip_answer res = UnitAnswer (map_err GossipSubError res)"

definition handle_command ::
  "'x event_env_scheme \<Rightarrow> action_state option \<Rightarrow> ('s, 'm, 'c, 'd, 'w, 'b, 'n, 'r, 'y) net_ops_scheme \<Rightarrow> instant
     \<Rightarrow> command \<Rightarrow> ('s, 'm, 'c, 'd, 'w, 'b, 'n, 'r) event_loop
     \<Rightarrow> ('s, 'm, 'c, 'd, 'w, 'b, 'n, 'r) event_loop option" where
  "handle_command E G N now c self =
     (case c of
        FetchCurrentKyn responder \<Rightarrow> Some (send responder (KynAnswer (el_kyn self)) self)
      | PublishRedundant name payload responder \<Rightarrow>
          enqueue_dht_puts E G N now name (derive_storage_keys E name (NETWORK_SALT E)) payload responder self
      | BootstrapCmd responder \<Rightarrow>
          (let self = call N KadBootstrap self;
               self = self\<lparr>swarm := fold (\<lambda>peer w. snd (sw_dial N w (DialPeer peer))) (bootstrap_peers self) (swarm self)\<rparr>
           in Some (send responder (UnitAnswer (Ok ())) self))
      | PublishHeartbeat name payload responder \<Rightarrow>
          enqueue_dht_puts E G N now name (derive_heartbeat_keys E name (NETWORK_SALT E)) payload responder self
      | ResolveHeartbeat name responder \<Rightarrow> Some (resolve_heartbeat E N name responder self)
      | ResolveRedundant name responder \<Rightarrow> Some (resolve_redundant E N name responder self)
      | VerifyQuorum name payload responder \<Rightarrow> Some (verify_quorum E N name payload responder self)
      | SendProxyRequest peer req responder \<Rightarrow>
          (let (req_id, w) = sw_send_proxy N (swarm self) peer req
           in Some (self\<lparr>swarm := w, pending_proxy_requests := (pending_proxy_requests self)(req_id \<mapsto> responder)\<rparr>))
      | SendProxyResponse ch res \<Rightarrow> Some (call N (ProxyResponseOut ch res) self)
      | GetNetworkStatus responder \<Rightarrow>
          (let peers = sw_num_peers N (swarm self);
               status = (if 0 < peers then ''Online'' else ''Offline (Bootstrap/Local)'')
           in Some (send responder (StatusAnswer status (peer_to_string E (sw_local_peer_id N (swarm self))) peers
                (sw_listeners N (swarm self)) (nat_status self)) self))
      | SubscribeGossip topic responder \<Rightarrow>
          (let (res, w) = sw_subscribe N (swarm self) topic
           in Some (send responder (gossip_answer res) (self\<lparr>swarm := w\<rparr>)))
      | BroadcastGossip topic payload responder \<Rightarrow>
          (let (res, w) = sw_publish N (swarm self) topic payload
           in Some (send responder (gossip_answer res) (self\<lparr>swarm := w\<rparr>)))
      | ReportGossipValidation mid source acc \<Rightarrow> Some (call N (ReportValidation mid source acc) self)
      | FetchConnectedPeers responder \<Rightarrow>
          Some (send responder (NamesAnswer (map (peer_to_string E) (sw_connected_peers N (swarm self)))) self)
      | FetchGossipTopics responder \<Rightarrow> Some (send responder (NamesAnswer (sw_topics N (swarm self))) self)
      | FetchBannedPeers responder \<Rightarrow>
          Some (send responder (BannedAnswer (map (\<lambda>(p, k). (peer_to_string E p, k)) (bn_iter N (banned_peers self)))) self)
      | SendActionSyncRequest peer responder \<Rightarrow>
          (let (req_id, w) = sw_send_action_sync N (swarm self) peer
           in Some (self\<lparr>swarm := w,
                pending_action_sync_requests := (pending_action_sync_requests self)(req_id \<mapsto> responder)\<rparr>))
      | UpdateActionLog actions \<Rightarrow> Some (self\<lparr>action_log := actions\<rparr>))"

section \<open>Request-response protocols (handlers/proxy.rs, cdn.rs, action\_sync.rs)\<close>

datatype outbound_failure =
    DialFailure | FailureTimeout | FailureConnectionClosed | FailureUnsupportedProtocols | OtherFailure string

datatype ('q, 'a) request_event =
    RequestMessage peer_id 'q channel
  | ResponseMessage peer_id request_id 'a
  | OutboundFailure request_id outbound_failure
  | OtherRequestEvent

definition proxy_failure :: "outbound_failure \<Rightarrow> proxy_error" where
  "proxy_failure e =
     (case e of
        DialFailure \<Rightarrow> ProxyOffline
      | FailureTimeout \<Rightarrow> ProxyTimeout
      | FailureConnectionClosed \<Rightarrow> ProxyConnectionClosed
      | FailureUnsupportedProtocols \<Rightarrow> UnsupportedProtocols
      | OtherFailure s \<Rightarrow> ProxyOther s)"

definition handle_proxy ::
  "(proxy_request, proxy_response) request_event \<Rightarrow> ('s, 'm, 'c, 'd, 'w, 'b, 'n, 'r) event_loop
     \<Rightarrow> ('s, 'm, 'c, 'd, 'w, 'b, 'n, 'r) event_loop" where
  "handle_proxy ev self =
     (case ev of
        RequestMessage _ req ch \<Rightarrow> if incoming_proxy_tx self then spawn (ForwardProxy req ch) self else self
      | ResponseMessage _ rid res \<Rightarrow>
          (case pending_proxy_requests self rid of
             Some responder \<Rightarrow> send responder (ProxyAnswer (Ok res))
               (self\<lparr>pending_proxy_requests := (pending_proxy_requests self)(rid := None)\<rparr>)
           | None \<Rightarrow> self)
      | OutboundFailure rid e \<Rightarrow>
          (case pending_proxy_requests self rid of
             Some responder \<Rightarrow> send responder (ProxyAnswer (Err (proxy_failure e)))
               (self\<lparr>pending_proxy_requests := (pending_proxy_requests self)(rid := None)\<rparr>)
           | None \<Rightarrow> self)
      | OtherRequestEvent \<Rightarrow> self)"

text \<open>\<open>error.to_string()\<close> of a failed request is the parameter \<open>failure_string\<close>.\<close>

definition handle_action_sync ::
  "(outbound_failure \<Rightarrow> string) \<Rightarrow> ('s, 'm, 'c, 'd, 'w, 'b, 'n, 'r, 'y) net_ops_scheme
     \<Rightarrow> (unit, signed_network_action list) request_event \<Rightarrow> ('s, 'm, 'c, 'd, 'w, 'b, 'n, 'r) event_loop
     \<Rightarrow> ('s, 'm, 'c, 'd, 'w, 'b, 'n, 'r) event_loop" where
  "handle_action_sync failure_string N ev self =
     (case ev of
        RequestMessage _ _ ch \<Rightarrow> call N (ActionSyncResponseOut ch (action_log self)) self
      | ResponseMessage _ rid res \<Rightarrow>
          (case pending_action_sync_requests self rid of
             Some responder \<Rightarrow> send responder (ActionSyncAnswer (Ok res))
               (self\<lparr>pending_action_sync_requests := (pending_action_sync_requests self)(rid := None)\<rparr>)
           | None \<Rightarrow> self)
      | OutboundFailure rid e \<Rightarrow>
          (case pending_action_sync_requests self rid of
             Some responder \<Rightarrow> send responder (ActionSyncAnswer (Err (ProxyOther (failure_string e))))
               (self\<lparr>pending_action_sync_requests := (pending_action_sync_requests self)(rid := None)\<rparr>)
           | None \<Rightarrow> self)
      | OtherRequestEvent \<Rightarrow> self)"

definition handle_cdn_response ::
  "'x event_env_scheme \<Rightarrow> peer_id \<Rightarrow> request_id \<Rightarrow> bytes option
     \<Rightarrow> ('s, 'm, 'c, 'd, 'w, 'b, 'n, 'r) event_loop \<Rightarrow> ('s, 'm, 'c, 'd, 'w, 'b, 'n, 'r) event_loop" where
  "handle_cdn_response E peer rid res self =
     (case pending_cdn_requests self rid of
        None \<Rightarrow> self
      | Some domain \<Rightarrow>
          (let self = self\<lparr>pending_cdn_requests := (pending_cdn_requests self)(rid := None)\<rparr> in
           case res of
             None \<Rightarrow> self
           | Some raw \<Rightarrow>
               (case slice_name_envelope E raw of
                  None \<Rightarrow> self
                | Some record \<Rightarrow>
                    if loopback_tx self
                    then spawn (VerifyCdn domain raw peer record (current_kyn (el_store self))) self
                    else self)))"

definition handle_cdn ::
  "'x event_env_scheme \<Rightarrow> ('s, 'm, 'c, 'd, 'w, 'b, 'n, 'r, 'y) net_ops_scheme
     \<Rightarrow> (string, bytes option) request_event \<Rightarrow> ('s, 'm, 'c, 'd, 'w, 'b, 'n, 'r) event_loop
     \<Rightarrow> ('s, 'm, 'c, 'd, 'w, 'b, 'n, 'r) event_loop" where
  "handle_cdn E N ev self =
     (case ev of
        RequestMessage _ name ch \<Rightarrow>
          (let self = call N (CdnResponseOut ch (local_record E N (el_store self) name)) self
           in self\<lparr>proxy_cdn_usage := proxy_cdn_usage self + 1\<rparr>)
      | ResponseMessage peer rid res \<Rightarrow> handle_cdn_response E peer rid res self
      | OutboundFailure rid _ \<Rightarrow> self\<lparr>pending_cdn_requests := (pending_cdn_requests self)(rid := None)\<rparr>
      | OtherRequestEvent \<Rightarrow> self)"

section \<open>Gossip (handlers/gossipsub.rs)\<close>

datatype network_opcode = OpAction | OpKyn | OpTelemetry

fun opcode_byte :: "network_opcode \<Rightarrow> u8" where
  "opcode_byte OpAction = 0x01"
| "opcode_byte OpKyn = 0x02"
| "opcode_byte OpTelemetry = 0x03"

definition opcode_from_u8 :: "u8 \<Rightarrow> network_opcode option" where
  "opcode_from_u8 val =
     (if val = 0x01 then Some OpAction else if val = 0x02 then Some OpKyn
      else if val = 0x03 then Some OpTelemetry else None)"

text \<open>The check of a message; the result \<open>None\<close> is the panic on a poisoned action state.\<close>

definition validate_gossip ::
  "'x event_env_scheme \<Rightarrow> action_state option \<Rightarrow> string \<Rightarrow> bytes \<Rightarrow> bool option" where
  "validate_gossip E G topic payload =
     (if topic = NETWORK_SALT_HEX E then
        (case payload of
           [] \<Rightarrow> Some False
         | opcode # actual_payload \<Rightarrow>
             if opcode = opcode_byte OpKyn then
               Some (case slice_raw_kyn E actual_payload of
                  Some k \<Rightarrow> verify_beacon E k (dev_mode E) | None \<Rightarrow> False)
             else if opcode = opcode_byte OpAction then
               if ACTION_MODEL E = ''permissionless'' then Some False
               else (case slice_signed_action E actual_payload of
                  Some signed_msg \<Rightarrow>
                    (case G of
                       None \<Rightarrow> None
                     | Some st \<Rightarrow>
                         (case sovereign_key E st (node_action_config E) of
                            Inr root_key \<Rightarrow>
                              Some (list_ex (verify_sovereign_signature E root_key (to_bytes signed_msg))
                                (sovereign_signatures signed_msg))
                          | Inl _ \<Rightarrow> Some False))
                | None \<Rightarrow> Some False)
             else Some False)
      else Some True)"

text \<open>The permit of the semaphore is a local of the handler, and the spawned block does not use it:
  it is released when the handler returns.\<close>

definition handle_gossip ::
  "string \<Rightarrow> bytes \<Rightarrow> message_id \<Rightarrow> peer_id \<Rightarrow> ('s, 'm, 'c, 'd, 'w, 'b, 'n, 'r) event_loop
     \<Rightarrow> ('s, 'm, 'c, 'd, 'w, 'b, 'n, 'r) event_loop" where
  "handle_gossip topic payload mid source self =
     (if gossip_permits self = 0 then
        (if loopback_tx self
         then self\<lparr>loopback := loopback self @ [CommitGossipValidation mid source None]\<rparr> else self)
      else
        let self = self\<lparr>gossip_permits := gossip_permits self - 1\<rparr>;
            self = spawn (ValidateGossip topic payload mid source) self
        in self\<lparr>gossip_permits := gossip_permits self + 1\<rparr>)"

section \<open>Swarm events (swarm\_handler.rs)\<close>

datatype nat_state = NatPublic multiaddr | NatPrivate | NatUnknown

datatype swarm_event =
    ConnectionEstablished peer_id multiaddr
  | KadEvent kad_event
  | ProxyEvent "(proxy_request, proxy_response) request_event"
  | CdnEvent "(string, bytes option) request_event"
  | ActionSyncEvent "(unit, signed_network_action list) request_event"
  | GossipMessage string bytes message_id peer_id
  | AutonatStatusChanged nat_state
  | IdentifyReceived peer_id "multiaddr list" "string list"
  | MdnsDiscovered "(peer_id \<times> multiaddr) list"
  | OutgoingConnectionErrorEvent "peer_id option"
  | ConnectionClosed peer_id
  | OtherSwarmEvent

definition handle_connection ::
  "('s, 'm, 'c, 'd, 'w, 'b, 'n, 'r, 'y) net_ops_scheme \<Rightarrow> instant \<Rightarrow> peer_id \<Rightarrow> multiaddr
     \<Rightarrow> ('s, 'm, 'c, 'd, 'w, 'b, 'n, 'r) event_loop \<Rightarrow> ('s, 'm, 'c, 'd, 'w, 'b, 'n, 'r) event_loop" where
  "handle_connection N now peer addr self =
     (let self = self\<lparr>peer_registry := mark_connected (reg_get N) (peer_registry self) peer\<rparr>;
          admitted = (\<lambda>self.
            let is_bootstrap = (peer \<in> set (bootstrap_peers self));
                self = (if is_bootstrap
                        then self\<lparr>bootstrap_connection_time := (bootstrap_connection_time self)(peer \<mapsto> now)\<rparr>
                        else self)
            in if el_kyn self = 0 \<and> \<not> is_bootstrap \<and> \<not> disable_challenge self then disconnect N peer self
               else if disable_challenge self then self
               else if loopback_tx self then spawn (CheckPoW peer (el_kyn self) is_bootstrap addr) self
               else self)
      in case bn_peek N (banned_peers self) peer of
           Some expire_time \<Rightarrow>
             if el_kyn self < expire_time then disconnect N peer self
             else admitted (self\<lparr>banned_peers := bn_pop N (banned_peers self) peer\<rparr>)
         | None \<Rightarrow> admitted self)"

definition DAY_NANOS :: nat where
  "DAY_NANOS = 24 * 3600 * 10 ^ 9"

definition handle_identify ::
  "'x event_env_scheme \<Rightarrow> ('s, 'm, 'c, 'd, 'w, 'b, 'n, 'r, 'y) net_ops_scheme \<Rightarrow> instant \<Rightarrow> peer_id
     \<Rightarrow> multiaddr list \<Rightarrow> string list \<Rightarrow> ('s, 'm, 'c, 'd, 'w, 'b, 'n, 'r) event_loop
     \<Rightarrow> ('s, 'm, 'c, 'd, 'w, 'b, 'n, 'r) event_loop" where
  "handle_identify E N now peer listen_addrs protocols self =
     (let self = self\<lparr>peer_registry := snd (add_verified_peer (reg_put N) (peer_registry self) peer listen_addrs)\<rparr>;
          is_bootstrap = (peer \<in> set (bootstrap_peers self));
          is_server = list_ex (\<lambda>p. contains_str p ''kad'') protocols;
          expected_diff = (if is_server then CHALLENGE_THRESHOLD_BITS else CHALLENGE_THRESHOLD_BITS_CLIENT);
          pow_valid = is_valid_pow E peer expected_diff self
      in if \<not> pow_valid \<and> \<not> is_bootstrap then disconnect N peer self
         else if \<not> pow_valid \<and> is_bootstrap
                 \<and> (case bootstrap_connection_time self peer of
                      Some conn_time \<Rightarrow> DAY_NANOS < now - conn_time | None \<Rightarrow> False)
         then disconnect N peer self
         else
           let self = (if disable_challenge self \<or> pow_valid \<or> is_bootstrap
                       then fold (\<lambda>addr self.
                              if \<not> is_routable_multiaddr E addr (disable_challenge self) is_bootstrap then self
                              else call N (AddAddress peer addr) self) listen_addrs self
                       else self)
           in call N KadBootstrap self)"

definition handle_mdns ::
  "'x event_env_scheme \<Rightarrow> ('s, 'm, 'c, 'd, 'w, 'b, 'n, 'r, 'y) net_ops_scheme \<Rightarrow> (peer_id \<times> multiaddr) list
     \<Rightarrow> ('s, 'm, 'c, 'd, 'w, 'b, 'n, 'r) event_loop \<Rightarrow> ('s, 'm, 'c, 'd, 'w, 'b, 'n, 'r) event_loop" where
  "handle_mdns E N found self =
     fold (\<lambda>(peer, addr) self.
       if is_valid_pow E peer CHALLENGE_THRESHOLD_BITS_CLIENT self \<or> peer \<in> set (bootstrap_peers self)
       then call N (AddAddress peer addr) self else self) found self"

definition handle_autonat ::
  "('s, 'm, 'c, 'd, 'w, 'b, 'n, 'r, 'y) net_ops_scheme \<Rightarrow> nat_state
     \<Rightarrow> ('s, 'm, 'c, 'd, 'w, 'b, 'n, 'r) event_loop \<Rightarrow> ('s, 'm, 'c, 'd, 'w, 'b, 'n, 'r) event_loop" where
  "handle_autonat N new self =
     (case new of
        NatPublic addr \<Rightarrow>
          (let self = (call N (AddExternalAddress addr) self)\<lparr>nat_status := ''Public''\<rparr>
           in fold (\<lambda>peer self. call N (IdentifyPush peer) self) (sw_connected_peers N (swarm self)) self)
      | NatPrivate \<Rightarrow> self\<lparr>nat_status := ''Relayed (Private)''\<rparr>
      | NatUnknown \<Rightarrow> self)"

definition handle_swarm_event ::
  "'x event_env_scheme \<Rightarrow> action_state option \<Rightarrow> (outbound_failure \<Rightarrow> string)
     \<Rightarrow> ('s, 'm, 'c, 'd, 'w, 'b, 'n, 'r, 'y) net_ops_scheme \<Rightarrow> instant
     \<Rightarrow> swarm_event \<Rightarrow> ('s, 'm, 'c, 'd, 'w, 'b, 'n, 'r) event_loop
     \<Rightarrow> ('s, 'm, 'c, 'd, 'w, 'b, 'n, 'r) event_loop option" where
  "handle_swarm_event E G failure_string N now ev self =
     (case ev of
        ConnectionEstablished peer addr \<Rightarrow> Some (handle_connection N now peer addr self)
      | KadEvent e \<Rightarrow> handle_kad E G N now e self
      | ProxyEvent e \<Rightarrow> Some (handle_proxy e self)
      | CdnEvent e \<Rightarrow> Some (handle_cdn E N e self)
      | ActionSyncEvent e \<Rightarrow> Some (handle_action_sync failure_string N e self)
      | GossipMessage topic payload mid source \<Rightarrow> Some (handle_gossip topic payload mid source self)
      | AutonatStatusChanged new \<Rightarrow> Some (handle_autonat N new self)
      | IdentifyReceived peer addrs protocols \<Rightarrow> Some (handle_identify E N now peer addrs protocols self)
      | MdnsDiscovered found \<Rightarrow> Some (handle_mdns E N found self)
      | OutgoingConnectionErrorEvent peer \<Rightarrow>
          Some (case peer of Some p \<Rightarrow> call N (RemovePeer p) self | None \<Rightarrow> self)
      | ConnectionClosed peer \<Rightarrow>
          (let self = self\<lparr>bootstrap_connection_time := (bootstrap_connection_time self)(peer := None)\<rparr>
           in Some (call N (RemovePeer peer) self))
      | OtherSwarmEvent \<Rightarrow> Some self)"

section \<open>Loopback messages (reactor.rs)\<close>

definition commit_verified_record ::
  "'x event_env_scheme \<Rightarrow> action_state option \<Rightarrow> ('s, 'm, 'c, 'd, 'w, 'b, 'n, 'r, 'y) net_ops_scheme \<Rightarrow> instant
     \<Rightarrow> peer_id \<Rightarrow> kad_record \<Rightarrow> (kinetic_store_error, unit) result
     \<Rightarrow> ('s, 'm, 'c, 'd, 'w, 'b, 'n, 'r) event_loop \<Rightarrow> ('s, 'm, 'c, 'd, 'w, 'b, 'n, 'r) event_loop option" where
  "commit_verified_record E G N now source r verdict self =
     (case verdict of
        Inl (MissingCommitment commit_key) \<Rightarrow>
          (let (qid, w) = sw_get_record N (swarm self) commit_key
           in Some (self\<lparr>swarm := w, pending_reveals := (pending_reveals self)(qid \<mapsto> (source, r))\<rparr>))
      | Inl e \<Rightarrow> Some (if store_severity e = Severity_Error then strike_record N now source self else self)
      | Inr _ \<Rightarrow>
          (case put_verified E G N now (el_store self) r of
             None \<Rightarrow> None
           | Some (_, st) \<Rightarrow> Some (call N (StartProviding (kr_key r)) (self\<lparr>el_store := st\<rparr>))))"

definition commit_gossip_validation ::
  "('s, 'm, 'c, 'd, 'w, 'b, 'n, 'r, 'y) net_ops_scheme \<Rightarrow> instant \<Rightarrow> message_id \<Rightarrow> peer_id \<Rightarrow> bool option
     \<Rightarrow> ('s, 'm, 'c, 'd, 'w, 'b, 'n, 'r) event_loop \<Rightarrow> ('s, 'm, 'c, 'd, 'w, 'b, 'n, 'r) event_loop" where
  "commit_gossip_validation N now mid source is_valid self =
     (let acc = (case is_valid of Some True \<Rightarrow> Accept | Some False \<Rightarrow> Reject | None \<Rightarrow> Ignore);
          self = call N (ReportValidation mid source acc) self
      in if is_valid = Some False then
           let self = ban_gossip N now source self
           in if is_banned N source self then disconnect N source self else self
         else self)"

text \<open>Answer every waiting responder of a name alike.\<close>

definition send_all ::
  "responder list \<Rightarrow> answer \<Rightarrow> ('s, 'm, 'c, 'd, 'w, 'b, 'n, 'r) event_loop
     \<Rightarrow> ('s, 'm, 'c, 'd, 'w, 'b, 'n, 'r) event_loop" where
  "send_all rs a self = self\<lparr>answers := answers self @ map (\<lambda>r. (r, a)) rs\<rparr>"

definition commit_cdn_resolution ::
  "'x event_env_scheme \<Rightarrow> action_state option \<Rightarrow> ('s, 'm, 'c, 'd, 'w, 'b, 'n, 'r, 'y) net_ops_scheme \<Rightarrow> instant
     \<Rightarrow> string \<Rightarrow> bytes \<Rightarrow> ('s, 'm, 'c, 'd, 'w, 'b, 'n, 'r) event_loop
     \<Rightarrow> ('s, 'm, 'c, 'd, 'w, 'b, 'n, 'r) event_loop option" where
  "commit_cdn_resolution E G N now domain raw self =
     (case slice_name_envelope E raw of
        None \<Rightarrow> Some self
      | Some record \<Rightarrow>
          (case handle_put_record E G N now (el_store self) record True of
             None \<Rightarrow> None
           | Some (Inl _, st) \<Rightarrow> Some (self\<lparr>el_store := st\<rparr>)
           | Some (Inr _, st) \<Rightarrow>
               (let self = self\<lparr>el_store := st\<rparr> in
                Some (case pending_gets self domain of
                   Some p \<Rightarrow> send_all (pg_responders p) (ResolveAnswer (Ok raw))
                     (self\<lparr>pending_gets := (pending_gets self)(domain := None)\<rparr>)
                 | None \<Rightarrow> self))))"

definition handle_loopback ::
  "'x event_env_scheme \<Rightarrow> action_state option \<Rightarrow> ('s, 'm, 'c, 'd, 'w, 'b, 'n, 'r, 'y) net_ops_scheme \<Rightarrow> instant
     \<Rightarrow> loopback_command \<Rightarrow> ('s, 'm, 'c, 'd, 'w, 'b, 'n, 'r) event_loop
     \<Rightarrow> ('s, 'm, 'c, 'd, 'w, 'b, 'n, 'r) event_loop option" where
  "handle_loopback E G N now cmd self =
     (case cmd of
        CommitVerifiedRecord source r verdict \<Rightarrow> commit_verified_record E G N now source r verdict self
      | CommitGossipValidation mid source is_valid \<Rightarrow> Some (commit_gossip_validation N now mid source is_valid self)
      | ConnectionPoWVerified peer valid_client _ is_bootstrap _ \<Rightarrow>
          Some (if \<not> valid_client \<and> \<not> is_bootstrap then disconnect N peer self else self)
      | DialResolvedSeed addr \<Rightarrow>
          Some (if sw_num_peers N (swarm self) < 20
                then self\<lparr>swarm := snd (sw_dial N (swarm self) (DialAddr addr))\<rparr> else self)
      | CdnResolutionVerified domain raw _ \<Rightarrow> commit_cdn_resolution E G N now domain raw self)"

section \<open>Timers and the clock (reactor.rs)\<close>

definition prune_tick ::
  "'x event_env_scheme \<Rightarrow> ('s, 'm, 'c, 'd, 'w, 'b, 'n, 'r, 'y) net_ops_scheme
     \<Rightarrow> ('s, 'm, 'c, 'd, 'w, 'b, 'n, 'r) event_loop \<Rightarrow> ('s, 'm, 'c, 'd, 'w, 'b, 'n, 'r) event_loop" where
  "prune_tick E N self =
     (let self = self\<lparr>el_store := krs_prune E N (el_store self)\<rparr>
      in spawn (ScanBanned (el_kyn self)) self)"

text \<open>\<open>bootstrap_peers.retain\<close>: a peer is kept when it could not be disconnected.\<close>

fun retain_bootstrap ::
  "('s, 'm, 'c, 'd, 'w, 'b, 'n, 'r, 'y) net_ops_scheme \<Rightarrow> peer_id list \<Rightarrow> 'w \<Rightarrow> peer_id list \<times> 'w" where
  "retain_bootstrap N [] w = ([], w)"
| "retain_bootstrap N (peer # peers) w =
     (let (ok, w) = sw_disconnect N w peer; (kept, w) = retain_bootstrap N peers w
      in (if ok then kept else peer # kept, w))"

definition redial_tick ::
  "('s, 'm, 'c, 'd, 'w, 'b, 'n, 'r, 'y) net_ops_scheme
     \<Rightarrow> ('s, 'm, 'c, 'd, 'w, 'b, 'n, 'r) event_loop \<Rightarrow> ('s, 'm, 'c, 'd, 'w, 'b, 'n, 'r) event_loop" where
  "redial_tick N self =
     (let num_peers = sw_num_peers N (swarm self) in
      if num_peers = 0 then
        let self = self\<lparr>swarm := fold (\<lambda>addr w. snd (sw_dial N w (DialAddr addr))) (bootstrap_nodes self) (swarm self)\<rparr>
        in if loopback_tx self then spawn (ResolveSeeds (seed_domain self) (disable_challenge self)) self else self
      else if 20 < num_peers then
        let (kept, w) = retain_bootstrap N (bootstrap_peers self) (swarm self)
        in self\<lparr>swarm := w, bootstrap_peers := kept\<rparr>
      else self)"

definition kyn_changed ::
  "kyn \<Rightarrow> ('s, 'm, 'c, 'd, 'w, 'b, 'n, 'r) event_loop \<Rightarrow> ('s, 'm, 'c, 'd, 'w, 'b, 'n, 'r) event_loop" where
  "kyn_changed new_kyn self =
     (if el_kyn self < new_kyn
      then self\<lparr>el_kyn := new_kyn, el_store := (el_store self)\<lparr>current_kyn := new_kyn\<rparr>\<rparr> else self)"

definition startup ::
  "'x event_env_scheme \<Rightarrow> ('s, 'm, 'c, 'd, 'w, 'b, 'n, 'r, 'y) net_ops_scheme
     \<Rightarrow> ('s, 'm, 'c, 'd, 'w, 'b, 'n, 'r) event_loop \<Rightarrow> ('s, 'm, 'c, 'd, 'w, 'b, 'n, 'r) event_loop" where
  "startup E N self =
     (let self = self\<lparr>loopback_tx := True\<rparr>
      in self\<lparr>swarm := fold (\<lambda>domain w.
           fold (\<lambda>addr w. snd (sw_dial N w (DialAddr addr))) (resolve_dns_tree (node_dns E) domain) w)
           (seed_domain self) (swarm self)\<rparr>)"

section \<open>Spawned work\<close>

text \<open>The outcome of a finished resolution (\<open>handle_get_completion\<close>).\<close>

definition resolve_answer ::
  "'x event_env_scheme \<Rightarrow> action_state option \<Rightarrow> string \<Rightarrow> pending_get \<Rightarrow> kyn \<Rightarrow> bytes option
     \<Rightarrow> (resolution_error, bytes) result" where
  "resolve_answer E G name p current local_fallback =
     (case xor_tie_breaker E G name (pg_payloads p) current of
        Some payload \<Rightarrow> Ok payload
      | None \<Rightarrow>
          (case local_fallback of
             Some payload \<Rightarrow> Ok payload
           | None \<Rightarrow> Err (ResNotFound (pop_trailing CHR ''.'' name) (pg_peers_queried p))))"

text \<open>The bans that have expired are deleted from the database.\<close>

definition expired_ban :: "kyn \<Rightarrow> bytes \<times> bytes \<Rightarrow> bool" where
  "expired_ban current kv = (length (snd kv) = 8 \<and> u64_from_be_bytes (snd kv) \<le> current)"

definition scan_banned ::
  "'x event_env_scheme \<Rightarrow> ('s, 'y) storage_ops_scheme \<Rightarrow> kyn \<Rightarrow> 's \<Rightarrow> 's" where
  "scan_banned E B current st =
     (case st_scan_prefix B st (as_bytes (DB_PREFIX_BANNED_PEER E)) None of
        Inr it \<Rightarrow> delete_all B (map fst (filter (expired_ban current) it)) st
      | Inl _ \<Rightarrow> st)"

text \<open>The verdict of a record goes back to the loop (\<open>handlers/kademlia.rs\<close>).\<close>

definition run_verify_record ::
  "'x event_env_scheme \<Rightarrow> action_state option \<Rightarrow> ('s, 'm, 'c, 'd, 'w, 'b, 'n, 'r, 'y) net_ops_scheme
     \<Rightarrow> peer_id \<Rightarrow> kad_record \<Rightarrow> reveal \<Rightarrow> kyn \<Rightarrow> ('s, 'm, 'c, 'd, 'w, 'b, 'n, 'r) event_loop
     \<Rightarrow> ('s, 'm, 'c, 'd, 'w, 'b, 'n, 'r) event_loop" where
  "run_verify_record E G N source r reveal current self =
     self\<lparr>loopback := loopback self @ [CommitVerifiedRecord source r
       (verify_reveal E G N (storage (el_store self)) reveal current)]\<rparr>"

text \<open>A record another node serves is verified outside development mode (\<open>handlers/cdn.rs\<close>).\<close>

definition run_verify_cdn ::
  "'x event_env_scheme \<Rightarrow> action_state option \<Rightarrow> ('s, 'm, 'c, 'd, 'w, 'b, 'n, 'r, 'y) net_ops_scheme
     \<Rightarrow> string \<Rightarrow> bytes \<Rightarrow> peer_id \<Rightarrow> name_envelope \<Rightarrow> kyn \<Rightarrow> ('s, 'm, 'c, 'd, 'w, 'b, 'n, 'r) event_loop
     \<Rightarrow> ('s, 'm, 'c, 'd, 'w, 'b, 'n, 'r) event_loop" where
  "run_verify_cdn E G N domain raw peer record current self =
     (if dev_mode E
         \<or> is_ok (verify_reveal E G N (storage (el_store self)) (standard_reveal record) current)
      then self\<lparr>loopback := loopback self @ [CdnResolutionVerified domain raw peer]\<rparr> else self)"

text \<open>The proof of work of a new connection (\<open>swarm_handler.rs\<close>).\<close>

definition run_check_pow ::
  "'x event_env_scheme \<Rightarrow> peer_id \<Rightarrow> kyn \<Rightarrow> bool \<Rightarrow> multiaddr \<Rightarrow> ('s, 'm, 'c, 'd, 'w, 'b, 'n, 'r) event_loop
     \<Rightarrow> ('s, 'm, 'c, 'd, 'w, 'b, 'n, 'r) event_loop" where
  "run_check_pow E peer current is_bootstrap addr self =
     (let server = verify_p2p_challenge E (argon2id E) peer current CHALLENGE_THRESHOLD_BITS;
          client = (server \<or> verify_p2p_challenge E (argon2id E) peer current CHALLENGE_THRESHOLD_BITS_CLIENT)
      in self\<lparr>loopback := loopback self @ [ConnectionPoWVerified peer client server is_bootstrap addr]\<rparr>)"

text \<open>A gossip message that is valid is handed to the application (\<open>handlers/gossipsub.rs\<close>).\<close>

definition run_validate_gossip ::
  "'x event_env_scheme \<Rightarrow> action_state option \<Rightarrow> string \<Rightarrow> bytes \<Rightarrow> message_id \<Rightarrow> peer_id
     \<Rightarrow> ('s, 'm, 'c, 'd, 'w, 'b, 'n, 'r) event_loop \<Rightarrow> ('s, 'm, 'c, 'd, 'w, 'b, 'n, 'r) event_loop" where
  "run_validate_gossip E G topic payload mid source self =
     (case validate_gossip E G topic payload of
        None \<Rightarrow> self
      | Some is_valid \<Rightarrow>
          (let self = (if loopback_tx self
                       then self\<lparr>loopback := loopback self @ [CommitGossipValidation mid source (Some is_valid)]\<rparr>
                       else self)
           in if is_valid \<and> gossip_tx self
              then self\<lparr>gossiped := gossiped self @ [(topic, payload, mid, source)]\<rparr> else self))"

text \<open>The fallback seeds, when no peer is connected (\<open>reactor.rs\<close>).\<close>

definition run_resolve_seeds ::
  "'x event_env_scheme \<Rightarrow> string list \<Rightarrow> bool \<Rightarrow> ('s, 'm, 'c, 'd, 'w, 'b, 'n, 'r) event_loop
     \<Rightarrow> ('s, 'm, 'c, 'd, 'w, 'b, 'n, 'r) event_loop" where
  "run_resolve_seeds E domains no_challenge self =
     self\<lparr>loopback := loopback self @ map DialResolvedSeed (filter (\<lambda>addr. is_routable_multiaddr E addr no_challenge True)
       (concat (map (resolve_dns_tree (node_dns E)) domains)))\<rparr>"

definition run_spawned ::
  "'x event_env_scheme \<Rightarrow> action_state option \<Rightarrow> ('s, 'm, 'c, 'd, 'w, 'b, 'n, 'r, 'y) net_ops_scheme
     \<Rightarrow> task \<Rightarrow> ('s, 'm, 'c, 'd, 'w, 'b, 'n, 'r) event_loop \<Rightarrow> ('s, 'm, 'c, 'd, 'w, 'b, 'n, 'r) event_loop" where
  "run_spawned E G N t self =
     (case t of
        VerifyRecord source r reveal current \<Rightarrow> run_verify_record E G N source r reveal current self
      | VerifyCdn domain raw peer record current \<Rightarrow> run_verify_cdn E G N domain raw peer record current self
      | CheckPoW peer current is_bootstrap addr \<Rightarrow> run_check_pow E peer current is_bootstrap addr self
      | ValidateGossip topic payload mid source \<Rightarrow> run_validate_gossip E G topic payload mid source self
      | ResolveTie name p current local_fallback \<Rightarrow>
          send_all (pg_responders p) (ResolveAnswer (resolve_answer E G name p current local_fallback)) self
      | ScanBanned current \<Rightarrow>
          self\<lparr>el_store := (el_store self)\<lparr>storage := scan_banned E N current (storage (el_store self))\<rparr>\<rparr>
      | ForwardProxy req ch \<Rightarrow> self\<lparr>proxied := proxied self @ [(req, ch)]\<rparr>
      | ResolveSeeds domains no_challenge \<Rightarrow> run_resolve_seeds E domains no_challenge self)"

lemmas run_spawned_simps = run_spawned_def run_verify_record_def run_verify_cdn_def run_check_pow_def
  run_validate_gossip_def run_resolve_seeds_def

section \<open>Construction (swarm\_builder.rs)\<close>

record network_config =
  nc_bootstrap_nodes :: "multiaddr list"
  nc_seed_domain :: "string list"
  nc_initial_kyn :: kyn
  nc_disable_challenge :: bool

text \<open>The bootstrap nodes of the configuration: those that name their peer are remembered and put
  into the routing table, and all are dialled. \<open>last_peer\<close> is the peer of a trailing \<open>/p2p\<close>.\<close>

definition load_bootstrap ::
  "('s, 'm, 'c, 'd, 'w, 'b, 'n, 'r, 'y) net_ops_scheme \<Rightarrow> (multiaddr \<Rightarrow> peer_id option) \<Rightarrow> multiaddr list
     \<Rightarrow> peer_id list \<times> 'w \<Rightarrow> peer_id list \<times> 'w" where
  "load_bootstrap N last_peer =
     fold (\<lambda>addr (peers, w).
       let (peers, w) = (case last_peer addr of
              Some p \<Rightarrow> (List.insert p peers, sw_call N w (AddAddress p addr))
            | None \<Rightarrow> (peers, w))
       in (peers, snd (sw_dial N w (DialAddr addr))))"

text \<open>One entry of the persisted bans: a ban that is over is deleted, another one is loaded.\<close>

definition load_ban ::
  "'x event_env_scheme \<Rightarrow> ('s, 'm, 'c, 'd, 'w, 'b, 'n, 'r, 'y) net_ops_scheme \<Rightarrow> (string \<Rightarrow> peer_id option)
     \<Rightarrow> kyn \<Rightarrow> bytes \<times> bytes \<Rightarrow> 'n \<times> 's \<Rightarrow> 'n \<times> 's" where
  "load_ban E N parse_peer now kv acc =
     (let (key, val) = kv; (peers, st) = acc; prefix_len = length (DB_PREFIX_BANNED_PEER E) in
      if prefix_len < length key then
        case from_utf8 (map (\<lambda>b. char_of (unat b)) (drop prefix_len key)) of
          None \<Rightarrow> acc
        | Some s \<Rightarrow>
            (case parse_peer s of
               None \<Rightarrow> acc
             | Some peer \<Rightarrow>
                 if length val = 8 then
                   let expire = u64_from_be_bytes val
                   in if now < expire then (bn_put N peers peer expire, st) else (peers, snd (st_delete N st key))
                 else acc)
      else acc)"

definition load_banned ::
  "'x event_env_scheme \<Rightarrow> ('s, 'm, 'c, 'd, 'w, 'b, 'n, 'r, 'y) net_ops_scheme \<Rightarrow> (string \<Rightarrow> peer_id option)
     \<Rightarrow> kyn \<Rightarrow> 'n \<times> 's \<Rightarrow> 'n \<times> 's" where
  "load_banned E N parse_peer now acc =
     (case st_scan_prefix N (snd acc) (as_bytes (DB_PREFIX_BANNED_PEER E)) None of
        Inr it \<Rightarrow> fold (load_ban E N parse_peer now) it acc
      | Inl _ \<Rightarrow> acc)"

text \<open>\<open>w\<close> and \<open>store\<close> are the swarm and the record store \<open>build_edge_swarm\<close> or \<open>build_router_swarm\<close>
  has built, \<open>registry\<close>, \<open>counts\<close> and \<open>banned\<close> the empty caches.\<close>

definition event_loop_new ::
  "'x event_env_scheme \<Rightarrow> ('s, 'm, 'c, 'd, 'w, 'b, 'n, 'r, 'y) net_ops_scheme \<Rightarrow> (multiaddr \<Rightarrow> peer_id option)
     \<Rightarrow> (string \<Rightarrow> peer_id option) \<Rightarrow> network_config \<Rightarrow> 'w \<Rightarrow> ('s, 'm, 'c, 'd) krs \<Rightarrow> bool \<Rightarrow> bool \<Rightarrow> 'r \<Rightarrow> 'b \<Rightarrow> 'n
     \<Rightarrow> ('s, 'm, 'c, 'd, 'w, 'b, 'n, 'r) event_loop" where
  "event_loop_new E N last_peer parse_peer config w store proxy_tx gossip registry counts banned =
     (let (peers, w) = load_bootstrap N last_peer (nc_bootstrap_nodes config) ([], w);
          (banned, st) = load_banned E N parse_peer (nc_initial_kyn config) (banned, storage store)
      in \<lparr>swarm = w, el_store = store\<lparr>storage := st\<rparr>, pending_gets = Map.empty, pending_quorums = Map.empty,
           pending_puts = Map.empty, pending_reveals = Map.empty, query_id_to_name = Map.empty,
           pending_proxy_requests = Map.empty, pending_cdn_requests = Map.empty,
           pending_action_sync_requests = Map.empty, action_log = [], peer_registry = registry,
           incoming_proxy_tx = proxy_tx, gossip_tx = gossip, bad_vdf_counts = counts,
           el_kyn = nc_initial_kyn config, bootstrap_nodes = nc_bootstrap_nodes config,
           seed_domain = nc_seed_domain config, bootstrap_peers = peers,
           disable_challenge = nc_disable_challenge config, banned_peers = banned,
           bootstrap_connection_time = Map.empty, nat_status = ''Unknown'', loopback_tx = False,
           gossip_permits = 8, proxy_cdn_usage = 0, tasks = [], loopback = [], answers = [], proxied = [],
           gossiped = []\<rparr>)"

text \<open>The parameters of a node, for the witnesses.\<close>

definition sample_node :: event_env where
  "sample_node = resolution_env.extend
     (store_env.extend (sample_store\<lparr>json_has_field := \<lambda>_. Some (\<lambda>_. True)\<rparr>) (resolution_env.fields (\<lambda>_. None) (\<lambda>_. None) (\<lambda>_. None)))
     (event_env.fields (\<lambda>_ _. None) (\<lambda>_. ''peer'') (\<lambda>_. Some sample_reveal) (\<lambda>_. None) (\<lambda>_. None) (\<lambda>_. ''error'')
       ''permissionless'' \<lparr>sovereign_key_hex = [], max_age_kyns = 0, cfg_dev_mode = False, action_model = ''permissionless''\<rparr>
       ''00'' ''banned:'' \<lparr>resolver_ok = False, txt_lookup = \<lambda>_. None, parse_multiaddr = \<lambda>_. None,
         trim_unicode = id, first_word_unicode = \<lambda>_. None\<rparr>)"

lemmas sample_node_simps = sample_node_def resolution_env.defs store_env.defs event_env.defs

end
