(* ===== verification/Reactor.thy ===== *)
theory Reactor
  imports Event_Loop
begin

text \<open>
  The reactor as a transition system, and what every step of it keeps: a request that waits has
  enough open queries behind it (\<open>accounted\<close>), and a caller that waits stays waiting until it is
  answered (\<open>served\<close>).
\<close>

section \<open>Steps\<close>

text \<open>
  One turn of the \<open>select!\<close> loop of \<open>run\<close>, or one piece of spawned work. The time and the action
  state are whatever the step meets. libp2p reports the end of a query only to the kind of
  request that opened it.
\<close>

definition event_ok :: "('s, 'm, 'c, 'd, 'w, 'b, 'n, 'r) event_loop \<Rightarrow> swarm_event \<Rightarrow> bool" where
  "event_ok self ev =
     (case ev of
        KadEvent (PutRecordResult qid _) \<Rightarrow>
          (case query_id_to_name self qid of Some (QGet _) \<Rightarrow> False | Some (QQuorum _) \<Rightarrow> False | _ \<Rightarrow> True)
      | KadEvent (GetRecordFinished qid) \<Rightarrow>
          (case query_id_to_name self qid of Some (QPut _) \<Rightarrow> False | _ \<Rightarrow> True)
      | _ \<Rightarrow> True)"

inductive net_step ::
  "'x event_env_scheme \<Rightarrow> (outbound_failure \<Rightarrow> string) \<Rightarrow> ('s, 'm, 'c, 'd, 'w, 'b, 'n, 'r, 'y) net_ops_scheme
     \<Rightarrow> ('s, 'm, 'c, 'd, 'w, 'b, 'n, 'r) event_loop \<Rightarrow> ('s, 'm, 'c, 'd, 'w, 'b, 'n, 'r) event_loop \<Rightarrow> bool"
  for E fs N where
  step_command: "handle_command E G N now c s = Some s' \<Longrightarrow> net_step E fs N s s'"
| step_event: "event_ok s ev \<Longrightarrow> handle_swarm_event E G fs N now ev s = Some s' \<Longrightarrow> net_step E fs N s s'"
| step_loopback: "loopback s = cmd # rest \<Longrightarrow> handle_loopback E G N now cmd (s\<lparr>loopback := rest\<rparr>) = Some s'
    \<Longrightarrow> net_step E fs N s s'"
| step_task: "tasks s = before @ t # after
    \<Longrightarrow> net_step E fs N s (run_spawned E G N t (s\<lparr>tasks := before @ after\<rparr>))"
| step_store_task: "pending (el_store s) = before @ t # after
    \<Longrightarrow> net_step E fs N s (s\<lparr>el_store := (el_store s)\<lparr>pending := before @ after,
          storage := run_task N t (storage (el_store s))\<rparr>\<rparr>)"
| step_prune: "net_step E fs N s (prune_tick E N s)"
| step_redial: "net_step E fs N s (redial_tick N s)"
| step_kyn: "net_step E fs N s (kyn_changed k s)"

inductive_cases net_stepE: "net_step E fs N s s'"

section \<open>Query accounting\<close>

text \<open>
  What libp2p documents of query identifiers: a new query has an identifier no earlier query has
  had. \<open>used\<close> are the identifiers a swarm has handed out; no call forgets one.
\<close>

definition query_ids_fresh :: "('s, 'm, 'c, 'd, 'w, 'b, 'n, 'r, 'y) net_ops_scheme \<Rightarrow> ('w \<Rightarrow> nat set) \<Rightarrow> bool" where
  "query_ids_fresh N used \<longleftrightarrow>
     (\<forall>w k. fst (sw_get_record N w k) \<notin> used w
        \<and> insert (fst (sw_get_record N w k)) (used w) \<subseteq> used (snd (sw_get_record N w k)))
     \<and> (\<forall>w st r q w' st'. sw_put_record N w st r = (q, w', st')
        \<longrightarrow> used w \<subseteq> used w' \<and> (\<forall>i. q = Some i \<longrightarrow> i \<notin> used w \<and> i \<in> used w'))
     \<and> (\<forall>w p x. used w \<subseteq> used (snd (sw_send_proxy N w p x)))
     \<and> (\<forall>w p x. used w \<subseteq> used (snd (sw_send_cdn N w p x)))
     \<and> (\<forall>w p. used w \<subseteq> used (snd (sw_send_action_sync N w p)))
     \<and> (\<forall>w p. used w \<subseteq> used (snd (sw_disconnect N w p)))
     \<and> (\<forall>w d. used w \<subseteq> used (snd (sw_dial N w d)))
     \<and> (\<forall>w t. used w \<subseteq> used (snd (sw_subscribe N w t)))
     \<and> (\<forall>w t x. used w \<subseteq> used (snd (sw_publish N w t x)))
     \<and> (\<forall>w c. used w \<subseteq> used (sw_call N w c))"

text \<open>The open queries of a request.\<close>

definition open_queries :: "('s, 'm, 'c, 'd, 'w, 'b, 'n, 'r) event_loop \<Rightarrow> query_type \<Rightarrow> query_id set" where
  "open_queries s q = {i. query_id_to_name s i = Some q}"

text \<open>The part of the state the accounting is about.\<close>

definition accounted :: "('w \<Rightarrow> nat set) \<Rightarrow> ('s, 'm, 'c, 'd, 'w, 'b, 'n, 'r) event_loop \<Rightarrow> bool" where
  "accounted used s \<longleftrightarrow>
     dom (query_id_to_name s) \<subseteq> used (swarm s) \<and> finite (dom (query_id_to_name s))
     \<and> (\<forall>name p. pending_gets s name = Some p \<longrightarrow> 0 < pg_expected p \<and> pg_expected p \<le> card (open_queries s (QGet name)))
     \<and> (\<forall>name p. pending_quorums s name = Some p \<longrightarrow> 0 < pq_expected p \<and> pq_expected p \<le> card (open_queries s (QQuorum name)))
     \<and> (\<forall>name p. pending_puts s name = Some p \<longrightarrow> 0 < pu_expected p \<and> pu_expected p \<le> card (open_queries s (QPut name)))"

text \<open>Steps that leave the books alone, and take back no answer and no spawned work.\<close>

definition same_books ::
  "('w \<Rightarrow> nat set) \<Rightarrow> ('s, 'm, 'c, 'd, 'w, 'b, 'n, 'r) event_loop \<Rightarrow> ('s, 'm, 'c, 'd, 'w, 'b, 'n, 'r) event_loop \<Rightarrow> bool" where
  "same_books used s s' \<longleftrightarrow>
     query_id_to_name s' = query_id_to_name s \<and> pending_gets s' = pending_gets s
     \<and> pending_quorums s' = pending_quorums s \<and> pending_puts s' = pending_puts s
     \<and> used (swarm s) \<subseteq> used (swarm s')
     \<and> set (answers s) \<subseteq> set (answers s') \<and> set (tasks s) \<subseteq> set (tasks s')"

lemma accounted_same: "accounted used s \<Longrightarrow> same_books used s s' \<Longrightarrow> accounted used s'"
  by (auto simp: accounted_def same_books_def open_queries_def)

lemma same_books_refl [simp]: "same_books used s s"
  by (simp add: same_books_def)

lemma same_books_trans: "same_books used s t \<Longrightarrow> same_books used t u \<Longrightarrow> same_books used s u"
  by (auto simp: same_books_def)

lemma fresh_calls:
  assumes "query_ids_fresh N used"
  shows "used w \<subseteq> used (snd (sw_send_proxy N w p pr))" "used w \<subseteq> used (snd (sw_send_cdn N w p name))"
    "used w \<subseteq> used (snd (sw_send_action_sync N w p))" "used w \<subseteq> used (snd (sw_disconnect N w p))"
    "used w \<subseteq> used (snd (sw_dial N w d))" "used w \<subseteq> used (snd (sw_subscribe N w topic))"
    "used w \<subseteq> used (snd (sw_publish N w topic x))" "used w \<subseteq> used (sw_call N w c)"
  using assms by (simp_all add: query_ids_fresh_def)

lemma fresh_get:
  assumes "query_ids_fresh N used" and "sw_get_record N w k = (i, w')"
  shows "i \<notin> used w" "i \<in> used w'" "used w \<subseteq> used w'"
proof -
  have "fst (sw_get_record N w k) \<notin> used w
        \<and> insert (fst (sw_get_record N w k)) (used w) \<subseteq> used (snd (sw_get_record N w k))"
    using assms(1) by (simp add: query_ids_fresh_def)
  with assms(2) show "i \<notin> used w" "i \<in> used w'" "used w \<subseteq> used w'" by auto
qed

lemma fresh_put:
  assumes "query_ids_fresh N used" and "sw_put_record N w st r = (q, w', st')"
  shows "used w \<subseteq> used w'" "q = Some i \<Longrightarrow> i \<notin> used w" "q = Some i \<Longrightarrow> i \<in> used w'"
proof -
  have "\<forall>w st r q w' st'. sw_put_record N w st r = (q, w', st')
        \<longrightarrow> used w \<subseteq> used w' \<and> (\<forall>i. q = Some i \<longrightarrow> i \<notin> used w \<and> i \<in> used w')"
    using assms(1) unfolding query_ids_fresh_def by (elim conjE)
  then have "used w \<subseteq> used w' \<and> (\<forall>i. q = Some i \<longrightarrow> i \<notin> used w \<and> i \<in> used w')" using assms(2) by blast
  then show "used w \<subseteq> used w'" "q = Some i \<Longrightarrow> i \<notin> used w" "q = Some i \<Longrightarrow> i \<in> used w'" by simp_all
qed

lemma fold_used:
  assumes "\<And>x w. used w \<subseteq> used (f x w)"
  shows "used w \<subseteq> used (fold f xs w)"
proof (induction xs arbitrary: w)
  case (Cons x xs)
  from assms [of w x] Cons [of "f x w"] show ?case by simp
qed simp

lemma retain_used:
  assumes "query_ids_fresh N used"
  shows "used w \<subseteq> used (snd (retain_bootstrap N ps w))"
proof (induction ps arbitrary: w)
  case (Cons p ps)
  have "used w \<subseteq> used (snd (sw_disconnect N w p))" by (rule fresh_calls [OF assms])
  with Cons [of "snd (sw_disconnect N w p)"] show ?case
    by (auto simp: split_beta Let_def)
qed simp

lemma strike_books:
  assumes "query_ids_fresh N used"
  shows "same_books used s (snd (record_strike N now p s))" "same_books used s (ban_gossip N now p s)"
    "same_books used s (strike_record N now p s)" "same_books used s (strike_inbound E N now p s)"
  using fresh_calls(4) [OF assms]
  by (auto simp: same_books_def record_strike_def ban_gossip_def strike_record_def strike_inbound_def
      split_beta Let_def)

section \<open>Completions\<close>

lemma open_finite: "accounted used s \<Longrightarrow> finite (open_queries s q)"
  by (auto simp: accounted_def open_queries_def intro: finite_subset [of _ "dom (query_id_to_name s)"])

text \<open>Closing one query lowers the count of its request by one and touches no other.\<close>

lemma open_close:
  "open_queries (s\<lparr>query_id_to_name := (query_id_to_name s)(i := None)\<rparr>) q = open_queries s q - {i}"
  by (auto simp: open_queries_def)

lemma open_cong: "query_id_to_name s' = query_id_to_name s \<Longrightarrow> open_queries s' q = open_queries s q"
  by (simp add: open_queries_def)

lemma card_close:
  assumes "accounted used s" and "query_id_to_name s i = Some q"
  shows "card (open_queries s q - {i}) = card (open_queries s q) - 1"
    and "q' \<noteq> q \<Longrightarrow> open_queries s q' - {i} = open_queries s q'"
  using assms open_finite [OF assms(1), of q] by (auto simp: open_queries_def)

lemma accounted_close:
  assumes "accounted used s" and "query_id_to_name s i = Some q"
    and "query_id_to_name s' = (query_id_to_name s)(i := None)" and "used (swarm s) \<subseteq> used (swarm s')"
    and gets: "\<And>name p. pending_gets s' name = Some p \<Longrightarrow>
      \<exists>p0. pending_gets s name = Some p0 \<and> 0 < pg_expected p
         \<and> pg_expected p = pg_expected p0 - (if q = QGet name then 1 else 0)"
    and quorums: "\<And>name p. pending_quorums s' name = Some p \<Longrightarrow>
      \<exists>p0. pending_quorums s name = Some p0 \<and> 0 < pq_expected p
         \<and> pq_expected p = pq_expected p0 - (if q = QQuorum name then 1 else 0)"
    and puts: "\<And>name p. pending_puts s' name = Some p \<Longrightarrow>
      \<exists>p0. pending_puts s name = Some p0 \<and> 0 < pu_expected p
         \<and> pu_expected p = pu_expected p0 - (if q = QPut name then 1 else 0)"
  shows "accounted used s'"
proof -
  have O: "open_queries s' q' = open_queries s q' - {i}" for q'
    using assms(3) by (auto simp: open_queries_def)
  have C: "card (open_queries s' q') = card (open_queries s q') - (if q = q' then 1 else 0)" for q'
    using card_close [OF assms(1,2)] by (auto simp: O)
  have B: "\<And>name p. pending_gets s name = Some p \<Longrightarrow> pg_expected p \<le> card (open_queries s (QGet name))"
    "\<And>name p. pending_quorums s name = Some p \<Longrightarrow> pq_expected p \<le> card (open_queries s (QQuorum name))"
    "\<And>name p. pending_puts s name = Some p \<Longrightarrow> pu_expected p \<le> card (open_queries s (QPut name))"
    using assms(1) by (auto simp: accounted_def)
  have 1: "0 < pg_expected p \<and> pg_expected p \<le> card (open_queries s' (QGet name))"
    if "pending_gets s' name = Some p" for name p
    using gets [OF that] B(1) by (auto simp: C diff_le_mono)
  have 2: "0 < pq_expected p \<and> pq_expected p \<le> card (open_queries s' (QQuorum name))"
    if "pending_quorums s' name = Some p" for name p
    using quorums [OF that] B(2) by (auto simp: C diff_le_mono)
  have 3: "0 < pu_expected p \<and> pu_expected p \<le> card (open_queries s' (QPut name))"
    if "pending_puts s' name = Some p" for name p
    using puts [OF that] B(3) by (auto simp: C diff_le_mono)
  have "dom (query_id_to_name s') \<subseteq> used (swarm s')" "finite (dom (query_id_to_name s'))"
    using assms(1,3,4) by (auto simp: accounted_def)
  with 1 2 3 show ?thesis by (simp add: accounted_def)
qed

lemma handle_get_finished_accounted:
  assumes A: "accounted used s" and ok: "event_ok s (KadEvent (GetRecordFinished i))"
  shows "accounted used (handle_get_finished E N i s)"
proof (cases "query_id_to_name s i")
  case None
  then have "same_books used s (handle_get_finished E N i s)"
    by (simp add: handle_get_finished_def same_books_def)
  with A show ?thesis by (rule accounted_same)
next
  case (Some q)
  have pos: "\<And>name p. pending_gets s name = Some p \<Longrightarrow> 0 < pg_expected p"
    "\<And>name p. pending_quorums s name = Some p \<Longrightarrow> 0 < pq_expected p"
    "\<And>name p. pending_puts s name = Some p \<Longrightarrow> 0 < pu_expected p"
    using A by (auto simp: accounted_def)
  show ?thesis
  proof (cases q)
    case (QGet name)
    show ?thesis
      by (rule accounted_close [OF A Some])
         (auto simp: handle_get_finished_def Some QGet handle_get_completion_def usize_pred_def Let_def
            dest: pos split: option.splits if_splits)
  next
    case (QQuorum name)
    show ?thesis
      by (rule accounted_close [OF A Some])
         (auto simp: handle_get_finished_def Some QQuorum handle_quorum_completion_def usize_pred_def Let_def
            dest: pos split: option.splits if_splits)
  next
    case (QPut name)
    with ok Some show ?thesis by (simp add: event_ok_def)
  qed
qed

lemma handle_put_result_accounted:
  assumes A: "accounted used s" and ev: "event_ok s (KadEvent (PutRecordResult i ok))"
  shows "accounted used (handle_put_result i ok s)"
proof (cases "query_id_to_name s i")
  case None
  then have "same_books used s (handle_put_result i ok s)"
    by (auto simp: handle_put_result_def same_books_def fun_upd_idem)
  with A show ?thesis by (rule accounted_same)
next
  case (Some q)
  have pos: "\<And>name p. pending_gets s name = Some p \<Longrightarrow> 0 < pg_expected p"
    "\<And>name p. pending_quorums s name = Some p \<Longrightarrow> 0 < pq_expected p"
    "\<And>name p. pending_puts s name = Some p \<Longrightarrow> 0 < pu_expected p"
    using A by (auto simp: accounted_def)
  obtain name where q: "q = QPut name" using ev Some by (cases q) (auto simp: event_ok_def)
  show ?thesis
    by (rule accounted_close [OF A Some])
       (auto simp: handle_put_result_def Some q usize_pred_def Let_def dest: pos split: option.splits if_splits)
qed

section \<open>Starting queries\<close>

text \<open>What opening queries for a request does to the books.\<close>

definition opened ::
  "('w \<Rightarrow> nat set) \<Rightarrow> query_type \<Rightarrow> nat \<Rightarrow> ('s, 'm, 'c, 'd, 'w, 'b, 'n, 'r) event_loop
     \<Rightarrow> ('s, 'm, 'c, 'd, 'w, 'b, 'n, 'r) event_loop \<Rightarrow> bool" where
  "opened used q n s s' \<longleftrightarrow>
     dom (query_id_to_name s') \<subseteq> used (swarm s') \<and> finite (dom (query_id_to_name s'))
     \<and> used (swarm s) \<subseteq> used (swarm s')
     \<and> card (open_queries s q) + n \<le> card (open_queries s' q)
     \<and> (\<forall>q'. q' \<noteq> q \<longrightarrow> open_queries s' q' = open_queries s q')
     \<and> pending_gets s' = pending_gets s \<and> pending_quorums s' = pending_quorums s \<and> pending_puts s' = pending_puts s
     \<and> answers s' = answers s \<and> tasks s' = tasks s"

lemma opened_refl:
  "dom (query_id_to_name s) \<subseteq> used (swarm s) \<Longrightarrow> finite (dom (query_id_to_name s)) \<Longrightarrow> opened used q 0 s s"
  by (simp add: opened_def)

lemma opened_trans: "opened used q m s t \<Longrightarrow> opened used q n t u \<Longrightarrow> opened used q (m + n) s u"
  by (auto simp: opened_def)

lemma opened_one:
  assumes "dom (query_id_to_name s) \<subseteq> used (swarm s)" "finite (dom (query_id_to_name s))"
    and "i \<notin> used (swarm s)" "i \<in> used w'" "used (swarm s) \<subseteq> used w'"
    and "query_id_to_name s' = (query_id_to_name s)(i \<mapsto> q)" "swarm s' = w'"
    and "pending_gets s' = pending_gets s" "pending_quorums s' = pending_quorums s" "pending_puts s' = pending_puts s"
    and "answers s' = answers s" "tasks s' = tasks s"
  shows "opened used q 1 s s'"
proof -
  have i: "query_id_to_name s i = None" using assms(1,3) by blast
  then have "open_queries s' q' = (if q' = q then insert i (open_queries s q') else open_queries s q')" for q'
    by (auto simp: open_queries_def assms(6))
  moreover have "i \<notin> open_queries s q" "finite (open_queries s q)"
    using i assms(2) by (auto simp: open_queries_def intro: finite_subset [of _ "dom (query_id_to_name s)"])
  ultimately show ?thesis using assms by (auto simp: opened_def)
qed

lemma opened_books:
  "opened used q n s s' \<Longrightarrow> dom (query_id_to_name s') \<subseteq> used (swarm s')"
  "opened used q n s s' \<Longrightarrow> finite (dom (query_id_to_name s'))"
  by (simp_all add: opened_def)

lemma dispatch_opened:
  assumes N: "query_ids_fresh N used"
    and "dom (query_id_to_name s) \<subseteq> used (swarm s)" "finite (dom (query_id_to_name s))"
    and "dispatch_dht_queries N q keys n s = (m, s')"
  shows "m = n + length keys \<and> opened used q (length keys) s s'"
  using assms(2-4)
proof (induction keys arbitrary: n s)
  case Nil
  then show ?case by (auto intro: opened_refl)
next
  case (Cons key keys)
  obtain i w where g: "sw_get_record N (swarm s) key = (i, w)" by (cases "sw_get_record N (swarm s) key")
  let ?t = "s\<lparr>swarm := w, query_id_to_name := (query_id_to_name s)(i \<mapsto> q)\<rparr>"
  have one: "opened used q 1 s ?t"
    by (rule opened_one [where i = i and w' = w]) (use Cons.prems fresh_get [OF N g] in auto)
  have "m = Suc n + length keys \<and> opened used q (length keys) ?t s'"
    by (rule Cons.IH [OF opened_books [OF one]]) (use Cons.prems g in simp)
  with opened_trans [OF one, of "length keys" s'] show ?case by simp
qed

lemma enqueue_opened:
  assumes N: "query_ids_fresh N used"
    and "dom (query_id_to_name s) \<subseteq> used (swarm s)" "finite (dom (query_id_to_name s))"
    and "enqueue_loop E G N now name payload keys n s = Some (res, s')"
  shows "\<exists>m. opened used (QPut name) m s s' \<and> (\<forall>k. res = Inr k \<longrightarrow> k = n + m)"
  using assms(2-4)
proof (induction keys arbitrary: n s)
  case Nil
  then show ?case using opened_refl by (intro exI [of _ 0]) auto
next
  case (Cons key keys)
  let ?r = "\<lparr>kr_key = key, kr_value = payload\<rparr>"
  from Cons.prems(3) obtain r st where p: "krs_put E G N now (el_store s) ?r = Some (r, st)"
    by (cases "krs_put E G N now (el_store s) ?r") (auto simp: Let_def)
  show ?case
  proof (cases r)
    case (Inl e)
    with Cons.prems(3) p have "s' = s\<lparr>el_store := st\<rparr>" "res = Inl e" by (auto simp: Let_def)
    moreover have "opened used (QPut name) 0 s (s\<lparr>el_store := st\<rparr>)"
      using Cons.prems by (simp add: opened_def open_queries_def)
    ultimately show ?thesis by blast
  next
    case (Inr u)
    obtain q w st' where g: "sw_put_record N (swarm s) st ?r = (q, w, st')" by (cases "sw_put_record N (swarm s) st ?r")
    note F = fresh_put [OF N g]
    let ?t = "s\<lparr>swarm := w, el_store := st'\<rparr>"
    show ?thesis
    proof (cases q)
      case None
      have z: "opened used (QPut name) 0 s ?t" using Cons.prems F by (auto simp: opened_def open_queries_def)
      obtain m where "opened used (QPut name) m ?t s'" "\<forall>k. res = Inr k \<longrightarrow> k = n + m"
        using Cons.IH [OF opened_books [OF z], of n] Cons.prems(3) p Inr g None by (auto simp: Let_def)
      with opened_trans [OF z] show ?thesis by (intro exI [of _ m]) auto
    next
      case (Some i)
      let ?u = "?t\<lparr>query_id_to_name := (query_id_to_name s)(i \<mapsto> QPut name)\<rparr>"
      have one: "opened used (QPut name) 1 s ?u"
        by (rule opened_one [where i = i and w' = w]) (use Cons.prems F Some in auto)
      obtain m where "opened used (QPut name) m ?u s'" "\<forall>k. res = Inr k \<longrightarrow> k = Suc n + m"
        using Cons.IH [OF opened_books [OF one], of "Suc n"] Cons.prems(3) p Inr g Some by (auto simp: Let_def)
      with opened_trans [OF one] show ?thesis by (intro exI [of _ "1 + m"]) auto
    qed
  qed
qed

lemma accounted_opened: "accounted used s \<Longrightarrow> opened used q n s s' \<Longrightarrow> accounted used s'"
proof -
  assume A: "accounted used s" and O: "opened used q n s s'"
  have "card (open_queries s q') \<le> card (open_queries s' q')" for q'
    using O by (cases "q' = q") (auto simp: opened_def)
  with A O show ?thesis by (fastforce simp: accounted_def opened_def intro: order_trans)
qed

lemma key_counts [simp]:
  "length (derive_storage_keys E name salt) = 32" "length (derive_heartbeat_keys E name salt) = 32"
  by (simp_all add: derive_storage_keys_def derive_heartbeat_keys_def M_REDUNDANCY_def)

lemma accounted_books: "accounted used s \<Longrightarrow> dom (query_id_to_name s) \<subseteq> used (swarm s)"
  "accounted used s \<Longrightarrow> finite (dom (query_id_to_name s))"
  by (simp_all add: accounted_def)

lemma start_get_accounted:
  assumes N: "query_ids_fresh N used" and A: "accounted used s" and "keys \<noteq> []"
  shows "accounted used (start_get N name keys r s)"
proof -
  obtain m s' where d: "dispatch_dht_queries N (QGet name) keys 0 s = (m, s')"
    by (cases "dispatch_dht_queries N (QGet name) keys 0 s")
  from dispatch_opened [OF N accounted_books [OF A] d]
  have m: "m = length keys" and O: "opened used (QGet name) (length keys) s s'" by simp_all
  from accounted_opened [OF A O] have A': "accounted used s'" .
  have "m \<le> card (open_queries s' (QGet name))" using O m by (simp add: opened_def)
  with A' assms(3) m show ?thesis by (auto simp: start_get_def d accounted_def open_queries_def)
qed

lemma join_get_accounted:
  "accounted used s \<Longrightarrow> pending_gets s name = Some p \<Longrightarrow> accounted used (join_get name p r s)"
  by (auto simp: join_get_def accounted_def open_queries_def)

lemma send_cdn_books:
  assumes "query_ids_fresh N used"
  shows "same_books used s (send_cdn_requests N name ps s)"
proof (induction ps arbitrary: s)
  case (Cons p ps)
  obtain i w where g: "sw_send_cdn N (swarm s) p name = (i, w)" by (cases "sw_send_cdn N (swarm s) p name")
  have "same_books used s (s\<lparr>swarm := w, pending_cdn_requests := (pending_cdn_requests s)(i \<mapsto> name)\<rparr>)"
    using fresh_calls(2) [OF assms, of "swarm s" p name] g by (simp add: same_books_def)
  from same_books_trans [OF this Cons] show ?case by (simp add: g)
qed simp

lemma resolve_accounted:
  assumes N: "query_ids_fresh N used" and A: "accounted used s"
  shows "accounted used (resolve_heartbeat E N name r s)" "accounted used (resolve_redundant E N name r s)"
proof -
  have send_ok: "accounted used (send r a s)" for a using A by (simp add: accounted_def open_queries_def)
  have ne: "derive_heartbeat_keys E name (NETWORK_SALT E) \<noteq> []" "derive_storage_keys E name (NETWORK_SALT E) \<noteq> []"
    using key_counts [of E name "NETWORK_SALT E"] by (metis list.size(3) zero_neq_numeral)+
  show "accounted used (resolve_heartbeat E N name r s)"
    using send_ok join_get_accounted [OF A] start_get_accounted [OF N A ne(1)]
    by (simp add: resolve_heartbeat_def Let_def split: option.split)
  have "accounted used (send_cdn_requests N name ps s)" for ps
    by (rule accounted_same [OF A send_cdn_books [OF N]])
  then show "accounted used (resolve_redundant E N name r s)"
    using send_ok join_get_accounted [OF A] start_get_accounted [OF N _ ne(2)]
    by (simp add: resolve_redundant_def split: option.split)
qed

lemma verify_quorum_accounted:
  assumes N: "query_ids_fresh N used" and A: "accounted used s"
  shows "accounted used (verify_quorum E N name payload r s)"
proof -
  have send_ok: "accounted used (send r a s)" for a using A by (simp add: accounted_def open_queries_def)
  let ?keys = "derive_storage_keys E name (NETWORK_SALT E)"
  obtain m s' where d: "dispatch_dht_queries N (QQuorum name) ?keys 0 s = (m, s')"
    by (cases "dispatch_dht_queries N (QQuorum name) ?keys 0 s")
  from dispatch_opened [OF N accounted_books [OF A] d]
  have m: "m = 32" and O: "opened used (QQuorum name) 32 s s'" by simp_all
  from accounted_opened [OF A O] have A': "accounted used s'" .
  have "m \<le> card (open_queries s' (QQuorum name))" using O m by (simp add: opened_def)
  with A' m have "accounted used (s'\<lparr>pending_quorums := (pending_quorums s')(name \<mapsto>
      \<lparr>pq_responder = r, pq_expected = m, pq_target = payload, pq_match_count = 0\<rparr>)\<rparr>)"
    by (auto simp: accounted_def open_queries_def)
  with send_ok show ?thesis by (simp add: verify_quorum_def d)
qed

lemma enqueue_accounted:
  assumes N: "query_ids_fresh N used" and A: "accounted used s"
    and e: "enqueue_dht_puts E G N now name keys payload r s = Some s'"
  shows "accounted used s'"
proof (cases "pending_puts s name")
  case (Some p)
  with e have "same_books used s s'" by (auto simp: enqueue_dht_puts_def same_books_def)
  with A show ?thesis by (rule accounted_same)
next
  case None
  with e obtain res t where l: "enqueue_loop E G N now name payload keys 0 s = Some (res, t)"
    by (auto simp: enqueue_dht_puts_def split: option.splits)
  obtain m where O: "opened used (QPut name) m s t" and res: "\<forall>k. res = Inr k \<longrightarrow> k = m"
    using enqueue_opened [OF N accounted_books [OF A] l] by auto
  from accounted_opened [OF A O] have A': "accounted used t" .
  have m: "m \<le> card (open_queries t (QPut name))" using O by (simp add: opened_def)
  show ?thesis
  proof (cases "res = Inr m \<and> 0 < m")
    case True
    with e None l have "s' = t\<lparr>pending_puts := (pending_puts t)(name \<mapsto>
        \<lparr>pu_responder = r, pu_expected = m, pu_success_count = 0\<rparr>)\<rparr>"
      by (simp add: enqueue_dht_puts_def)
    with A' m True show ?thesis by (simp add: accounted_def open_queries_def)
  next
    case False
    with e None l res have "same_books used t s'"
      by (cases res) (auto simp: enqueue_dht_puts_def same_books_def)
    with A' show ?thesis by (rule accounted_same)
  qed
qed

lemma fold_dial_used:
  assumes "query_ids_fresh N used"
  shows "used w \<subseteq> used (fold (\<lambda>x w. snd (sw_dial N w (f x))) xs w)"
  by (rule fold_used) (rule fresh_calls(5) [OF assms])

text \<open>The requests commands make of the network; the other commands leave the books alone.\<close>

fun request_of :: "command \<Rightarrow> (query_type \<times> responder) option" where
  "request_of (PublishRedundant name payload r) = Some (QPut name, r)"
| "request_of (PublishHeartbeat name payload r) = Some (QPut name, r)"
| "request_of (ResolveRedundant name r) = Some (QGet name, r)"
| "request_of (ResolveHeartbeat name r) = Some (QGet (''hb:'' @ name), r)"
| "request_of (VerifyQuorum name payload r) = Some (QQuorum name, r)"
| "request_of _ = None"

lemma handle_command_books:
  assumes N: "query_ids_fresh N used" and "request_of c = None" and h: "handle_command E G N now c s = Some s'"
  shows "same_books used s s'"
proof -
  note F = fresh_calls [OF N]
  show ?thesis
  proof (cases c)
    case (BootstrapCmd r)
    have "used (swarm s) \<subseteq> used (fold (\<lambda>peer w. snd (sw_dial N w (DialPeer peer))) (bootstrap_peers s)
            (sw_call N (swarm s) KadBootstrap))"
      using F(8) fold_dial_used [OF N] by (rule order_trans)
    with h BootstrapCmd show ?thesis by (auto simp: handle_command_def same_books_def)
  next
    case (SendProxyRequest peer req r)
    with h F(1) [of "swarm s" peer req] show ?thesis
      by (auto simp: handle_command_def same_books_def split_beta)
  next
    case (SubscribeGossip topic r)
    with h F(6) [of "swarm s" topic] show ?thesis by (auto simp: handle_command_def same_books_def split_beta)
  next
    case (BroadcastGossip topic payload r)
    with h F(7) [of "swarm s" topic payload] show ?thesis by (auto simp: handle_command_def same_books_def split_beta)
  next
    case (SendActionSyncRequest peer r)
    with h F(3) [of "swarm s" peer] show ?thesis by (auto simp: handle_command_def same_books_def split_beta)
  next
    case (SendProxyResponse ch res)
    with h F(8) [of "swarm s"] show ?thesis by (clarsimp simp: handle_command_def same_books_def)
  next
    case (ReportGossipValidation mid source acc)
    with h F(8) [of "swarm s"] show ?thesis by (clarsimp simp: handle_command_def same_books_def)
  qed (use assms(2) h in \<open>auto simp: handle_command_def same_books_def Let_def\<close>)
qed

lemma handle_command_accounted:
  assumes N: "query_ids_fresh N used" and A: "accounted used s" and h: "handle_command E G N now c s = Some s'"
  shows "accounted used s'"
proof (cases "request_of c")
  case None
  from handle_command_books [OF N None h] A show ?thesis by (auto intro: accounted_same)
next
  case (Some qr)
  with h enqueue_accounted [OF N A, where E = E] resolve_accounted [OF N A, where E = E]
    verify_quorum_accounted [OF N A, where E = E] show ?thesis
    by (cases c) (auto simp: handle_command_def)
qed

section \<open>Every step keeps the books\<close>

lemma fold_books:
  assumes "\<And>x s. same_books used s (f x s)"
  shows "same_books used s (fold f xs s)"
proof (induction xs arbitrary: s)
  case (Cons x xs)
  from same_books_trans [OF assms Cons] show ?case by simp
qed simp

lemma swarm_books:
  assumes "query_ids_fresh N used"
  shows "same_books used s (call N c s)" "same_books used s (disconnect N p s)"
    "same_books used s (s\<lparr>swarm := snd (sw_dial N (swarm s) d)\<rparr>)"
  using fresh_calls(4,5,8) [OF assms] by (simp_all add: same_books_def)

lemma handle_connection_books:
  assumes "query_ids_fresh N used"
  shows "same_books used s (handle_connection N now p a s)"
  using fresh_calls(4) [OF assms, of "swarm s" p]
  by (simp add: handle_connection_def same_books_def Let_def subset_insertI split: option.split)

lemma handle_identify_books:
  assumes "query_ids_fresh N used"
  shows "same_books used s (handle_identify E N now p addrs ps s)"
proof -
  let ?s = "s\<lparr>peer_registry := snd (add_verified_peer (reg_put N) (peer_registry s) p addrs)\<rparr>"
  have s: "same_books used s ?s" by (simp add: same_books_def)
  have d: "same_books used s (disconnect N p ?s)"
    by (rule same_books_trans [OF s swarm_books(2) [OF assms]])
  have c: "same_books used s (call N KadBootstrap (fold (\<lambda>addr self.
        if \<not> is_routable_multiaddr E addr (disable_challenge self) b then self
        else call N (AddAddress p addr) self) addrs ?s))" for b
    by (rule same_books_trans [OF same_books_trans [OF s fold_books] swarm_books(1) [OF assms]])
       (simp add: swarm_books(1) [OF assms])
  have k: "same_books used s (call N KadBootstrap ?s)"
    by (rule same_books_trans [OF s swarm_books(1) [OF assms]])
  show ?thesis unfolding handle_identify_def Let_def
    by (simp add: d [simplified] k [simplified] c [simplified])
qed

lemma handle_mdns_books:
  assumes "query_ids_fresh N used"
  shows "same_books used s (handle_mdns E N found s)"
  unfolding handle_mdns_def by (rule fold_books) (auto simp: swarm_books(1) [OF assms])

lemma handle_autonat_books:
  assumes "query_ids_fresh N used"
  shows "same_books used s (handle_autonat N new s)"
proof (cases new)
  case (NatPublic addr)
  let ?s = "(call N (AddExternalAddress addr) s)\<lparr>nat_status := ''Public''\<rparr>"
  have "same_books used s ?s" using fresh_calls(8) [OF assms] by (simp add: same_books_def)
  from same_books_trans [OF this fold_books [OF swarm_books(1) [OF assms]]] NatPublic show ?thesis
    by (simp add: handle_autonat_def Let_def)
qed (simp_all add: handle_autonat_def same_books_def)

lemma request_books:
  assumes "query_ids_fresh N used"
  shows "same_books used s (handle_proxy pev s)" "same_books used s (handle_cdn E N cev s)"
    "same_books used s (handle_action_sync fs N aev s)" "same_books used s (handle_gossip topic payload mid p s)"
  using fresh_calls(8) [OF assms, of "swarm s"]
  by (simp_all add: handle_proxy_def handle_cdn_def handle_cdn_response_def handle_action_sync_def handle_gossip_def
      same_books_def Let_def subset_insertI split: request_event.split option.split)

lemma handle_found_record_accounted:
  assumes A: "accounted used s" and h: "handle_found_record E G N now i r s = Some s'"
  shows "accounted used s'"
proof (cases "query_id_to_name s i")
  case None
  with h have "same_books used s s'"
    by (auto simp: handle_found_record_def same_books_def Let_def split: option.splits if_splits)
  with A show ?thesis by (rule accounted_same)
next
  case (Some q)
  show ?thesis
  proof (cases q)
    case (QGet name)
    with h [symmetric] Some A show ?thesis
      by (cases "pending_gets s name") (simp_all add: handle_found_record_def accounted_def open_queries_def)
  next
    case (QQuorum name)
    with h [symmetric] Some A show ?thesis
      by (cases "pending_quorums s name")
         (simp_all add: handle_found_record_def accounted_def open_queries_def split: if_splits)
  next
    case (QPut name)
    with h [symmetric] Some A show ?thesis by (simp add: handle_found_record_def)
  qed
qed

lemma handle_inbound_put_books:
  assumes "query_ids_fresh N used" and h: "handle_inbound_put E G N now p r s = Some s'"
  shows "same_books used s s'"
proof -
  have b: "same_books used s (strike_inbound E N now p (s\<lparr>el_store := st\<rparr>))" for st
    by (rule same_books_trans [OF _ strike_books(4) [OF assms(1)]]) (simp add: same_books_def)
  from h show ?thesis
    by (auto simp: handle_inbound_put_def Let_def b same_books_def [of used s "s\<lparr>el_store := st\<rparr>" for st]
        same_books_def [of used s "spawn t s" for t] split: option.splits sum.splits if_splits)
qed

text \<open>Only the results of queries touch the books.\<close>

fun query_result :: "swarm_event \<Rightarrow> bool" where
  "query_result (KadEvent (InboundPutRecord p r)) = False"
| "query_result (KadEvent OtherKad) = False"
| "query_result (KadEvent e) = True"
| "query_result ev = False"

lemma handle_swarm_event_books:
  assumes N: "query_ids_fresh N used" and "\<not> query_result ev" and h: "handle_swarm_event E G fs N now ev s = Some s'"
  shows "same_books used s s'"
proof (cases ev)
  case (KadEvent e)
  with assms(2) h handle_inbound_put_books [OF N, of E G now _ _ s s'] show ?thesis
    by (cases e) (auto simp: handle_swarm_event_def handle_kad_def)
next
  case (ConnectionClosed p)
  with h fresh_calls(8) [OF N] show ?thesis
    by (clarsimp simp: handle_swarm_event_def same_books_def Let_def)
next
  case (OutgoingConnectionErrorEvent p)
  with h swarm_books(1) [OF N] show ?thesis by (auto simp: handle_swarm_event_def split: option.splits)
qed (use h handle_connection_books [OF N] handle_identify_books [OF N, where E = E] handle_mdns_books [OF N, where E = E]
       handle_autonat_books [OF N] request_books(1,3,4) [OF N] request_books(2) [OF N, where E = E]
     in \<open>auto simp: handle_swarm_event_def\<close>)

lemma query_result_cases:
  assumes "query_result ev"
  obtains (found) i r where "ev = KadEvent (FoundRecord i r)"
    | (get) i where "ev = KadEvent (GetRecordFinished i)"
    | (put) i b where "ev = KadEvent (PutRecordResult i b)"
  using assms by (cases ev rule: query_result.cases) auto

lemma handle_swarm_event_accounted:
  assumes N: "query_ids_fresh N used" and A: "accounted used s" and ok: "event_ok s ev"
    and h: "handle_swarm_event E G fs N now ev s = Some s'"
  shows "accounted used s'"
proof (cases "query_result ev")
  case False
  from A handle_swarm_event_books [OF N False h] show ?thesis by (rule accounted_same)
next
  case True
  then show ?thesis
    using h ok handle_found_record_accounted [OF A, of E G N now] handle_get_finished_accounted [OF A, of _ E N]
      handle_put_result_accounted [OF A]
    by (cases rule: query_result_cases) (auto simp: handle_swarm_event_def handle_kad_def)
qed

lemma commit_verified_record_books:
  assumes N: "query_ids_fresh N used" and h: "commit_verified_record E G N now p r v s = Some s'"
  shows "same_books used s s'"
proof (cases v)
  case (Inr u)
  with h fresh_calls(8) [OF N, of "swarm s"] show ?thesis
    by (clarsimp simp: commit_verified_record_def same_books_def split: option.splits)
next
  case (Inl e)
  show ?thesis
  proof (cases "\<exists>k. e = MissingCommitment k")
    case True
    then obtain k where e: "e = MissingCommitment k" ..
    obtain i w where g: "sw_get_record N (swarm s) k = (i, w)" by (cases "sw_get_record N (swarm s) k")
    from h Inl e g fresh_get [OF N g] show ?thesis
      by (clarsimp simp: commit_verified_record_def same_books_def)
  next
    case False
    then have "s' = (if store_severity e = Severity_Error then strike_record N now p s else s)"
      using h Inl by (cases e) (auto simp: commit_verified_record_def)
    with strike_books(3) [OF N] show ?thesis by simp
  qed
qed

lemma commit_gossip_validation_books:
  assumes N: "query_ids_fresh N used"
  shows "same_books used s (commit_gossip_validation N now mid p v s)"
proof -
  have c: "same_books used s (call N c s)" for c by (rule swarm_books(1) [OF N])
  have b: "same_books used s (ban_gossip N now p (call N c s))" for c
    by (rule same_books_trans [OF c strike_books(2) [OF N]])
  have "same_books used s (disconnect N p (ban_gossip N now p (call N c s)))" for c
    by (rule same_books_trans [OF b swarm_books(2) [OF N]])
  with b c show ?thesis by (simp add: commit_gossip_validation_def Let_def)
qed

lemma commit_cdn_accounted:
  assumes A: "accounted used s" and h: "commit_cdn_resolution E G N now d raw s = Some s'"
  shows "accounted used s'"
proof (cases "pending_gets s' = pending_gets s")
  case True
  with h have "same_books used s s'"
    by (auto simp: commit_cdn_resolution_def same_books_def Let_def send_all_def
        split: option.splits sum.splits)
  with A show ?thesis by (rule accounted_same)
next
  case False
  with h have "pending_gets s' = (pending_gets s)(d := None)" "query_id_to_name s' = query_id_to_name s"
    "pending_quorums s' = pending_quorums s" "pending_puts s' = pending_puts s" "swarm s' = swarm s"
    by (auto simp: commit_cdn_resolution_def Let_def send_all_def split: option.splits sum.splits)
  with A show ?thesis by (simp add: accounted_def open_queries_def)
qed

lemma handle_loopback_books:
  assumes N: "query_ids_fresh N used" and "\<And>d raw p. cmd \<noteq> CdnResolutionVerified d raw p"
    and h: "handle_loopback E G N now cmd s = Some s'"
  shows "same_books used s s'"
proof (cases cmd)
  case (CommitVerifiedRecord p r v)
  with h show ?thesis by (intro commit_verified_record_books [OF N]) (simp add: handle_loopback_def)
next
  case (CommitGossipValidation mid p v)
  with h commit_gossip_validation_books [OF N] show ?thesis by (auto simp: handle_loopback_def)
next
  case (ConnectionPoWVerified p a b c addr)
  with h swarm_books(2) [OF N] show ?thesis by (auto simp: handle_loopback_def)
next
  case (DialResolvedSeed addr)
  with h swarm_books(3) [OF N] show ?thesis by (auto simp: handle_loopback_def)
qed (use assms(2) in simp)

lemma handle_loopback_accounted:
  assumes N: "query_ids_fresh N used" and A: "accounted used s" and h: "handle_loopback E G N now cmd s = Some s'"
  shows "accounted used s'"
proof (cases "\<exists>d raw p. cmd = CdnResolutionVerified d raw p")
  case True
  with h commit_cdn_accounted [OF A] show ?thesis by (auto simp: handle_loopback_def)
next
  case False
  then have "same_books used s s'" by (intro handle_loopback_books [OF N _ h]) blast
  with A show ?thesis by (rule accounted_same)
qed

lemma run_spawned_books: "same_books used s (run_spawned E G N t s)"
  by (simp add: run_spawned_simps same_books_def send_all_def Let_def split: task.split option.split)

lemma redial_books:
  assumes N: "query_ids_fresh N used"
  shows "same_books used s (redial_tick N s)"
proof -
  have "used (swarm s) \<subseteq> used (fold (\<lambda>addr w. snd (sw_dial N w (DialAddr addr))) xs (swarm s))" for xs
    by (rule fold_dial_used [OF N])
  moreover have "used (swarm s) \<subseteq> used (snd (retain_bootstrap N ps (swarm s)))" for ps
    by (rule retain_used [OF N])
  ultimately show ?thesis by (simp add: redial_tick_def same_books_def Let_def split_beta subset_insertI)
qed

lemma net_step_accounted:
  assumes N: "query_ids_fresh N used" and "net_step E fs N s s'" and A: "accounted used s"
  shows "accounted used s'"
  using assms(2)
proof cases
  case (step_command G now c)
  then show ?thesis using handle_command_accounted [OF N A] by blast
next
  case (step_event ev G now)
  then show ?thesis using handle_swarm_event_accounted [OF N A] by blast
next
  case (step_loopback cmd rest G now)
  have "accounted used (s\<lparr>loopback := rest\<rparr>)" using A by (rule accounted_same) (simp add: same_books_def)
  with step_loopback show ?thesis using handle_loopback_accounted [OF N] by blast
next
  case (step_task before t after G)
  have "accounted used (s\<lparr>tasks := before @ after\<rparr>)" using A by (simp add: accounted_def open_queries_def)
  then show ?thesis unfolding step_task(1) by (rule accounted_same) (rule run_spawned_books)
next
  case (step_store_task before t after)
  with A show ?thesis by (auto intro: accounted_same simp: same_books_def)
next
  case step_prune
  with A show ?thesis by (auto intro!: accounted_same [OF A] simp: same_books_def prune_tick_def Let_def)
next
  case step_redial
  with A redial_books [OF N] show ?thesis by (auto intro: accounted_same)
next
  case (step_kyn k)
  then show ?thesis by (auto intro!: accounted_same [OF A] simp: same_books_def kyn_changed_def)
qed

section \<open>Waiting requests\<close>

text \<open>
  The client whose \<open>oneshot\<close> sender is \<open>r\<close> waits for a request, its resolution has finished and is
  being decided, or it has its answer.
\<close>

fun waits :: "query_type \<Rightarrow> responder \<Rightarrow> ('s, 'm, 'c, 'd, 'w, 'b, 'n, 'r) event_loop \<Rightarrow> bool" where
  "waits (QGet name) r s = (\<exists>p. pending_gets s name = Some p \<and> r \<in> set (pg_responders p))"
| "waits (QQuorum name) r s = (\<exists>p. pending_quorums s name = Some p \<and> pq_responder p = r)"
| "waits (QPut name) r s = (\<exists>p. pending_puts s name = Some p \<and> pu_responder p = r)"

definition deciding :: "query_type \<Rightarrow> responder \<Rightarrow> ('s, 'm, 'c, 'd, 'w, 'b, 'n, 'r) event_loop \<Rightarrow> bool" where
  "deciding q r s \<longleftrightarrow> (\<exists>name p k v. q = QGet name \<and> ResolveTie name p k v \<in> set (tasks s) \<and> r \<in> set (pg_responders p))"

definition answered :: "responder \<Rightarrow> ('s, 'm, 'c, 'd, 'w, 'b, 'n, 'r) event_loop \<Rightarrow> bool" where
  "answered r s \<longleftrightarrow> r \<in> fst ` set (answers s)"

definition served :: "query_type \<Rightarrow> responder \<Rightarrow> ('s, 'm, 'c, 'd, 'w, 'b, 'n, 'r) event_loop \<Rightarrow> bool" where
  "served q r s \<longleftrightarrow> waits q r s \<or> deciding q r s \<or> answered r s"

lemma served_mono:
  assumes "served q r s" and "waits q r s \<Longrightarrow> served q r s'"
    and "set (answers s) \<subseteq> set (answers s')" and "set (tasks s) \<subseteq> set (tasks s')"
  shows "served q r s'"
proof -
  have "deciding q r s \<Longrightarrow> deciding q r s'" using assms(4) by (fastforce simp: deciding_def)
  moreover have "answered r s \<Longrightarrow> answered r s'" using assms(3) by (auto simp: answered_def)
  ultimately show ?thesis using assms(1,2) by (auto simp: served_def)
qed

lemma served_books: "served q r s \<Longrightarrow> same_books used s s' \<Longrightarrow> served q r s'"
  by (erule served_mono, cases q) (auto simp: served_def same_books_def)

lemma served_opened: "opened used q' n s s' \<Longrightarrow> served q r s' = served q r s"
  by (cases q) (auto simp: served_def deciding_def answered_def opened_def)

lemma served_send: "served q r s \<Longrightarrow> served q r (send r' a s)" "served q r (send r a s)"
  by (rule served_books [of q r s "\<lambda>_. {}"]) (auto simp: same_books_def served_def answered_def)

lemma served_get_entry:
  assumes "served q r s" and "case pending_gets s name of Some p0 \<Rightarrow> set (pg_responders p0) \<subseteq> set (pg_responders p) | None \<Rightarrow> True"
  shows "served q r (s\<lparr>pending_gets := (pending_gets s)(name \<mapsto> p)\<rparr>)"
  by (rule served_mono [OF assms(1)], cases q) (use assms(2) in \<open>auto simp: served_def\<close>)

lemma served_quorum_entry:
  assumes "served q r s" and "case pending_quorums s name of Some p0 \<Rightarrow> pq_responder p = pq_responder p0 | None \<Rightarrow> True"
  shows "served q r (s\<lparr>pending_quorums := (pending_quorums s)(name \<mapsto> p)\<rparr>)"
  by (rule served_mono [OF assms(1)], cases q) (use assms(2) in \<open>auto simp: served_def\<close>)

lemma served_put_entry:
  assumes "served q r s" and "case pending_puts s name of Some p0 \<Rightarrow> pu_responder p = pu_responder p0 | None \<Rightarrow> True"
  shows "served q r (s\<lparr>pending_puts := (pending_puts s)(name \<mapsto> p)\<rparr>)"
  by (rule served_mono [OF assms(1)], cases q) (use assms(2) in \<open>auto simp: served_def\<close>)

lemmas served_entry = served_get_entry served_quorum_entry served_put_entry

text \<open>A finished query leaves its requests served: the entry stays with its responders, or they are
  answered or decided.\<close>

lemma served_close: "served q r (s\<lparr>query_id_to_name := m\<rparr>) = served q r s"
  by (cases q) (auto simp: served_def deciding_def answered_def)

lemma handle_quorum_completion_served:
  assumes "served q r s"
  shows "served q r (handle_quorum_completion name s)"
proof (cases "pending_quorums s name")
  case (Some p)
  have "served q r (send (pq_responder p) a (s\<lparr>pending_quorums := (pending_quorums s)(name := None)\<rparr>))" for a
    by (rule served_mono [OF assms], cases q) (use Some in \<open>auto simp: served_def answered_def\<close>)
  with Some show ?thesis
    by (simp add: handle_quorum_completion_def served_quorum_entry [OF assms] Let_def)
qed (simp add: handle_quorum_completion_def assms)

lemma handle_get_completion_served:
  assumes "served q r s"
  shows "served q r (handle_get_completion E N name s)"
proof (cases "pending_gets s name")
  case (Some p)
  have "served q r (spawn (ResolveTie name (p\<lparr>pg_expected := e\<rparr>) k v) (s\<lparr>pending_gets := (pending_gets s)(name := None)\<rparr>))" for e k v
    by (rule served_mono [OF assms], cases q) (use Some in \<open>force simp: served_def deciding_def\<close>)+
  with Some show ?thesis
    by (simp add: handle_get_completion_def served_get_entry [OF assms] Let_def)
qed (simp add: handle_get_completion_def assms)

lemma handle_get_finished_served:
  assumes "served q r s"
  shows "served q r (handle_get_finished E N i s)"
proof -
  have "served q r (s\<lparr>query_id_to_name := (query_id_to_name s)(i := None)\<rparr>)" using assms by (simp add: served_close)
  moreover have "served q r (s\<lparr>pending_reveals := m\<rparr>)" for m
    using assms by (rule served_books [of _ _ _ "\<lambda>_. {}"]) (simp add: same_books_def)
  ultimately show ?thesis
    by (simp add: handle_get_finished_def handle_quorum_completion_served handle_get_completion_served Let_def
        split: option.split query_type.split)
qed

lemma handle_put_result_served:
  assumes "served q r s"
  shows "served q r (handle_put_result i ok s)"
proof -
  let ?s = "s\<lparr>query_id_to_name := (query_id_to_name s)(i := None)\<rparr>"
  have s: "served q r ?s" using assms by (simp add: served_close)
  have "served q r (send (pu_responder p) a (?s\<lparr>pending_puts := (pending_puts s)(name := None)\<rparr>))"
    if "pending_puts s name = Some p" for p a name
    by (rule served_mono [OF s], cases q) (use that in \<open>auto simp: served_def answered_def\<close>)
  with s show ?thesis
    by (simp add: handle_put_result_def served_put_entry [OF s, simplified] Let_def
        split: option.split query_type.split)
qed

lemma handle_found_record_served:
  assumes "served q r s" and "handle_found_record E G N now i rc s = Some s'"
  shows "served q r s'"
proof (cases "query_id_to_name s i")
  case None
  with assms(2) have "same_books (\<lambda>_. {}) s s'"
    by (auto simp: handle_found_record_def same_books_def Let_def split: option.splits if_splits)
  with assms(1) show ?thesis by (rule served_books)
next
  case (Some k)
  with assms show ?thesis
    by (auto simp: handle_found_record_def served_entry(1,2) split: query_type.splits option.splits if_splits)
qed

lemma start_get_served:
  assumes N: "query_ids_fresh N used" and A: "accounted used s" and "pending_gets s name = None"
  shows "served q r s \<Longrightarrow> served q r (start_get N name keys r' s)" "served (QGet name) r' (start_get N name keys r' s)"
proof -
  obtain m t where d: "dispatch_dht_queries N (QGet name) keys 0 s = (m, t)"
    by (cases "dispatch_dht_queries N (QGet name) keys 0 s")
  from dispatch_opened [OF N accounted_books [OF A] d] have O: "opened used (QGet name) (length keys) s t" by simp
  then have "pending_gets t name = None" using assms(3) by (simp add: opened_def)
  then show "served q r s \<Longrightarrow> served q r (start_get N name keys r' s)"
    using served_opened [OF O] by (simp add: start_get_def d served_get_entry)
  show "served (QGet name) r' (start_get N name keys r' s)" by (simp add: start_get_def d served_def)
qed

lemma join_get_served:
  assumes "pending_gets s name = Some p"
  shows "served q r s \<Longrightarrow> served q r (join_get name p r' s)" "served (QGet name) r' (join_get name p r' s)"
  using assms by (simp_all add: join_get_def served_get_entry subset_insertI) (simp add: served_def)

lemma resolve_heartbeat_served:
  assumes N: "query_ids_fresh N used" and A: "accounted used s"
  shows "served q r s \<Longrightarrow> served q r (resolve_heartbeat E N name r' s)"
    "served (QGet (''hb:'' @ name)) r' (resolve_heartbeat E N name r' s)"
  by (simp_all add: resolve_heartbeat_def start_get_served [OF N A] served_send join_get_served Let_def
      split: option.split)

lemma resolve_redundant_served:
  assumes N: "query_ids_fresh N used" and A: "accounted used s"
  shows "served q r s \<Longrightarrow> served q r (resolve_redundant E N name r' s)"
    "served (QGet name) r' (resolve_redundant E N name r' s)"
proof -
  have b: "same_books used s (send_cdn_requests N name ps s)" for ps by (rule send_cdn_books [OF N])
  have n: "pending_gets (send_cdn_requests N name ps s) = pending_gets s" for ps using b by (simp add: same_books_def)
  note S = start_get_served [OF N accounted_same [OF A b], unfolded n]
  show "served q r s \<Longrightarrow> served q r (resolve_redundant E N name r' s)"
    by (simp add: resolve_redundant_def S(1) served_books [OF _ b] served_send(1) join_get_served(1) split: option.split)
  show "served (QGet name) r' (resolve_redundant E N name r' s)"
    by (simp add: resolve_redundant_def S(2) served_send(2) join_get_served(2) split: option.split)
qed

lemma verify_quorum_served:
  assumes N: "query_ids_fresh N used" and A: "accounted used s"
  shows "served q r s \<Longrightarrow> served q r (verify_quorum E N name payload r' s)"
    "served (QQuorum name) r' (verify_quorum E N name payload r' s)"
proof -
  let ?keys = "derive_storage_keys E name (NETWORK_SALT E)"
  obtain m t where d: "dispatch_dht_queries N (QQuorum name) ?keys 0 s = (m, t)"
    by (cases "dispatch_dht_queries N (QQuorum name) ?keys 0 s")
  from dispatch_opened [OF N accounted_books [OF A] d] have O: "opened used (QQuorum name) 32 s t" by simp
  then have "pending_quorums t name = pending_quorums s name" by (simp add: opened_def)
  then show "served q r s \<Longrightarrow> served q r (verify_quorum E N name payload r' s)"
    by (auto simp: verify_quorum_def d served_quorum_entry served_opened [OF O] served_send(1))
  show "served (QQuorum name) r' (verify_quorum E N name payload r' s)"
    by (simp add: verify_quorum_def d served_send(2)) (simp add: served_def)
qed

lemma enqueue_served:
  assumes N: "query_ids_fresh N used" and A: "accounted used s"
    and e: "enqueue_dht_puts E G N now name keys payload r' s = Some s'"
  shows "served q r s \<Longrightarrow> served q r s'" "served (QPut name) r' s'"
proof -
  have "(served q r s \<longrightarrow> served q r s') \<and> served (QPut name) r' s'"
  proof (cases "pending_puts s name")
    case (Some p)
    with e show ?thesis by (auto simp: enqueue_dht_puts_def served_send)
  next
    case None
    with e obtain res t where l: "enqueue_loop E G N now name payload keys 0 s = Some (res, t)"
      by (auto simp: enqueue_dht_puts_def split: option.splits)
    obtain m where O: "opened used (QPut name) m s t" using enqueue_opened [OF N accounted_books [OF A] l] by auto
    have n: "pending_puts t name = None" using O None by (simp add: opened_def)
    show ?thesis
    proof (cases "\<exists>k. res = Inr k \<and> 0 < k")
      case True
      with e None l n served_opened [OF O, of q r] show ?thesis
        by (auto simp: enqueue_dht_puts_def served_put_entry served_def [of "QPut name"])
    next
      case False
      with e None l served_opened [OF O, of q r] show ?thesis
        by (cases res) (auto simp: enqueue_dht_puts_def served_send)
    qed
  qed
  then show "served q r s \<Longrightarrow> served q r s'" "served (QPut name) r' s'" by simp_all
qed

lemma handle_command_served:
  assumes N: "query_ids_fresh N used" and A: "accounted used s" and h: "handle_command E G N now c s = Some s'"
  shows "served q r s \<Longrightarrow> served q r s'" "request_of c = Some (q, r) \<Longrightarrow> served q r s'"
proof -
  show "served q r s'" if "served q r s"
  proof (cases "request_of c")
    case None
    from that handle_command_books [OF N None h] show ?thesis by (rule served_books)
  next
    case (Some qr)
    with h that enqueue_served(1) [OF N A, where E = E] show ?thesis
      by (cases c) (auto simp: handle_command_def resolve_heartbeat_served(1) [OF N A]
          resolve_redundant_served(1) [OF N A] verify_quorum_served(1) [OF N A])
  qed
  show "served q r s'" if "request_of c = Some (q, r)"
    using h that enqueue_served(2) [OF N A, where E = E] resolve_heartbeat_served(2) [OF N A, where E = E]
    by (cases c) (auto simp: handle_command_def resolve_redundant_served(2) [OF N A] verify_quorum_served(2) [OF N A])
qed

lemma handle_swarm_event_served:
  assumes N: "query_ids_fresh N used" and S: "served q r s" and h: "handle_swarm_event E G fs N now ev s = Some s'"
  shows "served q r s'"
proof (cases "query_result ev")
  case False
  from S handle_swarm_event_books [OF N False h] show ?thesis by (rule served_books)
next
  case True
  then show ?thesis
    using h handle_found_record_served [OF S, of E G N now] handle_get_finished_served [OF S] handle_put_result_served [OF S]
    by (cases rule: query_result_cases) (auto simp: handle_swarm_event_def handle_kad_def handle_get_finished_served [OF S])
qed

lemma answered_send_all: "answered r (s\<lparr>answers := xs @ map (\<lambda>r. (r, a)) rs\<rparr>) \<longleftrightarrow> r \<in> set rs \<or> r \<in> fst ` set xs"
  by (force simp: answered_def)

lemma commit_cdn_served:
  assumes S: "served q r s" and h: "commit_cdn_resolution E G N now d raw s = Some s'"
  shows "served q r s'"
proof (rule served_mono [OF S])
  show "set (answers s) \<subseteq> set (answers s')" "set (tasks s) \<subseteq> set (tasks s')"
    using h by (auto simp: commit_cdn_resolution_def send_all_def Let_def split: option.splits sum.splits)
  assume "waits q r s"
  then show "served q r s'"
    using h by (cases q) (auto simp: commit_cdn_resolution_def send_all_def served_def answered_send_all Let_def
        split: option.splits sum.splits if_splits)
qed

lemma handle_loopback_served:
  assumes N: "query_ids_fresh N used" and S: "served q r s" and h: "handle_loopback E G N now cmd s = Some s'"
  shows "served q r s'"
proof (cases "\<exists>d raw p. cmd = CdnResolutionVerified d raw p")
  case True
  with h commit_cdn_served [OF S] show ?thesis by (auto simp: handle_loopback_def)
next
  case False
  then have "same_books used s s'" by (intro handle_loopback_books [OF N _ h]) blast
  with S show ?thesis by (rule served_books)
qed

text \<open>Running a piece of spawned work answers the responders it decides.\<close>

lemma run_spawned_served:
  assumes "served q r s" and "tasks s = before @ t # after"
  shows "served q r (run_spawned E G N t (s\<lparr>tasks := before @ after\<rparr>))"
proof -
  let ?s = "s\<lparr>tasks := before @ after\<rparr>"
  have mono: "served q r (run_spawned E G N t ?s)" if "served q r ?s"
    using that run_spawned_books [of "\<lambda>_. {}"] by (rule served_books)
  show ?thesis
  proof (cases "deciding q r s \<and> \<not> deciding q r ?s")
    case True
    then obtain name p k v where "t = ResolveTie name p k v" "r \<in> set (pg_responders p)"
      using assms(2) by (fastforce simp: deciding_def)
    then show ?thesis by (simp add: run_spawned_simps send_all_def served_def answered_send_all)
  next
    case False
    with assms(1) have "served q r ?s" by (cases q) (auto simp: served_def answered_def)
    then show ?thesis by (rule mono)
  qed
qed

lemma deciding_step:
  assumes "deciding q r s"
  shows "\<exists>s'. net_step E fs N s s' \<and> answered r s'"
proof -
  obtain name p k v where t: "ResolveTie name p k v \<in> set (tasks s)" and r: "r \<in> set (pg_responders p)"
    using assms by (auto simp: deciding_def)
  from split_list [OF t] obtain before after where "tasks s = before @ ResolveTie name p k v # after" by blast
  then have "net_step E fs N s (run_spawned E None N (ResolveTie name p k v) (s\<lparr>tasks := before @ after\<rparr>))"
    by (rule step_task)
  with r show ?thesis
    by (intro exI conjI) (auto simp: run_spawned_simps send_all_def answered_send_all)
qed

lemma net_step_served:
  assumes N: "query_ids_fresh N used" and A: "accounted used s" and "net_step E fs N s s'" and S: "served q r s"
  shows "served q r s'"
  using assms(3)
proof cases
  case (step_command G now c)
  then show ?thesis using handle_command_served(1) [OF N A] S by blast
next
  case (step_event ev G now)
  then show ?thesis using handle_swarm_event_served [OF N S] by blast
next
  case (step_loopback cmd rest G now)
  have "served q r (s\<lparr>loopback := rest\<rparr>)"
    using S by (rule served_books [of _ _ _ "\<lambda>_. {}"]) (simp add: same_books_def)
  with step_loopback show ?thesis using handle_loopback_served [OF N] by blast
next
  case (step_task before t after G)
  then show ?thesis unfolding step_task(1) by (intro run_spawned_served [OF S])
next
  case step_redial
  then show ?thesis using served_books [OF S redial_books [OF N]] by simp
qed (auto intro!: served_books [OF S, of "\<lambda>_. {}"] simp: same_books_def prune_tick_def kyn_changed_def Let_def)

lemma run_served:
  assumes N: "query_ids_fresh N used" and "(net_step E fs N)\<^sup>*\<^sup>* s s'" and "accounted used s" and "served q r s"
  shows "served q r s'"
proof -
  from assms(2-4) have "accounted used s' \<and> served q r s'"
    by (induction rule: rtranclp_induct) (auto dest: net_step_accounted [OF N] net_step_served [OF N])
  then show ?thesis ..
qed

text \<open>A request none of whose queries is open no longer waits.\<close>

lemma no_open_no_wait:
  assumes "accounted used s" and "open_queries s q = {}"
  shows "\<not> waits q r s"
  using assms by (cases q) (fastforce simp: accounted_def)+

lemma reachable_accounted:
  assumes N: "query_ids_fresh N used" and "(net_step E fs N)\<^sup>*\<^sup>* s s'" and "accounted used s"
  shows "accounted used s'"
  using assms(2,3) by (induction rule: rtranclp_induct) (auto dest: net_step_accounted [OF N])

end
