(* ===== verification/Verified_Commits.thy ===== *)
theory Verified_Commits
  imports Reactor
begin

text \<open>
  Where the verdicts of the reactor come from: the spawned work carries the record it has decoded,
  and a message that commits a record comes from work that has verified it.
\<close>

section \<open>Verdicts\<close>

text \<open>A reveal that has passed verification, against some state of the network and of the database.\<close>

definition passed :: "'x event_env_scheme \<Rightarrow> ('s, 'm, 'c, 'd, 'w, 'b, 'n, 'r, 'y) net_ops_scheme \<Rightarrow> reveal \<Rightarrow> bool" where
  "passed E N reveal \<longleftrightarrow> (\<exists>G st k. verify_reveal E G N st reveal k = Ok ())"

definition task_ok :: "'x event_env_scheme \<Rightarrow> task \<Rightarrow> bool" where
  "task_ok E t =
     (case t of
        VerifyRecord _ r reveal _ \<Rightarrow> value_reveal E (kr_value r) = Some reveal
      | VerifyCdn _ raw _ record _ \<Rightarrow> slice_name_envelope E raw = Some record
      | _ \<Rightarrow> True)"

definition commit_ok ::
  "'x event_env_scheme \<Rightarrow> ('s, 'm, 'c, 'd, 'w, 'b, 'n, 'r, 'y) net_ops_scheme \<Rightarrow> loopback_command \<Rightarrow> bool" where
  "commit_ok E N cmd =
     (case cmd of
        CommitVerifiedRecord _ r (Inr _) \<Rightarrow> (\<exists>reveal. value_reveal E (kr_value r) = Some reveal \<and> passed E N reveal)
      | CdnResolutionVerified _ raw _ \<Rightarrow>
          (\<exists>record. slice_name_envelope E raw = Some record \<and> (dev_mode E \<or> passed E N (standard_reveal record)))
      | _ \<Rightarrow> True)"

definition vetted ::
  "'x event_env_scheme \<Rightarrow> ('s, 'm, 'c, 'd, 'w, 'b, 'n, 'r, 'y) net_ops_scheme
     \<Rightarrow> ('s, 'm, 'c, 'd, 'w, 'b, 'n, 'r) event_loop \<Rightarrow> bool" where
  "vetted E N s \<longleftrightarrow> list_all (task_ok E) (tasks s) \<and> list_all (commit_ok E N) (loopback s)"

section \<open>Handlers that queue nothing\<close>

definition quiet ::
  "('s, 'm, 'c, 'd, 'w, 'b, 'n, 'r) event_loop \<Rightarrow> ('s, 'm, 'c, 'd, 'w, 'b, 'n, 'r) event_loop \<Rightarrow> bool" where
  "quiet s s' \<longleftrightarrow> tasks s' = tasks s \<and> loopback s' = loopback s"

lemma vetted_quiet: "vetted E N s \<Longrightarrow> quiet s s' \<Longrightarrow> vetted E N s'"
  by (simp add: vetted_def quiet_def)

lemma quiet_trans: "quiet s t \<Longrightarrow> quiet t u \<Longrightarrow> quiet s u"
  by (simp add: quiet_def)

lemma strike_quiet:
  "quiet s (snd (record_strike N now p s))" "quiet s (ban_gossip N now p s)"
  "quiet s (strike_record N now p s)" "quiet s (strike_inbound E N now p s)"
  by (auto simp: quiet_def record_strike_def ban_gossip_def strike_record_def strike_inbound_def split_beta Let_def)

lemma dispatch_quiet: "quiet s (snd (dispatch_dht_queries N q keys n s))"
  by (induction N q keys n s rule: dispatch_dht_queries.induct) (auto simp: quiet_def split_beta)

lemma send_cdn_quiet: "quiet s (send_cdn_requests N name ps s)"
  by (induction N name ps s rule: send_cdn_requests.induct) (auto simp: quiet_def split_beta)

lemma enqueue_loop_quiet:
  "enqueue_loop E G N now name payload keys n s = Some (res, s') \<Longrightarrow> quiet s s'"
proof (induction keys arbitrary: n s)
  case Nil
  then show ?case by (simp add: quiet_def)
next
  case (Cons key keys)
  then show ?case
    by (fastforce simp: quiet_def Let_def split_beta split: option.splits sum.splits)
qed

lemma handle_command_quiet:
  assumes "handle_command E G N now c s = Some s'"
  shows "quiet s s'"
proof -
  have e: "quiet s s'" if "enqueue_dht_puts E G N now name keys payload r s = Some s'" for name keys payload r
    using that enqueue_loop_quiet [of E G N now name payload keys 0 s]
    by (auto simp: enqueue_dht_puts_def quiet_def split: option.splits sum.splits if_splits)
  show ?thesis
    using assms e
    by (cases c) (auto simp: handle_command_def quiet_def resolve_heartbeat_def resolve_redundant_def
        verify_quorum_def start_get_def join_get_def split_beta Let_def
        dispatch_quiet [unfolded quiet_def] send_cdn_quiet [unfolded quiet_def] split: option.splits if_splits)
qed

section \<open>Handlers that queue work\<close>

lemma vetted_spawn [simp]: "vetted E N (spawn t s) \<longleftrightarrow> task_ok E t \<and> vetted E N s"
  by (auto simp: vetted_def)

lemma vetted_cong: "tasks s' = tasks s \<Longrightarrow> loopback s' = loopback s \<Longrightarrow> vetted E N s' = vetted E N s"
  by (simp add: vetted_def)

lemma handle_kad_vetted:
  assumes "vetted E N s" and "handle_kad E G N now ev s = Some s'"
  shows "vetted E N s'"
proof (cases ev)
  case (FoundRecord i r)
  with assms show ?thesis
    by (auto simp: handle_kad_def handle_found_record_def vetted_def task_ok_def Let_def
        split: option.splits query_type.splits if_splits)
next
  case (GetRecordFinished i)
  with assms show ?thesis
    by (auto simp: handle_kad_def handle_get_finished_def handle_quorum_completion_def handle_get_completion_def
        vetted_def task_ok_def Let_def split: option.splits query_type.splits)
next
  case (PutRecordResult i b)
  with assms show ?thesis
    by (auto simp: handle_kad_def handle_put_result_def vetted_def Let_def
        split: option.splits query_type.splits)
next
  case (InboundPutRecord p r)
  have "quiet s (strike_inbound E N now p (s\<lparr>el_store := st\<rparr>))" for st
    by (rule quiet_trans [OF _ strike_quiet(4)]) (simp add: quiet_def)
  with InboundPutRecord assms vetted_quiet [OF assms(1)] show ?thesis
    by (auto simp: handle_kad_def handle_inbound_put_def inbound_reveal_def task_ok_def Let_def
        vetted_cong [of "s\<lparr>el_store := st\<rparr>" s for st] split: option.splits sum.splits if_splits)
qed (use assms in \<open>simp add: handle_kad_def\<close>)

lemma fold_queues:
  "(\<And>x s. tasks (f x s) = tasks s) \<Longrightarrow> tasks (fold f xs s) = tasks s"
  "(\<And>x s. loopback (f x s) = loopback s) \<Longrightarrow> loopback (fold f xs s) = loopback s"
  by (induction xs arbitrary: s) auto

lemma handle_identify_quiet: "quiet s (handle_identify E N now p addrs ps s)"
  by (simp add: handle_identify_def quiet_def fold_queues Let_def)

lemma handle_mdns_quiet: "quiet s (handle_mdns E N found s)"
  by (simp add: handle_mdns_def quiet_def fold_queues split_beta)

lemma handle_autonat_quiet: "quiet s (handle_autonat N new s)"
  by (simp add: handle_autonat_def quiet_def fold_queues Let_def split: nat_state.split)

lemma handle_swarm_event_vetted:
  assumes V: "vetted E N s" and h: "handle_swarm_event E G fs N now ev s = Some s'"
  shows "vetted E N s'"
proof (cases ev)
  case (ConnectionEstablished p a)
  with h V show ?thesis
    by (auto simp: handle_swarm_event_def handle_connection_def vetted_def task_ok_def Let_def split: option.splits)
next
  case (KadEvent e)
  with h handle_kad_vetted [OF V] show ?thesis by (simp add: handle_swarm_event_def)
next
  case (ProxyEvent e)
  with h V show ?thesis
    by (auto simp: handle_swarm_event_def handle_proxy_def vetted_def task_ok_def split: request_event.splits option.splits)
next
  case (CdnEvent e)
  with h V show ?thesis
    by (auto simp: handle_swarm_event_def handle_cdn_def handle_cdn_response_def vetted_def task_ok_def Let_def
        split: request_event.splits option.splits)
next
  case (ActionSyncEvent e)
  with h V show ?thesis
    by (auto simp: handle_swarm_event_def handle_action_sync_def vetted_def split: request_event.splits option.splits)
next
  case (GossipMessage topic payload mid p)
  with h V show ?thesis
    by (auto simp: handle_swarm_event_def handle_gossip_def vetted_def task_ok_def commit_ok_def Let_def)
next
  case (OutgoingConnectionErrorEvent p)
  with h V show ?thesis by (auto simp: handle_swarm_event_def vetted_def split: option.splits)
next
  case (ConnectionClosed p)
  with h V show ?thesis by (auto simp: handle_swarm_event_def vetted_def Let_def)
qed (use h V vetted_quiet [OF V handle_identify_quiet] vetted_quiet [OF V handle_mdns_quiet]
       vetted_quiet [OF V handle_autonat_quiet] in \<open>auto simp: handle_swarm_event_def\<close>)

lemma handle_loopback_quiet:
  assumes "handle_loopback E G N now cmd s = Some s'"
  shows "quiet s s'"
proof (cases cmd)
  case (CommitGossipValidation mid p v)
  have "quiet s (ban_gossip N now p (call N c s))" for c
    by (rule quiet_trans [OF _ strike_quiet(2)]) (simp add: quiet_def)
  with CommitGossipValidation assms show ?thesis
    by (auto simp: handle_loopback_def commit_gossip_validation_def quiet_def Let_def)
next
  case (CommitVerifiedRecord p r v)
  with assms strike_quiet(3) [of s N now p] show ?thesis
    by (auto simp: handle_loopback_def commit_verified_record_def quiet_def split_beta
        split: sum.splits option.splits kinetic_store_error.splits if_splits)
qed (use assms in \<open>auto simp: handle_loopback_def commit_cdn_resolution_def send_all_def quiet_def Let_def
       split: option.splits sum.splits\<close>)

lemma run_spawned_vetted:
  assumes "vetted E N s" and "task_ok E t"
  shows "vetted E N (run_spawned E G N t s)"
proof (cases t)
  case (VerifyRecord p r reveal k)
  with assms show ?thesis
    by (auto simp: run_spawned_simps vetted_def task_ok_def commit_ok_def passed_def split: sum.split)
next
  case (VerifyCdn d raw p rc k)
  with assms show ?thesis
    by (auto simp: run_spawned_simps vetted_def task_ok_def commit_ok_def passed_def is_ok_unit)
qed (use assms in \<open>auto simp: run_spawned_simps vetted_def commit_ok_def send_all_def list_all_iff Let_def
       split: option.splits\<close>)

lemma net_step_vetted:
  assumes "net_step E fs N s s'" and V: "vetted E N s"
  shows "vetted E N s'"
  using assms(1)
proof cases
  case (step_command G now c)
  then show ?thesis using vetted_quiet [OF V handle_command_quiet] by blast
next
  case (step_event ev G now)
  then show ?thesis using handle_swarm_event_vetted [OF V] by blast
next
  case (step_loopback cmd rest G now)
  then have "vetted E N (s\<lparr>loopback := rest\<rparr>)" using V by (simp add: vetted_def)
  then show ?thesis using handle_loopback_quiet [OF step_loopback(2)] by (rule vetted_quiet)
next
  case (step_task before t after G)
  then have "vetted E N (s\<lparr>tasks := before @ after\<rparr>)" "task_ok E t" using V by (simp_all add: vetted_def)
  then show ?thesis unfolding step_task(1) by (rule run_spawned_vetted)
next
  case (step_store_task before t after)
  then show ?thesis using V by (simp add: vetted_def)
next
  case step_prune
  then show ?thesis using V by (simp add: vetted_def prune_tick_def task_ok_def Let_def)
next
  case step_redial
  then show ?thesis using V by (simp add: vetted_def redial_tick_def task_ok_def Let_def split_beta)
next
  case (step_kyn k)
  then show ?thesis using V by (simp add: vetted_def kyn_changed_def)
qed

lemma reachable_vetted:
  assumes "(net_step E fs N)\<^sup>*\<^sup>* s s'" and "vetted E N s"
  shows "vetted E N s'"
  using assms by (induction rule: rtranclp_induct) (auto dest: net_step_vetted)

end
