(* ===== verification/Event_Loop_Properties.thy ===== *)
theory Event_Loop_Properties
  imports Verified_Commits Store_Properties
begin

text \<open>
  What the reactor promises: its books balance in every state it reaches, every request to the
  network is answered once its queries have finished, three strikes ban a peer, and only records
  that have been verified are committed.
\<close>

section \<open>A concrete node for the witnesses\<close>

type_synonym sample_net =
  "(bytes wasm_storage, bytes \<Rightarrow> kad_record option, (string \<times> name_envelope) list, (string \<times> instant list) list,
    nat, peer_id \<rightharpoonup> u32 \<times> instant, peer_id \<rightharpoonup> u64, unit) net_ops"

text \<open>A swarm with \<open>n\<close> peers that only counts the queries it has started.\<close>

definition sample_net :: "nat \<Rightarrow> sample_net" where
  "sample_net n = backends.extend sample_backends (net_ops.fields
     (\<lambda>w k. (w, w + 1)) (\<lambda>w st r. (Some w, w + 1, st)) (\<lambda>w p x. (0, w)) (\<lambda>w p x. (0, w)) (\<lambda>w p. (0, w))
     (\<lambda>w p. (True, w)) (\<lambda>w d. (True, w)) (\<lambda>w t. (Ok (), w)) (\<lambda>w t x. (Ok (), w)) (\<lambda>w c. w)
     (\<lambda>w. []) (\<lambda>w. n) (\<lambda>w. []) (\<lambda>w. []) (\<lambda>w. [])
     (\<lambda>b p. (b p, b)) (\<lambda>b p v. b(p \<mapsto> v)) (\<lambda>n p. n p) (\<lambda>n p e. n(p \<mapsto> e)) (\<lambda>n p. n(p := None)) (\<lambda>n. [])
     (\<lambda>r p. (None, r)) (\<lambda>r p as. r))"

lemmas sample_net_simps = sample_net_def backends.defs net_ops.defs sample_backends_def storage_ops.defs

definition sample_node_config :: network_config where
  "sample_node_config = \<lparr>nc_bootstrap_nodes = [], nc_seed_domain = [], nc_initial_kyn = 1000, nc_disable_challenge = False\<rparr>"

definition sample_loop where
  "sample_loop n = event_loop_new sample_node (sample_net n) (\<lambda>_. None) (\<lambda>_. None) sample_node_config 0 sample_krs
     False False () Map.empty Map.empty"

lemma load_banned_none: "load_banned E N (\<lambda>_. None) now acc = acc"
proof -
  have "load_ban E N (\<lambda>_. None) now kv acc = acc" for kv acc
    by (auto simp: load_ban_def split_beta Let_def split: option.split)
  then have "fold (load_ban E N (\<lambda>_. None) now) kvs acc = acc" for kvs acc by (induction kvs) simp_all
  then show ?thesis by (simp add: load_banned_def split: sum.split)
qed

lemma sample_ids_fresh: "query_ids_fresh (sample_net n) (\<lambda>w. {..<w})"
  by (auto simp: query_ids_fresh_def sample_net_simps)

section \<open>Requests\<close>

lemma event_loop_new_books:
  assumes "s = event_loop_new E N lp pp cfg w st ptx gtx reg cnt ban"
  shows "query_id_to_name s = Map.empty" "pending_gets s = Map.empty" "pending_quorums s = Map.empty"
    "pending_puts s = Map.empty" "tasks s = []" "loopback s = []" "answers s = []"
  by (simp_all add: assms event_loop_new_def split_beta)

lemma new_accounted: "accounted used (startup E N (event_loop_new E N lp pp cfg w st ptx gtx reg cnt ban))"
  by (simp add: accounted_def startup_def event_loop_new_books [OF refl] Let_def)

text \<open>C9. The books of the reactor balance in every state it reaches from its construction, whatever
  the order of commands, network events, timers and spawned work: a pending resolution, quorum
  check or publication expects at least one more result, and no more results than it has queries
  open, so the counter \<open>expected_responses\<close> never underflows and no request waits for a result that
  cannot come. This rests on libp2p giving every query an identifier of its own.\<close>

theorem query_accounting:
  assumes "query_ids_fresh N used"
    and "(net_step E fs N)\<^sup>*\<^sup>* (startup E N (event_loop_new E N lp pp cfg w st ptx gtx reg cnt ban)) s"
  shows "(\<forall>name p. pending_gets s name = Some p \<longrightarrow>
            0 < pg_expected p \<and> pg_expected p \<le> card (open_queries s (QGet name)))
       \<and> (\<forall>name p. pending_quorums s name = Some p \<longrightarrow>
            0 < pq_expected p \<and> pq_expected p \<le> card (open_queries s (QQuorum name)))
       \<and> (\<forall>name p. pending_puts s name = Some p \<longrightarrow>
            0 < pu_expected p \<and> pu_expected p \<le> card (open_queries s (QPut name)))"
  using reachable_accounted [OF assms new_accounted] by (simp add: accounted_def)

theorem query_accounting_witness:
  "\<exists>s p. handle_command sample_node None (sample_net 1) 0 (VerifyQuorum ''a.kin'' [] 7)
            (startup sample_node (sample_net 1) (sample_loop 1)) = Some s
     \<and> pending_quorums s ''a.kin'' = Some p \<and> 0 < pq_expected p
     \<and> pq_expected p \<le> card (open_queries s (QQuorum ''a.kin''))"
proof -
  let ?s0 = "startup sample_node (sample_net 1) (sample_loop 1)"
  obtain s where h: "handle_command sample_node None (sample_net 1) 0 (VerifyQuorum ''a.kin'' [] 7) ?s0 = Some s"
    by (simp add: handle_command_def)
  then have "(net_step sample_node (\<lambda>_. []) (sample_net 1))\<^sup>*\<^sup>* ?s0 s" by (intro r_into_rtranclp step_command)
  note A = query_accounting [OF sample_ids_fresh this [unfolded sample_loop_def]]
  have "pending_quorums ?s0 ''a.kin'' = None" "sw_num_peers (sample_net 1) (swarm ?s0) = 1"
    by (simp_all add: startup_def sample_loop_def event_loop_new_books [OF refl] sample_net_simps Let_def)
  with h obtain p where "pending_quorums s ''a.kin'' = Some p"
    by (auto simp: handle_command_def verify_quorum_def split_beta)
  with A h show ?thesis by blast
qed



section \<open>Strikes\<close>

text \<open>What the \<open>lru\<close> crate documents: the entry just put is there.\<close>

definition cache_laws :: "('s, 'm, 'c, 'd, 'w, 'b, 'n, 'r, 'y) net_ops_scheme \<Rightarrow> bool" where
  "cache_laws N \<longleftrightarrow> (\<forall>b p v. fst (bv_get N (bv_put N b p v) p) = Some v) \<and> (\<forall>n p e. bn_peek N (bn_put N n p e) p = Some e)"

lemma strike_count:
  assumes "cache_laws N" and "fst (bv_get N (bad_vdf_counts s) p) = e"
  shows "record_strike N t p s = (c, s') \<Longrightarrow>
    c = (case e of Some (n, t0) \<Rightarrow> if MINUTE_NANOS < t - t0 then 1 else n + 1 | None \<Rightarrow> 1)
    \<and> fst (bv_get N (bad_vdf_counts s') p) = Some (c, t) \<and> banned_peers s' = banned_peers s \<and> el_kyn s' = el_kyn s"
  using assms by (auto simp: record_strike_def cache_laws_def split_beta Let_def split: option.splits)

text \<open>One strike of \<open>ban_gossip\<close> on a peer with the given counter.\<close>

lemma ban_gossip_step:
  assumes N: "cache_laws N" and "fst (bv_get N (bad_vdf_counts s) p) = e"
    and c: "c = (case e of Some (n, t0) \<Rightarrow> if MINUTE_NANOS < t - t0 then 1 else n + 1 | None \<Rightarrow> 1)"
  shows "fst (bv_get N (bad_vdf_counts (ban_gossip N t p s)) p) = Some (c, t)"
    and "el_kyn (ban_gossip N t p s) = el_kyn s"
    and "bn_peek N (banned_peers (ban_gossip N t p s)) p =
      (if 3 \<le> c then Some (el_kyn s + BAN_KYNS) else bn_peek N (banned_peers s) p)"
proof -
  obtain c' s' where r: "record_strike N t p s = (c', s')" by (cases "record_strike N t p s")
  from strike_count [OF N assms(2) r] c N show
    "fst (bv_get N (bad_vdf_counts (ban_gossip N t p s)) p) = Some (c, t)"
    "el_kyn (ban_gossip N t p s) = el_kyn s"
    "bn_peek N (banned_peers (ban_gossip N t p s)) p =
      (if 3 \<le> c then Some (el_kyn s + BAN_KYNS) else bn_peek N (banned_peers s) p)"
    by (auto simp: ban_gossip_def r cache_laws_def)
qed

text \<open>A connection of a peer whose ban has not expired is closed, and nothing is checked for it.\<close>

lemma banned_connection:
  assumes "bn_peek N (banned_peers s) p = Some e" and "el_kyn s < e"
  shows "swarm (handle_connection N t p addr s) = snd (sw_disconnect N (swarm s) p)"
    and "tasks (handle_connection N t p addr s) = tasks s"
  using assms by (simp_all add: handle_connection_def Let_def)

text \<open>Three strikes ban a peer, and nothing less: a peer without a record that sends three invalid
  gossip messages is banned exactly when the second comes within a minute of the first and the
  third within a minute of the second; the ban lasts 28800 kyns, during which every connection of
  the peer is closed without a proof-of-work check.\<close>

lemma three_strikes_exact:
  assumes "cache_laws N" and "fst (bv_get N (bad_vdf_counts s) p) = None" and "\<not> is_banned N p s"
    and "s' = ban_gossip N t3 p (ban_gossip N t2 p (ban_gossip N t1 p s))"
  shows "(is_banned N p s' \<longleftrightarrow> t2 - t1 \<le> MINUTE_NANOS \<and> t3 - t2 \<le> MINUTE_NANOS)
    \<and> (is_banned N p s' \<and> k < el_kyn s + BAN_KYNS \<longrightarrow>
         swarm (handle_connection N t p addr (s'\<lparr>el_kyn := k\<rparr>)) = snd (sw_disconnect N (swarm s') p)
         \<and> tasks (handle_connection N t p addr (s'\<lparr>el_kyn := k\<rparr>)) = tasks s')"
proof -
  define c2 :: u32 where "c2 = (if MINUTE_NANOS < t2 - t1 then 1 else 2)"
  define c3 :: u32 where "c3 = (if MINUTE_NANOS < t3 - t2 then 1 else c2 + 1)"
  have u: "\<not> (3 :: u32) \<le> 1" "\<not> (3 :: u32) \<le> 2" "(1 :: u32) + 1 = 2" "(2 :: u32) + 1 = 3"
    by (simp_all add: word_le_nat_alt)
  let ?s1 = "ban_gossip N t1 p s" and ?s2 = "ban_gossip N t2 p (ban_gossip N t1 p s)"
  have c: "c2 = (case Some (1, t1) of Some (n, t0) \<Rightarrow> if MINUTE_NANOS < t2 - t0 then 1 else n + 1 | None \<Rightarrow> 1)"
    "c3 = (case Some (c2, t2) of Some (n, t0) \<Rightarrow> if MINUTE_NANOS < t3 - t0 then 1 else n + 1 | None \<Rightarrow> 1)"
    using u by (simp_all add: c2_def c3_def)
  note S1 = ban_gossip_step [OF assms(1,2), of 1 t1, simplified]
  note S2 = ban_gossip_step [OF assms(1) S1(1) c(1)]
  note S3 = ban_gossip_step [OF assms(1) S2(1) c(2)]
  have n: "bn_peek N (banned_peers s) p = None" using assms(3) by (simp add: is_banned_def)
  have "\<not> 3 \<le> c2" using u by (simp add: c2_def)
  with n u S1 S2 S3 have b: "bn_peek N (banned_peers s') p = (if 3 \<le> c3 then Some (el_kyn s + BAN_KYNS) else None)"
    by (simp add: assms(4))
  moreover have "3 \<le> c3 \<longleftrightarrow> t2 - t1 \<le> MINUTE_NANOS \<and> t3 - t2 \<le> MINUTE_NANOS"
    using u by (auto simp: c2_def c3_def)
  ultimately have "is_banned N p s' \<longleftrightarrow> t2 - t1 \<le> MINUTE_NANOS \<and> t3 - t2 \<le> MINUTE_NANOS"
    by (simp add: is_banned_def)
  moreover have "bn_peek N (banned_peers (s'\<lparr>el_kyn := k\<rparr>)) p = Some (el_kyn s + BAN_KYNS)" if "is_banned N p s'"
    using that b by (auto simp: is_banned_def split: if_splits)
  ultimately show ?thesis using banned_connection [of N "s'\<lparr>el_kyn := k\<rparr>" p "el_kyn s + BAN_KYNS" t addr] by simp
qed

lemma sample_cache_laws: "cache_laws (sample_net n)"
  by (simp add: cache_laws_def sample_net_simps)

section \<open>Commits\<close>

text \<open>C8. Only verified records are committed: in every state the reactor reaches, a message that
  commits a record received from a peer carries a record whose reveal has passed the verification
  of the store, and a message that commits a record another node has served carries one that has
  passed it too, unless the node is built for development.\<close>

theorem only_verified_committed:
  assumes "(net_step E fs N)\<^sup>*\<^sup>* (startup E N (event_loop_new E N lp pp cfg w st ptx gtx reg cnt ban)) s"
  shows "(CommitVerifiedRecord p r (Ok ()) \<in> set (loopback s) \<longrightarrow>
            (\<exists>reveal G db k. value_reveal E (kr_value r) = Some reveal \<and> verify_reveal E G N db reveal k = Ok ()))
       \<and> (CdnResolutionVerified d raw p \<in> set (loopback s) \<and> \<not> dev_mode E \<longrightarrow>
            (\<exists>rec G db k. slice_name_envelope E raw = Some rec
               \<and> verify_reveal E G N db (standard_reveal rec) k = Ok ()))"
proof -
  have "vetted E N (startup E N (event_loop_new E N lp pp cfg w st ptx gtx reg cnt ban))"
    by (simp add: vetted_def startup_def event_loop_new_books [OF refl] Let_def)
  from reachable_vetted [OF assms this] show ?thesis
    by (fastforce simp: vetted_def list_all_iff commit_ok_def passed_def)
qed

lemma sample_node_accepts: "accepts_sample sample_node"
proof -
  have n: "names_ok sample_node" by (rule sample_names_ok) (simp_all add: sample_node_simps sample_store_simps)
  have "label_iters sample_node ''satoshi'' = 3582297450"
    by (rule word_eq_unatI) (simp add: label_iters_def Let_def unat_calc sample_node_simps sample_store_simps)
  with n show ?thesis
    by (simp add: accepts_sample_def signed_by_def verify_beacon_signature_def sample_node_simps sample_store_simps)
qed

definition verified_krs :: sample_krs where
  "verified_krs = sample_krs\<lparr>current_kyn := 1000, storage :=
     \<lparr>db = [(KRS_COMMIT_PREFIX @ cm_hash (reveal_challenge sample_node sample_reveal (replicate 96 0)), u64_to_be_bytes 900)],
       opfs_handle = None\<rparr>\<rparr>"

definition verified_loop where
  "verified_loop = startup sample_node (sample_net 1) (event_loop_new sample_node (sample_net 1) (\<lambda>_. None) (\<lambda>_. None)
     sample_node_config 0 verified_krs False False () Map.empty Map.empty)"

lemma verified_loop_fields:
  "loopback_tx verified_loop" "tasks verified_loop = []" "loopback verified_loop = []" "el_store verified_loop = verified_krs"
  by (simp_all add: verified_loop_def startup_def event_loop_new_def load_banned_none split_beta Let_def)

definition verified_record :: kad_record where
  "verified_record = \<lparr>kr_key = [], kr_value = [0]\<rparr>"

text \<open>A peer puts a record, its verification is spawned, and its verdict comes back.\<close>

lemma verified_loop_run:
  "\<exists>s. (net_step sample_node (\<lambda>_. []) (sample_net 1))\<^sup>*\<^sup>* verified_loop s
     \<and> loopback s = [CommitVerifiedRecord [7] verified_record (Ok ())]"
proof -
  let ?N = "sample_net 1" and ?t = "VerifyRecord [7] verified_record sample_reveal 1000"
  let ?s1 = "spawn ?t verified_loop"
  let ?s2 = "run_spawned sample_node None ?N ?t (?s1\<lparr>tasks := [] @ []\<rparr>)"
  note f = verified_loop_fields
  have k: "current_kyn verified_krs = 1000" by (simp add: verified_krs_def)
  have i: "inbound_reveal sample_node verified_record = Some sample_reveal" by (simp add: inbound_reveal_def sample_node_simps)
  have 1: "net_step sample_node (\<lambda>_. []) ?N verified_loop ?s1"
    by (rule step_event [where ev = "KadEvent (InboundPutRecord [7] verified_record)"])
       (simp_all add: event_ok_def handle_swarm_event_def handle_kad_def handle_inbound_put_def i f k)
  have 2: "net_step sample_node (\<lambda>_. []) ?N ?s1 ?s2" by (rule step_task) (simp add: f)
  have "verify_reveal sample_node None ?N (storage verified_krs) sample_reveal 1000 = Ok ()"
    by (rule sample_accepted [OF sample_node_accepts])
       (simp add: verified_krs_def get_u64_from_db_def storage_get_def sample_net_simps wasm_ops_def)
  then have "loopback ?s2 = [CommitVerifiedRecord [7] verified_record (Ok ())]" by (simp add: run_spawned_simps f)
  moreover have "(net_step sample_node (\<lambda>_. []) ?N)\<^sup>*\<^sup>* verified_loop ?s2"
    using 2 by (rule converse_rtranclp_into_rtranclp [where r = "net_step sample_node (\<lambda>_. []) ?N", OF 1 r_into_rtranclp])
  ultimately show ?thesis by blast
qed

theorem only_verified_committed_witness:
  "\<exists>reveal G db k. value_reveal sample_node (kr_value verified_record) = Some reveal
     \<and> verify_reveal sample_node G (sample_net 1) db reveal k = Ok ()"
proof -
  obtain s where "(net_step sample_node (\<lambda>_. []) (sample_net 1))\<^sup>*\<^sup>* verified_loop s"
    "loopback s = [CommitVerifiedRecord [7] verified_record (Ok ())]"
    using verified_loop_run by blast
  with only_verified_committed [of sample_node "\<lambda>_. []" "sample_net 1" "\<lambda>_. None" "\<lambda>_. None" sample_node_config 0
      verified_krs False False "()" Map.empty Map.empty s "[7]" verified_record]
  show ?thesis by (simp add: verified_loop_def)
qed

section \<open>Gossip\<close>

text \<open>The permit is back when the handler returns, so a message is never ignored for want of one:
  the semaphore bounds nothing.\<close>

lemma gossip_never_throttled:
  assumes "0 < gossip_permits s"
  shows "tasks (handle_gossip topic payload mid p s) = tasks s @ [ValidateGossip topic payload mid p]"
    and "gossip_permits (handle_gossip topic payload mid p s) = gossip_permits s"
  using assms by (simp_all add: handle_gossip_def)

text \<open>A telemetry message, which nodes broadcast on the network topic, is rejected by every peer.\<close>

lemma telemetry_rejected:
  "validate_gossip E G (NETWORK_SALT_HEX E) (opcode_byte OpTelemetry # payload) = Some False"
  by (simp add: validate_gossip_def)

lemma opcode_roundtrip: "opcode_from_u8 v = Some k \<longleftrightarrow> v = opcode_byte k"
  by (cases k) (auto simp: opcode_from_u8_def)

text \<open>A record another node serves for a name answers the resolution of that name, whatever name the
  record is for.\<close>

lemma cdn_answers_any_name:
  assumes "slice_name_envelope E raw = Some rec" and "handle_put_record E G N now (el_store s) rec True = Some (Ok (), st)"
    and "pending_gets s domain = Some p"
  shows "\<exists>s'. commit_cdn_resolution E G N now domain raw s = Some s'
    \<and> answers s' = answers s @ map (\<lambda>r. (r, ResolveAnswer (Ok raw))) (pg_responders p)"
  using assms by (simp add: commit_cdn_resolution_def send_all_def)

end
