(* ===== verification/Nrs_Server.thy ===== *)
theory Nrs_Server
  imports Zone Records
begin

text \<open>
  \<open>kinetic-nrs\<close>: the local DNS server. \<open>handler.rs\<close> splits the queries between the name system, a
  bridge and the upstream resolver, \<open>records.rs\<close> answers a query for a name from the zone of its
  record, \<open>upstream.rs\<close> forwards, \<open>cache.rs\<close> sets the life time of cached records.

  The HTTP API of the daemon, the DNS resolvers and the \<open>moka\<close> cache are parameters. A DNS name is
  the result of \<open>Name::from_str\<close>; the chunks of an HTTP response are those the client has
  received before the end of the body or the first error.
\<close>

section \<open>Queries and answers\<close>

type_synonym dns_name = bytes

datatype record_type = Type_A | Type_AAAA | Type_TXT | Type_ANY | OtherType

datatype rdata = RA ipv4 | RAAAA ipv6 | RCNAME dns_name | RTXT string

record dns_record =
  rr_name :: dns_name
  rr_ttl :: u32
  rr_data :: rdata

datatype response_code = NoError | FormErr | ServFail | NXDomain

record dns_response =
  rcode :: response_code
  answer_records :: "dns_record list"

abbreviation error_msg :: "response_code \<Rightarrow> dns_response" where
  "error_msg c \<equiv> \<lparr>rcode = c, answer_records = []\<rparr>"

record http_response =
  http_status :: nat
  http_status_text :: string
  http_chunks :: "bytes list"
  http_complete :: bool

text \<open>\<open>get(url).send()\<close>: an error carries its text.\<close>

type_synonym http_client = "string \<Rightarrow> (string, http_response) result"

record nrs_env = zone_env +
  nrs_slice_envelope :: "bytes \<Rightarrow> name_envelope option"
  dns_name_from_str :: "string \<Rightarrow> dns_name option"
  parse_ip_addr :: "string \<Rightarrow> ip_addr option"
  kid_public_keys :: "bytes \<Rightarrow> string option list option option"
  root_name :: dns_name

text \<open>\<open>kid_public_keys\<close> is \<open>kid_json["kid_document"]["controller_keys"]\<close> of a body: \<open>None\<close> if the body is not
  JSON, \<open>Some None\<close> if the value is not an array.\<close>

section \<open>The cache (cache.rs)\<close>

definition ttl_seconds :: "bytes option \<Rightarrow> nat" where
  "ttl_seconds value = (if value \<noteq> None then 300 else 30)"

definition expire_after_create :: "string \<Rightarrow> bytes option \<Rightarrow> nat \<Rightarrow> nat option" where
  "expire_after_create key value t_created = Some (ttl_seconds value)"

definition expire_after_read ::
  "string \<Rightarrow> bytes option \<Rightarrow> nat \<Rightarrow> nat option \<Rightarrow> nat \<Rightarrow> nat option" where
  "expire_after_read key value t_read duration_until_expiry t_modified = duration_until_expiry"

definition expire_after_update :: "string \<Rightarrow> bytes option \<Rightarrow> nat \<Rightarrow> nat option \<Rightarrow> nat option" where
  "expire_after_update key value t_updated duration_until_expiry = Some (ttl_seconds value)"

definition cache_weight :: "bytes option \<Rightarrow> u32" where
  "cache_weight value = (case value of Some v \<Rightarrow> of_nat (length v) | None \<Rightarrow> 1)"

record 'c nrs_cache =
  nc_get :: "'c \<Rightarrow> string \<Rightarrow> bytes option option"
  nc_insert :: "'c \<Rightarrow> string \<Rightarrow> bytes option \<Rightarrow> 'c"
  nc_invalidate :: "'c \<Rightarrow> string \<Rightarrow> 'c"

text \<open>\<open>try_get_with\<close>: an error is not cached.\<close>

definition try_get_with ::
  "('c, 'y) nrs_cache_scheme \<Rightarrow> 'c \<Rightarrow> string \<Rightarrow> ('e, bytes option) result \<Rightarrow> ('e, bytes option) result \<times> 'c" where
  "try_get_with C c key init =
     (case nc_get C c key of
        Some v \<Rightarrow> (Ok v, c)
      | None \<Rightarrow> (case init of Inr v \<Rightarrow> (Ok v, nc_insert C c key v) | Inl e \<Rightarrow> (Err e, c)))"

section \<open>Fetching a record (records.rs)\<close>

text \<open>The loop over the chunks of the body; \<open>None\<close> when the limit of 100 KB is exceeded.\<close>

fun read_chunks :: "bytes \<Rightarrow> bytes list \<Rightarrow> bytes option" where
  "read_chunks payload [] = Some payload"
| "read_chunks payload (chunk # chunks) =
     (if 100 * 1024 < length payload + length chunk then None else read_chunks (payload @ chunk) chunks)"

definition fetch_record ::
  "'x nrs_env_scheme \<Rightarrow> (string, http_response) result \<Rightarrow> bool \<Rightarrow> (nrs_error, bytes option) result" where
  "fetch_record E response is_reserved =
     (case response of
        Inr resp \<Rightarrow>
          if 200 \<le> http_status resp \<and> http_status resp < 300 then
            (case read_chunks [] (http_chunks resp) of
               None \<Rightarrow> Ok None
             | Some payload \<Rightarrow>
                 if \<not> is_reserved then
                   (case nrs_slice_envelope E payload of
                      Some name_record \<Rightarrow>
                        if is_err (envelope_verify_signature E name_record (NETWORK_SALT E))
                        then Err NrsInvalidSignature else Ok (Some payload)
                    | None \<Rightarrow> Err ParseError)
                 else Ok (Some payload))
          else if http_status resp = 404 then Ok None
          else Err (UpstreamResolveError (''API error: '' @ http_status_text resp))
      | Inl e \<Rightarrow> Err (DnsRequestFailed (''Request failed: '' @ e)))"

section \<open>Answering from a zone (records.rs)\<close>

definition blocked_cname :: "'x crypto_scheme \<Rightarrow> string \<Rightarrow> bool" where
  "blocked_cname E target =
     (let target_lower = to_lowercase (unicode_lowercase E) target
      in list_ex (\<lambda>b. target_lower = b \<or> ends_with target_lower (CHR ''.'' # b)) RESERVED_NAMES)"

definition cname_rdata :: "'x nrs_env_scheme \<Rightarrow> string \<Rightarrow> rdata option" where
  "cname_rdata E target =
     (if blocked_cname E target then None
      else if (case parse_ip_addr E target of Some ip \<Rightarrow> is_err (validate_ssrf_safe ip) | None \<Rightarrow> False) then None
      else map_option RCNAME (dns_name_from_str E target))"

definition wants_txt :: "record_type \<Rightarrow> bool" where
  "wants_txt q_type = (q_type = Type_TXT \<or> q_type = Type_ANY)"

definition entry_rdata :: "'x nrs_env_scheme \<Rightarrow> record_type \<Rightarrow> bool \<Rightarrow> nrs_entry \<Rightarrow> rdata option" where
  "entry_rdata E q_type has_cname r =
     (if has_cname \<and> \<not> is_cname r then None
      else case r of
        A ip \<Rightarrow> if q_type = Type_A \<and> \<not> is_err (validate_ssrf_safe (V4 ip)) then Some (RA ip) else None
      | AAAA ip \<Rightarrow> if q_type = Type_AAAA \<and> \<not> is_err (validate_ssrf_safe (V6 ip)) then Some (RAAAA ip) else None
      | CNAME target \<Rightarrow> cname_rdata E target
      | TXT s \<Rightarrow> if wants_txt q_type then Some (RTXT s) else None
      | PeerId pid \<Rightarrow> if wants_txt q_type then Some (RTXT (''peerid='' @ pid)) else None
      | KID kid \<Rightarrow> if wants_txt q_type then Some (RTXT (''kid='' @ kid)) else None
      | IPFS cid \<Rightarrow> if wants_txt q_type then Some (RTXT (''ipfs='' @ cid)) else None
      | Other \<Rightarrow> None)"

definition zone_answers :: "'x nrs_env_scheme \<Rightarrow> dns_name \<Rightarrow> record_type \<Rightarrow> nrs_entry list \<Rightarrow> dns_record list" where
  "zone_answers E name q_type records =
     (let has_cname = list_ex is_cname records
      in map (\<lambda>d. \<lparr>rr_name = name, rr_ttl = 60, rr_data = d\<rparr>)
           (List.map_filter (entry_rdata E q_type has_cname) records))"

definition subname :: "string \<Rightarrow> string \<Rightarrow> string" where
  "subname full_name apex_name =
     (if full_name = apex_name then ''@''
      else let sub = (case strip_suffix full_name (CHR ''.'' # apex_name) of Some s \<Rightarrow> s | None \<Rightarrow> full_name);
               sub = (if ends_with sub ''.'' then butlast sub else sub)
           in if sub = [] then ''@'' else sub)"

text \<open>The check of one identity the zone names: \<open>False\<close> is the answer \<open>ServFail\<close>. A success response
  whose body is not JSON passes.\<close>

definition kid_authorised :: "'x nrs_env_scheme \<Rightarrow> http_client \<Rightarrow> string \<Rightarrow> bytes \<Rightarrow> string \<Rightarrow> bool" where
  "kid_authorised E http api_url pubkey did =
     (case http (api_url @ ''/api/v1/micro/kid/resolve/'' @ did) of
        Inl _ \<Rightarrow> False
      | Inr resp \<Rightarrow>
          if \<not> (200 \<le> http_status resp \<and> http_status resp < 300) then False
          else if \<not> http_complete resp then True
          else case kid_public_keys E (concat (http_chunks resp)) of
            None \<Rightarrow> True
          | Some None \<Rightarrow> False
          | Some (Some keys) \<Rightarrow> list_ex (\<lambda>k. k = Some (b64_encode E pubkey)) keys)"

definition kids_authorised ::
  "'x nrs_env_scheme \<Rightarrow> http_client \<Rightarrow> string \<Rightarrow> bytes \<Rightarrow> nrs_zone \<Rightarrow> bool" where
  "kids_authorised E http api_url pubkey zone =
     (case map_of zone ''@'' of
        None \<Rightarrow> True
      | Some records \<Rightarrow>
          list_all (\<lambda>r. case r of KID did \<Rightarrow> kid_authorised E http api_url pubkey did | _ \<Rightarrow> True) records)"

definition answer_payload ::
  "'x nrs_env_scheme \<Rightarrow> http_client \<Rightarrow> string \<Rightarrow> string \<Rightarrow> record_type \<Rightarrow> string \<Rightarrow> string
     \<Rightarrow> bytes \<Rightarrow> dns_response" where
  "answer_payload E http api_url query_name q_type full_name apex_name payload =
     (case nrs_slice_envelope E payload of
        None \<Rightarrow> error_msg NXDomain
      | Some name_record \<Rightarrow>
          (case zone_parse_payload E (env_embedded_nrs name_record) of
             Inl _ \<Rightarrow> error_msg NXDomain
           | Inr zone \<Rightarrow>
               if \<not> kids_authorised E http api_url (env_pubkey name_record) zone then error_msg ServFail
               else
                 case (case map_of zone (subname full_name apex_name) of
                         Some rs \<Rightarrow> Some rs | None \<Rightarrow> map_of zone ''*'') of
                   None \<Rightarrow> error_msg NXDomain
                 | Some records \<Rightarrow>
                     (case dns_name_from_str E query_name of
                        None \<Rightarrow> error_msg FormErr
                      | Some name \<Rightarrow>
                          (let response_records = zone_answers E name q_type records
                           in if response_records \<noteq> []
                              then \<lparr>rcode = NoError, answer_records = response_records\<rparr>
                              else error_msg NXDomain))))"

text \<open>The answer for \<open>localhost\<close>; its code is the one of the header of the request.\<close>

definition localhost_answer :: "'x nrs_env_scheme \<Rightarrow> response_code \<Rightarrow> string \<Rightarrow> record_type \<Rightarrow> dns_response" where
  "localhost_answer E header query_name q_type =
     (let name = (case dns_name_from_str E query_name of Some n \<Rightarrow> n | None \<Rightarrow> root_name E)
      in \<lparr>rcode = header, answer_records =
           (if q_type = Type_A then [\<lparr>rr_name = name, rr_ttl = 3600, rr_data = RA (Ipv4 127 0 0 1)\<rparr>]
            else if q_type = Type_AAAA then [\<lparr>rr_name = name, rr_ttl = 3600, rr_data = RAAAA (Ipv6 0 0 0 0 0 0 0 1)\<rparr>]
            else [])\<rparr>)"

definition resolve_kinetic ::
  "'x nrs_env_scheme \<Rightarrow> ('c, 'y) nrs_cache_scheme \<Rightarrow> http_client \<Rightarrow> string \<Rightarrow> response_code
     \<Rightarrow> string \<Rightarrow> record_type \<Rightarrow> string \<Rightarrow> string \<Rightarrow> 'c \<Rightarrow> dns_response \<times> 'c" where
  "resolve_kinetic E C http api_url header query_name q_type full_name apex_name cache =
     (let parts = split_on CHR ''.'' apex_name;
          is_reserved = (parts \<noteq> [] \<and> hd parts \<in> set RESERVED_NAMES)
      in if is_reserved \<and> hd parts = ''localhost'' then (localhost_answer E header query_name q_type, cache)
         else
           let (res, cache) = try_get_with C cache apex_name
                 (fetch_record E (http (api_url @ ''/api/v1/micro/nrs/resolve/'' @ apex_name)) is_reserved)
           in case res of
                Inr (Some payload) \<Rightarrow> (answer_payload E http api_url query_name q_type full_name apex_name payload, cache)
              | Inr None \<Rightarrow> (error_msg NXDomain, cache)
              | Inl _ \<Rightarrow> (error_msg ServFail, cache))"

section \<open>Dispatch (handler.rs, upstream.rs, lib.rs)\<close>

datatype lookup_error = NoRecordsFound | OtherLookupError

type_synonym dns_resolver = "dns_name \<Rightarrow> record_type \<Rightarrow> (lookup_error, dns_record list) result"

definition resolve_upstream ::
  "'x nrs_env_scheme \<Rightarrow> dns_resolver \<Rightarrow> response_code \<Rightarrow> string \<Rightarrow> record_type \<Rightarrow> dns_response" where
  "resolve_upstream E resolver header query_name q_type =
     (case dns_name_from_str E query_name of
        None \<Rightarrow> error_msg FormErr
      | Some name \<Rightarrow>
          (case resolver name q_type of
             Inr records \<Rightarrow> \<lparr>rcode = header, answer_records = records\<rparr>
           | Inl NoRecordsFound \<Rightarrow> error_msg NXDomain
           | Inl OtherLookupError \<Rightarrow> error_msg ServFail))"

record 'c nrs_handler =
  nh_api_url :: string
  nh_resolver :: dns_resolver
  nh_cache :: 'c
  atlas_nsps :: "string list"
  atlas_resolver :: dns_resolver

definition clean_name :: "'x crypto_scheme \<Rightarrow> string \<Rightarrow> string" where
  "clean_name E query_name =
     (let n = to_lowercase (unicode_lowercase E) query_name in if ends_with n ''.'' then butlast n else n)"

definition handle_request ::
  "'x nrs_env_scheme \<Rightarrow> ('c, 'y) nrs_cache_scheme \<Rightarrow> http_client \<Rightarrow> response_code
     \<Rightarrow> string \<Rightarrow> record_type \<Rightarrow> ('c, 'z) nrs_handler_scheme \<Rightarrow> dns_response \<times> ('c, 'z) nrs_handler_scheme" where
  "handle_request E C http header query_name q_type self =
     (let clean = clean_name E query_name in
      if ends_with clean (NSP_SUFFIX E) then
        let full_name = normalize_name E clean;
            apex_name = extract_apex_name E full_name;
            (res, cache) = resolve_kinetic E C http (nh_api_url self) header query_name q_type full_name apex_name (nh_cache self)
        in (res, self\<lparr>nh_cache := cache\<rparr>)
      else if list_ex (\<lambda>nsp. clean = nsp \<or> ends_with clean (CHR ''.'' # nsp)) (atlas_nsps self)
      then (resolve_upstream E (atlas_resolver self) header query_name q_type, self)
      else (resolve_upstream E (nh_resolver self) header query_name q_type, self))"

definition nrs_invalidate ::
  "'x crypto_scheme \<Rightarrow> ('c, 'y) nrs_cache_scheme \<Rightarrow> string \<Rightarrow> ('c, 'z) nrs_handler_scheme \<Rightarrow> ('c, 'z) nrs_handler_scheme" where
  "nrs_invalidate E C apex_name self =
     self\<lparr>nh_cache := nc_invalidate C (nh_cache self) (extract_apex_name E apex_name)\<rparr>"


section \<open>What an answer rests on\<close>

text \<open>The documented behaviour of the cache: it returns only what was inserted and not invalidated
  since; it may drop an entry at any time.\<close>

definition moka_laws :: "('c, 'y) nrs_cache_scheme \<Rightarrow> bool" where
  "moka_laws C \<longleftrightarrow>
     (\<forall>c k v k' x. nc_get C (nc_insert C c k v) k' = Some x \<longrightarrow> k' = k \<and> x = v \<or> nc_get C c k' = Some x)
     \<and> (\<forall>c k k' x. nc_get C (nc_invalidate C c k) k' = Some x \<longrightarrow> k' \<noteq> k \<and> nc_get C c k' = Some x)"

definition reserved_apex :: "string \<Rightarrow> bool" where
  "reserved_apex apex \<longleftrightarrow> hd (split_on CHR ''.'' apex) \<in> set RESERVED_NAMES"

definition authentic :: "'x nrs_env_scheme \<Rightarrow> string \<Rightarrow> bytes \<Rightarrow> bool" where
  "authentic E apex payload \<longleftrightarrow> reserved_apex apex
     \<or> (\<exists>rec. nrs_slice_envelope E payload = Some rec \<and> envelope_verify_signature E rec (NETWORK_SALT E) = Ok ())"

definition cache_authentic :: "'x nrs_env_scheme \<Rightarrow> ('c, 'y) nrs_cache_scheme \<Rightarrow> 'c \<Rightarrow> bool" where
  "cache_authentic E C c \<longleftrightarrow> (\<forall>apex payload. nc_get C c apex = Some (Some payload) \<longrightarrow> authentic E apex payload)"

lemma not_err_unit: "\<not> is_err (r :: ('e, unit) result) \<longleftrightarrow> r = Ok ()"
  by (cases r) simp_all

lemma split_apex_ne [simp]: "split_on c s \<noteq> []"
  by (rule split_on_not_Nil)

lemma fetch_record_authentic:
  "\<forall>payload. fetch_record E resp (reserved_apex apex) = Ok (Some payload) \<longrightarrow> authentic E apex payload"
  by (auto simp: fetch_record_def authentic_def not_err_unit split: sum.splits if_splits option.splits)

lemma try_get_authentic:
  assumes "moka_laws C" and "cache_authentic E C c"
    and "\<forall>payload. init = Ok (Some payload) \<longrightarrow> authentic E apex payload"
    and "try_get_with C c apex init = (res, c')"
  shows "cache_authentic E C c'" and "res = Ok (Some payload) \<Longrightarrow> authentic E apex payload"
proof -
  have ins: "cache_authentic E C (nc_insert C c apex v)" if "\<And>payload. v = Some payload \<Longrightarrow> authentic E apex payload" for v
    unfolding cache_authentic_def
  proof (intro allI impI)
    fix k payload
    assume "nc_get C (nc_insert C c apex v) k = Some (Some payload)"
    then have "k = apex \<and> Some payload = v \<or> nc_get C c k = Some (Some payload)"
      using assms(1) unfolding moka_laws_def by blast
    then show "authentic E k payload" using assms(2) that by (auto simp: cache_authentic_def)
  qed
  with assms(2-4) show "cache_authentic E C c'"
    by (auto simp: try_get_with_def split: option.splits sum.splits)
  show "res = Ok (Some payload) \<Longrightarrow> authentic E apex payload"
    using assms(2-4) by (auto simp: try_get_with_def cache_authentic_def split: option.splits sum.splits)
qed

text \<open>What a DNS record in an answer may be.\<close>

definition safe_rdata :: "'x nrs_env_scheme \<Rightarrow> rdata \<Rightarrow> bool" where
  "safe_rdata E d =
     (case d of
        RA ip \<Rightarrow> validate_ssrf_safe (V4 ip) = Ok ()
      | RAAAA ip \<Rightarrow> validate_ssrf_safe (V6 ip) = Ok ()
      | RCNAME n \<Rightarrow> (\<exists>t. dns_name_from_str E t = Some n \<and> \<not> blocked_cname E t
            \<and> (\<forall>ip. parse_ip_addr E t = Some ip \<longrightarrow> validate_ssrf_safe ip = Ok ()))
      | RTXT _ \<Rightarrow> True)"

lemma cname_rdata_safe: "cname_rdata E target = Some d \<Longrightarrow> safe_rdata E d"
  unfolding cname_rdata_def safe_rdata_def
  by (auto simp: not_err_unit split: if_splits option.splits) (rule exI [of _ target], simp)+

lemma entry_rdata_safe: "entry_rdata E q b r = Some d \<Longrightarrow> safe_rdata E d"
  by (cases r) (auto simp: entry_rdata_def cname_rdata_safe not_err_unit safe_rdata_def split: if_splits
      dest: cname_rdata_safe)

lemma entry_rdata_cname: "entry_rdata E q True r = Some d \<Longrightarrow> \<exists>n. d = RCNAME n"
  by (cases r) (auto simp: entry_rdata_def cname_rdata_def is_cname_def split: if_splits)

lemma entry_rdata_alias: "entry_rdata E q b r = Some (RCNAME n) \<Longrightarrow> is_cname r"
  by (cases r) (auto simp: entry_rdata_def is_cname_def split: if_splits)

lemma set_map_filter_Some: "y \<in> set (List.map_filter f xs) \<longleftrightarrow> (\<exists>x\<in>set xs. f x = Some y)"
  by (induction xs) (auto simp: List.map_filter_simps split: option.split)

lemma zone_answers_iff:
  "r \<in> set (zone_answers E name q_type records) \<longleftrightarrow>
     rr_name r = name \<and> rr_ttl r = 60 \<and> dns_record.more r = ()
     \<and> (\<exists>e\<in>set records. entry_rdata E q_type (list_ex is_cname records) e = Some (rr_data r))"
  by (cases r) (auto simp: zone_answers_def Let_def set_map_filter_Some image_iff)

text \<open>The records an answer for a name is taken from: the labels \<open>subname\<close> and \<open>*\<close> of the zone.\<close>

definition served_entries :: "nrs_zone \<Rightarrow> string \<Rightarrow> nrs_entry list option" where
  "served_entries zone sub = (case map_of zone sub of Some rs \<Rightarrow> Some rs | None \<Rightarrow> map_of zone ''*'')"

lemma answer_payload_elim:
  assumes "r \<in> set (answer_records (answer_payload E http url q t full apex payload))"
  obtains rec zone entries name where "nrs_slice_envelope E payload = Some rec"
    "zone_parse_payload E (env_embedded_nrs rec) = Ok zone"
    "kids_authorised E http url (env_pubkey rec) zone"
    "served_entries zone (subname full apex) = Some entries"
    "dns_name_from_str E q = Some name" "r \<in> set (zone_answers E name t entries)"
  using assms
  by (auto simp: answer_payload_def served_entries_def Let_def split: option.splits sum.splits if_splits)

text \<open>Every state the server can be in: requests, with any answers of the HTTP API, and
  invalidations, in any order from an empty cache.\<close>

inductive nrs_reachable :: "'x nrs_env_scheme \<Rightarrow> ('c, 'y) nrs_cache_scheme \<Rightarrow> ('c, 'z) nrs_handler_scheme \<Rightarrow> bool"
  for E C where
  start: "(\<And>k. nc_get C (nh_cache self) k = None) \<Longrightarrow> nrs_reachable E C self"
| request: "nrs_reachable E C self \<Longrightarrow> nrs_reachable E C (snd (handle_request E C http header q t self))"
| invalidate: "nrs_reachable E C self \<Longrightarrow> nrs_reachable E C (nrs_invalidate E C apex self)"

text \<open>A resolution that is not for \<open>localhost\<close> answers from the cached or fetched record.\<close>

lemma resolve_kinetic_cases:
  assumes "resolve_kinetic E C http url header q t full apex cache = (resp, cache')"
  shows "hd (split_on CHR ''.'' apex) = ''localhost'' \<and> cache' = cache
    \<or> (\<exists>r res. try_get_with C cache apex (fetch_record E r (reserved_apex apex)) = (res, cache')
        \<and> (answer_records resp \<noteq> [] \<longrightarrow>
             (\<exists>payload. res = Ok (Some payload) \<and> resp = answer_payload E http url q t full apex payload)))"
proof -
  let ?r = "http (url @ ''/api/v1/micro/nrs/resolve/'' @ apex)"
  obtain res c where g: "try_get_with C cache apex (fetch_record E ?r (reserved_apex apex)) = (res, c)" by fastforce
  show ?thesis
  proof (cases "hd (split_on CHR ''.'' apex) = ''localhost'' \<and> reserved_apex apex")
    case True
    then show ?thesis using assms by (auto simp: resolve_kinetic_def reserved_apex_def Let_def)
  next
    case False
    then have "resolve_kinetic E C http url header q t full apex cache =
      (case res of Inr (Some p) \<Rightarrow> answer_payload E http url q t full apex p
         | Inr None \<Rightarrow> error_msg NXDomain | Inl _ \<Rightarrow> error_msg ServFail, c)"
      using g by (auto simp: resolve_kinetic_def reserved_apex_def Let_def split: sum.split option.split)
    then have "c = cache'" and "answer_records resp \<noteq> [] \<longrightarrow>
        (\<exists>payload. res = Ok (Some payload) \<and> resp = answer_payload E http url q t full apex payload)"
      using assms by (auto split: sum.splits option.splits)
    with g show ?thesis by blast
  qed
qed

lemma resolve_kinetic_authentic:
  assumes "moka_laws C" and "cache_authentic E C cache"
    and "resolve_kinetic E C http url header q t full apex cache = (resp, cache')"
  shows "cache_authentic E C cache'"
    and "r \<in> set (answer_records resp) \<Longrightarrow> hd (split_on CHR ''.'' apex) \<noteq> ''localhost'' \<Longrightarrow>
      \<exists>payload. authentic E apex payload \<and> r \<in> set (answer_records (answer_payload E http url q t full apex payload))"
proof -
  have "cache_authentic E C cache' \<and> (r \<in> set (answer_records resp) \<longrightarrow> hd (split_on CHR ''.'' apex) \<noteq> ''localhost'' \<longrightarrow>
      (\<exists>payload. authentic E apex payload \<and> r \<in> set (answer_records (answer_payload E http url q t full apex payload))))"
    using resolve_kinetic_cases [OF assms(3)]
  proof (elim disjE exE conjE)
    fix resp0 res
    assume g: "try_get_with C cache apex (fetch_record E resp0 (reserved_apex apex)) = (res, cache')"
      and a: "answer_records resp \<noteq> [] \<longrightarrow>
             (\<exists>payload. res = Ok (Some payload) \<and> resp = answer_payload E http url q t full apex payload)"
    note auth = try_get_authentic [OF assms(1,2) fetch_record_authentic g]
    have "\<exists>payload. authentic E apex payload \<and> r \<in> set (answer_records (answer_payload E http url q t full apex payload))"
      if "r \<in> set (answer_records resp)"
    proof -
      from that a obtain payload where "res = Ok (Some payload)"
        "resp = answer_payload E http url q t full apex payload" by (metis empty_iff empty_set)
      with that auth(2) show ?thesis by blast
    qed
    with auth(1) show ?thesis by blast
  qed (use assms(2) in simp)
  then show "cache_authentic E C cache'"
    and "r \<in> set (answer_records resp) \<Longrightarrow> hd (split_on CHR ''.'' apex) \<noteq> ''localhost'' \<Longrightarrow>
      \<exists>payload. authentic E apex payload \<and> r \<in> set (answer_records (answer_payload E http url q t full apex payload))"
    by blast+
qed

lemma handle_request_nsp:
  assumes "ends_with (clean_name E q) (NSP_SUFFIX E)"
    and "resolve_kinetic E C http (nh_api_url self) header q t (normalize_name E (clean_name E q))
      (extract_apex_name E (normalize_name E (clean_name E q))) (nh_cache self) = (resp, cache')"
  shows "handle_request E C http header q t self = (resp, self\<lparr>nh_cache := cache'\<rparr>)"
  using assms by (simp add: handle_request_def Let_def)

lemma handle_request_other:
  "\<not> ends_with (clean_name E q) (NSP_SUFFIX E) \<Longrightarrow> snd (handle_request E C http header q t self) = self"
  by (simp add: handle_request_def Let_def)

lemma invalidate_authentic:
  assumes "moka_laws C" and "cache_authentic E C c"
  shows "cache_authentic E C (nc_invalidate C c k)"
  unfolding cache_authentic_def
proof (intro allI impI)
  fix apex payload
  assume "nc_get C (nc_invalidate C c k) apex = Some (Some payload)"
  then have "nc_get C c apex = Some (Some payload)"
    using assms(1) [unfolded moka_laws_def, THEN conjunct2, rule_format, of c k apex "Some payload"]
    by (rule_tac conjunct2)
  with assms(2) show "authentic E apex payload" by (simp add: cache_authentic_def)
qed

lemma reachable_authentic:
  assumes "nrs_reachable E C self" and "moka_laws C"
  shows "cache_authentic E C (nh_cache self)"
  using assms(1)
proof induction
  case (request self http header q t)
  obtain resp cache' where r: "resolve_kinetic E C http (nh_api_url self) header q t (normalize_name E (clean_name E q))
    (extract_apex_name E (normalize_name E (clean_name E q))) (nh_cache self) = (resp, cache')"
    by (rule prod.exhaust)
  note c = resolve_kinetic_authentic(1) [OF assms(2) request.IH this]
  show ?case
  proof (cases "ends_with (clean_name E q) (NSP_SUFFIX E)")
    case True
    from c show ?thesis by (simp add: handle_request_nsp [OF True r])
  qed (simp add: handle_request_other request.IH)
next
  case (invalidate self apex)
  then show ?case
    by (simp add: nrs_invalidate_def invalidate_authentic [OF assms(2)])
qed (simp add: cache_authentic_def)

section \<open>Correctness of the name server\<close>



text \<open>A server whose API serves one signed record with a public address.\<close>

definition dns_reveal :: reveal where
  "dns_reveal = \<lparr>protocol_version = 1, rv_name = ''satoshi.kin'', embedded_nrs = [], rv_salt = replicate 32 0,
     rv_kyn = 900, beacon_signature = [], rv_iterations = 1, rv_vdf_proof = \<lparr>proof_bytes = []\<rparr>,
     rv_pubkey = [1], identity_signature = [], rv_authorization = None, rv_previous_proof = None\<rparr>"

definition sample_dns :: nrs_env where
  "sample_dns = zone_env.extend
     (sample_zone\<lparr>mldsa_verify := \<lambda>_ _ _. True, slice_zone := \<lambda>_. Some [(''@'', [A (Ipv4 8 8 8 8)])]\<rparr>)
     (nrs_env.fields (\<lambda>_. Some (Standard dns_reveal)) (\<lambda>s. Some (as_bytes s)) (\<lambda>_. None) (\<lambda>_. None) [])"

definition sample_http :: http_client where
  "sample_http url = Ok \<lparr>http_status = 200, http_status_text = ''OK'', http_chunks = [[1], [2]], http_complete = True\<rparr>"

definition map_cache :: "(string \<Rightarrow> bytes option option) nrs_cache" where
  "map_cache = \<lparr>nc_get = (\<lambda>c. c), nc_insert = (\<lambda>c k v. c(k \<mapsto> v)), nc_invalidate = (\<lambda>c k. c(k := None))\<rparr>"

definition sample_handler :: "(string \<Rightarrow> bytes option option) nrs_handler" where
  "sample_handler = \<lparr>nh_api_url = ''http://127.0.0.1:8080'', nh_resolver = (\<lambda>_ _. Err NoRecordsFound), nh_cache = (\<lambda>_. None),
     atlas_nsps = [], atlas_resolver = (\<lambda>_ _. Err NoRecordsFound)\<rparr>"

lemmas sample_dns_simps = sample_dns_def sample_zone_def sample_identity_simps zone_env.defs nrs_env.defs

lemma map_cache_laws: "moka_laws map_cache"
  by (auto simp: moka_laws_def map_cache_def split: if_splits)

lemma sample_dns_names: "names_ok sample_dns"
  by (rule sample_names_ok) (simp_all add: sample_dns_simps)

lemma sample_dns_suffix: "NSP_SUFFIX sample_dns = ''.kin''"
  by (simp add: sample_dns_simps)

lemma sample_clean: "clean_name sample_dns ''Satoshi.kin.'' = ''satoshi.kin''"
  unfolding clean_name_def to_lowercase_def by code_simp

lemma sample_full: "normalize_name sample_dns ''satoshi.kin'' = ''satoshi.kin''"
  "extract_apex_name sample_dns ''satoshi.kin'' = ''satoshi.kin''"
  "split_on CHR ''.'' ''satoshi.kin'' = [''satoshi'', ''kin'']"
  using normalize_in_suffix [OF sample_dns_names, of "''satoshi''"] extract_apex_in_suffix [OF sample_dns_names, of "''satoshi''"]
    satoshi_label by (simp_all add: sample_dns_suffix)

lemma sample_zone_parsed: "zone_parse_payload sample_dns [] = Ok [(''@'', [A (Ipv4 8 8 8 8)])]"
proof -
  have "to_lowercase (unicode_lowercase sample_dns) ''@'' = ''@''"
    unfolding to_lowercase_def by code_simp
  moreover have "slice_zone sample_dns [] = Some [(''@'', [A (Ipv4 8 8 8 8)])]" by (simp add: sample_dns_simps)
  moreover have "zone_validate sample_dns [(''@'', [A (Ipv4 8 8 8 8)])] = Ok ()"
    by (simp add: zone_validate_Ok zone_label_ok_def cnames_ok_def entry_ok_def is_cname_def is_kid_def)
  ultimately show ?thesis by (simp add: zone_parse_payload_def merge_entry_def Let_def)
qed

lemma sample_dns_signed: "envelope_verify_signature sample_dns (Standard dns_reveal) (NETWORK_SALT sample_dns) = Ok ()"
  by (simp add: envelope_verify_signature_def reveal_verify_signature_def signed_by_def sample_dns_simps dns_reveal_def result_simps)

lemma public_resolver_safe: "validate_ssrf_safe (V4 (Ipv4 8 8 8 8)) = Ok ()"
  by code_simp

lemma sample_answer:
  "answer_records (fst (handle_request sample_dns map_cache sample_http NoError ''Satoshi.kin.'' Type_A sample_handler))
     = [\<lparr>rr_name = as_bytes ''Satoshi.kin.'', rr_ttl = 60, rr_data = RA (Ipv4 8 8 8 8)\<rparr>]"
proof -
  have p: "read_chunks [] [[1], [2]] = Some [1, 2]" by simp
  have e: "nrs_slice_envelope sample_dns b = Some (Standard dns_reveal)" "dns_name_from_str sample_dns s = Some (as_bytes s)" for b s
    by (simp_all add: sample_dns_simps)
  have f: "fetch_record sample_dns (sample_http url) False = Ok (Some [1, 2])" for url
    by (simp add: fetch_record_def sample_http_def e sample_dns_signed)
  have z: "zone_parse_payload sample_dns (embedded_nrs dns_reveal) = Ok [(''@'', [A (Ipv4 8 8 8 8)])]"
    by (simp add: dns_reveal_def sample_zone_parsed)
  have "answer_payload sample_dns sample_http url ''Satoshi.kin.'' Type_A ''satoshi.kin'' ''satoshi.kin'' [1, 2]
      = \<lparr>rcode = NoError, answer_records = [\<lparr>rr_name = as_bytes ''Satoshi.kin.'', rr_ttl = 60, rr_data = RA (Ipv4 8 8 8 8)\<rparr>]\<rparr>" for url
    by (simp add: answer_payload_def env_embedded_nrs_def e z kids_authorised_def subname_def zone_answers_def entry_rdata_def is_cname_def
        List.map_filter_simps public_resolver_safe)
  then have "fst (resolve_kinetic sample_dns map_cache sample_http url NoError ''Satoshi.kin.'' Type_A ''satoshi.kin'' ''satoshi.kin'' (\<lambda>_. None))
      = \<lparr>rcode = NoError, answer_records = [\<lparr>rr_name = as_bytes ''Satoshi.kin.'', rr_ttl = 60, rr_data = RA (Ipv4 8 8 8 8)\<rparr>]\<rparr>" for url
    using satoshi_label
    by (simp add: resolve_kinetic_def sample_full try_get_with_def map_cache_def f)
  then show ?thesis
    by (simp add: handle_request_def sample_clean sample_dns_suffix sample_full sample_handler_def ends_with_def Let_def split: prod.split)
       (metis (no_types, lifting) dns_response.select_convs(2) fst_conv)
qed


lemma sample_reachable: "nrs_reachable sample_dns map_cache sample_handler"
  by (rule nrs_reachable.start) (simp add: map_cache_def sample_handler_def)



section \<open>Limits of the checks\<close>

text \<open>An identity document that cannot be read as JSON authorises every key.\<close>

lemma unreadable_identity_authorises:
  assumes "http (url @ ''/api/v1/micro/kid/resolve/'' @ did) = Ok resp"
    and "200 \<le> http_status resp" "http_status resp < 300" "kid_public_keys E (concat (http_chunks resp)) = None"
  shows "kid_authorised E http url pubkey did"
  using assms by (simp add: kid_authorised_def)

text \<open>The name in a signed record is not compared with the name asked for: a record signed for any
  name is fetched for every name.\<close>

lemma name_not_bound:
  assumes "nrs_slice_envelope E payload = Some rec" "envelope_verify_signature E rec (NETWORK_SALT E) = Ok ()"
    "length payload \<le> 100 * 1024"
  shows "fetch_record E (Ok \<lparr>http_status = 200, http_status_text = s, http_chunks = [payload], http_complete = True\<rparr>)
    (reserved_apex apex) = Ok (Some payload)"
  using assms by (simp add: fetch_record_def)

text \<open>A reserved name with a trailing dot is a legal alias target and passes the block.\<close>

lemma rooted_alias_passes:
  "entry_ok sample_dns (CNAME ''localhost.'') \<and> blocked_cname sample_dns ''localhost''
   \<and> entry_rdata sample_dns Type_A True (CNAME ''localhost.'') = Some (RCNAME (as_bytes ''localhost.''))"
proof -
  have l: "to_lowercase (unicode_lowercase sample_dns) ''localhost.'' = ''localhost.''"
    "to_lowercase (unicode_lowercase sample_dns) ''localhost'' = ''localhost''"
    unfolding to_lowercase_def by code_simp+
  have b: "\<not> blocked_cname sample_dns ''localhost.''" "blocked_cname sample_dns ''localhost''"
    by (simp_all add: blocked_cname_def l RESERVED_NAMES_def ends_with_def)
  have e: "parse_ip_addr sample_dns s = None" "dns_name_from_str sample_dns s = Some (as_bytes s)" for s
    by (simp_all add: sample_dns_simps)
  show ?thesis
    by (simp add: entry_ok_def entry_rdata_def cname_rdata_def b e is_cname_def char_class_defs code_def)
qed

end
