(* ===== verification/Time_Sync.thy ===== *)
theory Time_Sync
  imports Event_Loop
begin

text \<open>
  Network time and network actions outside the event loop: the beacon client
  (\<open>kinetic-network/src/client/beacon.rs\<close>), the processing of gossip in the daemon, the node and
  the host, the file that keeps the action state (\<open>kinetic-local/src/action.rs\<close>), and the loops
  that fetch the time and send heartbeats.

  The HTTP client, DNS, the serialisers and the file system are parameters. Sleeping between
  attempts is left out. A call that panics returns \<open>None\<close>. Of \<open>fetch_with_backoff\<close> the native
  variant is modelled.
\<close>

section \<open>The beacon client (client/beacon.rs)\<close>

datatype kyn_provider_error =
    AllEndpointsFailed | KynHttpError nat | NoCachedKyn | KynSerde | KynStorage storage_error
  | KynHttpClient string | KynInvalidSignature | StaleKyn kyn kyn | StreamReadFailed string
  | KynResponseTooLarge nat | UnavailableOnStartup string | P2pFallbackTriggered u64 | DevModeMockKyn
  | RegistrationDisabled | LiveFetchFailedFallback

record time_env = event_env +
  vec_raw_kyn :: "raw_kyn \<Rightarrow> bytes option"
  vec_heartbeat :: "heartbeat \<Rightarrow> bytes option"
  slice_names :: "bytes \<Rightarrow> string list option"
  bincode_action :: "action_state \<Rightarrow> bytes option"
  unbincode_action :: "bytes \<Rightarrow> action_state option"
  DB_PREFIX_LAST_KYN :: bytes
  DB_PREFIX_OWNED_NAMES :: bytes
  LIMITS_BEACON_MAX_RESPONSE_BYTES :: nat
  KYN_GENESIS :: kyn

text \<open>The answer to a request: status, the chunks of the body, and how the body ends.\<close>

record beacon_reply =
  br_status :: nat
  br_chunks :: "bytes list"
  br_end :: "(string, unit) result"

fun read_beacon_body ::
  "'x time_env_scheme \<Rightarrow> bytes \<Rightarrow> bytes list \<Rightarrow> (string, unit) result \<Rightarrow> (kyn_provider_error, bytes) result" where
  "read_beacon_body E body [] ending = (case ending of Inr _ \<Rightarrow> Ok body | Inl e \<Rightarrow> Err (StreamReadFailed e))"
| "read_beacon_body E body (chunk # chunks) ending =
     (let body = body @ chunk in
      if LIMITS_BEACON_MAX_RESPONSE_BYTES E < length body then Err (KynResponseTooLarge (length body))
      else read_beacon_body E body chunks ending)"

fun backoff_loop ::
  "'x time_env_scheme \<Rightarrow> (nat \<Rightarrow> (string, beacon_reply) result) \<Rightarrow> nat list \<Rightarrow> (kyn_provider_error, raw_kyn) result" where
  "backoff_loop E get [] = Err AllEndpointsFailed"
| "backoff_loop E get (attempt # attempts) =
     (case get attempt of
        Inr resp \<Rightarrow>
          if 200 \<le> br_status resp \<and> br_status resp < 300 then
            and_then (read_beacon_body E [] (br_chunks resp) (br_end resp)) (\<lambda>body.
            ok_or KynSerde (slice_raw_kyn E body))
          else if attempt < 3 - 1 then backoff_loop E get attempts
          else Err (KynHttpError (br_status resp))
      | Inl e \<Rightarrow>
          if attempt < 3 - 1 then backoff_loop E get attempts else Err (KynHttpClient e))"

definition fetch_with_backoff ::
  "'x time_env_scheme \<Rightarrow> (nat \<Rightarrow> (string, beacon_reply) result) \<Rightarrow> (kyn_provider_error, raw_kyn) result" where
  "fetch_with_backoff E get = backoff_loop E get [0, 1, 2]"

definition cache_kyn ::
  "'x time_env_scheme \<Rightarrow> ('s, 'y) storage_ops_scheme \<Rightarrow> raw_kyn \<Rightarrow> 's option
     \<Rightarrow> (kyn_provider_error, unit) result \<times> 's option" where
  "cache_kyn E S k st =
     (case st of
        None \<Rightarrow> (Ok (), st)
      | Some s \<Rightarrow>
          (case vec_raw_kyn E k of
             None \<Rightarrow> (Ok (), st)
           | Some b \<Rightarrow> (let (r, s) = st_put S s (DB_PREFIX_LAST_KYN E) b in (map_err KynStorage r, Some s))))"

definition mock_kyn :: raw_kyn where
  "mock_kyn = \<lparr>beacon_idx = 1666666, randomness = ''mock_randomness'', rk_signature = [],
     is_from_cache = True, is_unavailable = False\<rparr>"

definition load_cached ::
  "'x time_env_scheme \<Rightarrow> ('s, 'y) storage_ops_scheme \<Rightarrow> 's option \<Rightarrow> (kyn_provider_error, raw_kyn) result" where
  "load_cached E S st =
     and_then (case st of None \<Rightarrow> Ok None | Some s \<Rightarrow> map_err KynStorage (st_get S s (DB_PREFIX_LAST_KYN E)))
       (\<lambda>cached_data.
        case Option.bind cached_data (slice_raw_kyn E) of
          Some k \<Rightarrow> Ok (k\<lparr>is_from_cache := True\<rparr>)
        | None \<Rightarrow> if dev_mode E then Ok mock_kyn else Err NoCachedKyn)"

text \<open>The endpoints announced in DNS: at most five.\<close>

definition trim_quotes :: "string \<Rightarrow> string" where
  "trim_quotes s = rev (dropWhile (\<lambda>c. c = CHR 0x22) (rev (dropWhile (\<lambda>c. c = CHR 0x22) s)))"

fun inject_txts :: "nat \<Rightarrow> string list \<Rightarrow> string list \<Rightarrow> nat \<times> string list" where
  "inject_txts injected endpoints [] = (injected, endpoints)"
| "inject_txts injected endpoints (t # ts) =
     (if 5 \<le> injected then (injected, endpoints)
      else let url = trim_quotes t
           in if starts_with url ''https://'' then inject_txts (injected + 1) (endpoints @ [url]) ts
              else inject_txts injected endpoints ts)"

fun inject_endpoints :: "(string \<Rightarrow> string list option) \<Rightarrow> nat \<Rightarrow> string list \<Rightarrow> string list \<Rightarrow> string list" where
  "inject_endpoints lookup injected endpoints [] = endpoints"
| "inject_endpoints lookup injected endpoints (domain # domains) =
     (if 5 \<le> injected then endpoints
      else case lookup domain of
        Some ts \<Rightarrow> (let (n, es) = inject_txts injected endpoints ts in inject_endpoints lookup n es domains)
      | None \<Rightarrow> inject_endpoints lookup injected endpoints domains)"

definition MAX_STALE_ROUNDS :: u64 where
  "MAX_STALE_ROUNDS = 200"

text \<open>\<open>get i e attempt\<close> is the answer to an attempt at the \<open>i\<close>-th endpoint \<open>e\<close>; \<open>now\<close> is the Unix time.\<close>

fun fetch_endpoints ::
  "'x time_env_scheme \<Rightarrow> ('s, 'y) storage_ops_scheme \<Rightarrow> (nat \<Rightarrow> string \<Rightarrow> nat \<Rightarrow> (string, beacon_reply) result)
     \<Rightarrow> u64 \<Rightarrow> nat \<Rightarrow> string list \<Rightarrow> 's option \<Rightarrow> (kyn_provider_error, raw_kyn) result \<times> 's option" where
  "fetch_endpoints E S get now i [] st =
     (case load_cached E S st of Inr k \<Rightarrow> (Ok k, st) | Inl _ \<Rightarrow> (Err AllEndpointsFailed, st))"
| "fetch_endpoints E S get now i (e # es) st =
     (case fetch_with_backoff E (get i e) of
        Inl _ \<Rightarrow> fetch_endpoints E S get now (i + 1) es st
      | Inr k \<Rightarrow>
          if \<not> verify_beacon E k (dev_mode E) then fetch_endpoints E S get now (i + 1) es st
          else
            let estimated_kyn = saturating_sub now (BEACON_GENESIS E);
                age = saturating_sub estimated_kyn (rk_kyn E k)
            in if MAX_STALE_ROUNDS < age then fetch_endpoints E S get now (i + 1) es st
               else let k = k\<lparr>is_from_cache := False, is_unavailable := False\<rparr>
                    in (Ok k, snd (cache_kyn E S k st)))"

record beacon_provider =
  bp_endpoints :: "string list"
  beacon_seed_domain :: "string list"
  bp_txt_lookup :: "string \<Rightarrow> string list option"

definition fetch_latest ::
  "'x time_env_scheme \<Rightarrow> ('s, 'y) storage_ops_scheme \<Rightarrow> beacon_provider
     \<Rightarrow> (nat \<Rightarrow> string \<Rightarrow> nat \<Rightarrow> (string, beacon_reply) result) \<Rightarrow> u64 \<Rightarrow> 's option
     \<Rightarrow> (kyn_provider_error, raw_kyn) result \<times> 's option" where
  "fetch_latest E S self get now st =
     (if dev_mode E then (load_cached E S st, st)
      else fetch_endpoints E S get now 0
             (inject_endpoints (bp_txt_lookup self) 0 (bp_endpoints self) (beacon_seed_domain self)) st)"

definition now_local :: "u64 \<Rightarrow> u64 \<Rightarrow> kyn" where
  "now_local now_sec genesis = to_kyn now_sec genesis"

section \<open>The action state on disk (kinetic-local/src/action.rs)\<close>

text \<open>The file at a path, and what file operations do: \<open>Absent\<close> is \<open>NotFound\<close>, \<open>Unreadable\<close> any other
  error of opening it.\<close>

datatype action_file = Absent | Unreadable | Holds bytes

text \<open>The state is written to a temporary file that replaces the old one; \<open>io\<close> tells whether the
  file system allows it.\<close>

definition save_action_to_disk ::
  "'x time_env_scheme \<Rightarrow> bool \<Rightarrow> action_state \<Rightarrow> action_file \<Rightarrow> (unit, unit) result \<times> action_file" where
  "save_action_to_disk E io state file =
     (case bincode_action E state of
        Some b \<Rightarrow> if io then (Ok (), Holds b) else (Err (), file)
      | None \<Rightarrow> (Err (), file))"

text \<open>A file that cannot be decoded is renamed, if the file system allows it, and the process panics.\<close>

definition load_action_from_disk :: "'x time_env_scheme \<Rightarrow> bool \<Rightarrow> action_file \<Rightarrow> action_state option \<times> action_file" where
  "load_action_from_disk E io file =
     (case file of
        Holds b \<Rightarrow> (case unbincode_action E b of Some state \<Rightarrow> (Some state, file) | None \<Rightarrow> (None, if io then Absent else file))
      | Absent \<Rightarrow> (Some (action_state_new (KYN_GENESIS E)), file)
      | Unreadable \<Rightarrow> (None, file))"

section \<open>Gossip in the daemon (kinetic-daemon/src/services/gossip.rs)\<close>

text \<open>What the background tasks of a process share: the storage, the action state behind its lock, its
  file, the value of the time channel, and what was sent to the network client.\<close>

record 's process =
  p_storage :: "'s option"
  p_action :: action_state
  p_poisoned :: bool
  p_file :: action_file
  p_kyn :: u64
  p_reports :: "(message_id \<times> peer_id \<times> bool) list"
  p_action_logs :: "signed_network_action list list"
  p_broadcasts :: "(string \<times> bytes) list"
  p_heartbeats :: "(string \<times> bytes) list"

definition report_gossip :: "message_id \<Rightarrow> peer_id \<Rightarrow> bool \<Rightarrow> 's process \<Rightarrow> 's process" where
  "report_gossip mid source is_valid P = P\<lparr>p_reports := p_reports P @ [(mid, source, is_valid)]\<rparr>"

text \<open>The kyn a pulse is compared with.\<close>

definition latest_kyn_of :: "'x time_env_scheme \<Rightarrow> (kyn_provider_error, raw_kyn) result \<Rightarrow> u64" where
  "latest_kyn_of E cached =
     (case cached of Inr latest \<Rightarrow> if is_unavailable latest then 0 else rk_kyn E latest | Inl _ \<Rightarrow> 0)"

definition accept_kyn :: "'x time_env_scheme \<Rightarrow> ('s, 'y) storage_ops_scheme \<Rightarrow> raw_kyn \<Rightarrow> 's process \<Rightarrow> 's process" where
  "accept_kyn E S k P =
     (if latest_kyn_of E (load_cached E S (p_storage P)) < rk_kyn E k
      then P\<lparr>p_storage := snd (cache_kyn E S k (p_storage P)), p_kyn := rk_kyn E k\<rparr>
      else P)"

definition process_kyn_gossip ::
  "'x time_env_scheme \<Rightarrow> ('s, 'y) storage_ops_scheme \<Rightarrow> bytes \<Rightarrow> message_id \<Rightarrow> peer_id \<Rightarrow> 's process \<Rightarrow> 's process" where
  "process_kyn_gossip E S actual_payload mid source P =
     (case slice_raw_kyn E actual_payload of
        None \<Rightarrow> report_gossip mid source False P
      | Some k \<Rightarrow>
          if verify_beacon E k (dev_mode E) then report_gossip mid source True (accept_kyn E S k P)
          else report_gossip mid source False P)"

text \<open>Both successful outcomes save the state and publish its log.\<close>

definition process_action_gossip ::
  "'x time_env_scheme \<Rightarrow> ('s, 'y) storage_ops_scheme \<Rightarrow> bool \<Rightarrow> u64 \<Rightarrow> bytes \<Rightarrow> message_id \<Rightarrow> peer_id
     \<Rightarrow> 's process \<Rightarrow> 's process option" where
  "process_action_gossip E S io now actual_payload mid source P =
     (case slice_signed_action E actual_payload of
        None \<Rightarrow> Some (report_gossip mid source False P)
      | Some signed_msg \<Rightarrow>
          let current = (case load_cached E S (p_storage P) of
                           Inr k \<Rightarrow> rk_kyn E k | Inl _ \<Rightarrow> now_local now (BEACON_GENESIS E))
          in if p_poisoned P then Some (report_gossip mid source False P)
             else (case process_action_message E (p_action P) signed_msg current (node_action_config E) of
                 None \<Rightarrow> None
               | Some (Inr _, st') \<Rightarrow>
                   Some (report_gossip mid source True
                     (P\<lparr>p_action := st', p_file := snd (save_action_to_disk E io st' (p_file P)),
                        p_action_logs := p_action_logs P @ [action_state.action_log st']\<rparr>))
               | Some (Inl _, st') \<Rightarrow> Some (report_gossip mid source False (P\<lparr>p_action := st'\<rparr>))))"

text \<open>One message in the loop of \<open>start_gossip_processor\<close>.\<close>

definition daemon_gossip ::
  "'x time_env_scheme \<Rightarrow> ('s, 'y) storage_ops_scheme \<Rightarrow> bool \<Rightarrow> u64 \<Rightarrow> string \<Rightarrow> bytes \<Rightarrow> message_id \<Rightarrow> peer_id
     \<Rightarrow> 's process \<Rightarrow> 's process option" where
  "daemon_gossip E S io now topic payload mid source P =
     (if topic \<noteq> NETWORK_SALT_HEX E then Some P
      else case payload of
        [] \<Rightarrow> Some (report_gossip mid source False P)
      | opcode # actual_payload \<Rightarrow>
          if opcode = opcode_byte OpAction then process_action_gossip E S io now actual_payload mid source P
          else if opcode = opcode_byte OpKyn then Some (process_kyn_gossip E S actual_payload mid source P)
          else Some (report_gossip mid source False P))"

section \<open>Gossip in the node and the host\<close>

text \<open>\<open>kinetic-node/src/gossip.rs\<close>. The lock is entered even when it is poisoned; saving and
  publishing are spawned, and run here in the order they are spawned.\<close>

definition handle_action_gossip ::
  "'x time_env_scheme \<Rightarrow> bool \<Rightarrow> bytes \<Rightarrow> kyn \<Rightarrow> 's process \<Rightarrow> 's process option" where
  "handle_action_gossip E io payload current P =
     (case slice_signed_action E payload of
        None \<Rightarrow> Some P
      | Some signed_msg \<Rightarrow>
          (case process_action_message E (p_action P) signed_msg current (node_action_config E) of
             None \<Rightarrow> None
           | Some (Inr _, st') \<Rightarrow>
               Some (P\<lparr>p_action := st', p_file := snd (save_action_to_disk E io st' (p_file P)),
                        p_action_logs := p_action_logs P @ [action_state.action_log st']\<rparr>)
           | Some (Inl _, st') \<Rightarrow> Some (P\<lparr>p_action := st'\<rparr>)))"

text \<open>One message in the gossip task of \<open>kinetic-node/src/main.rs\<close>; \<open>latest\<close> is the result of
  \<open>fetch_latest\<close>.\<close>

definition node_gossip ::
  "'x time_env_scheme \<Rightarrow> ('s, 'y) storage_ops_scheme \<Rightarrow> beacon_provider
     \<Rightarrow> (nat \<Rightarrow> string \<Rightarrow> nat \<Rightarrow> (string, beacon_reply) result) \<Rightarrow> bool \<Rightarrow> u64 \<Rightarrow> string \<Rightarrow> bytes
     \<Rightarrow> 's process \<Rightarrow> 's process option" where
  "node_gossip E S provider get io now topic payload P =
     (if topic \<noteq> NETWORK_SALT_HEX E then Some P
      else case payload of
        [] \<Rightarrow> Some P
      | opcode # actual_payload \<Rightarrow>
          if opcode = opcode_byte OpAction then
            (let (latest, st) = fetch_latest E S provider get now (p_storage P);
                 current = (case latest of Inr k \<Rightarrow> rk_kyn E k | Inl _ \<Rightarrow> now_local now (BEACON_GENESIS E))
             in handle_action_gossip E io actual_payload current (P\<lparr>p_storage := st\<rparr>))
          else if opcode = opcode_byte OpKyn then
            Some (case slice_raw_kyn E actual_payload of
                    None \<Rightarrow> P
                  | Some k \<Rightarrow> if verify_beacon E k (dev_mode E) then accept_kyn E S k P else P)
          else Some P)"

text \<open>One message in the loop of \<open>kinetic-host/src/gossip.rs\<close>.\<close>

definition host_gossip ::
  "'x time_env_scheme \<Rightarrow> ('s, 'y) storage_ops_scheme \<Rightarrow> beacon_provider
     \<Rightarrow> (nat \<Rightarrow> string \<Rightarrow> nat \<Rightarrow> (string, beacon_reply) result) \<Rightarrow> bool \<Rightarrow> u64 \<Rightarrow> string \<Rightarrow> bytes
     \<Rightarrow> 's process \<Rightarrow> 's process option" where
  "host_gossip E S provider get io now topic payload P =
     (if topic \<noteq> NETWORK_SALT_HEX E then Some P
      else case payload of
        [] \<Rightarrow> Some P
      | opcode # actual_payload \<Rightarrow>
          if opcode \<noteq> opcode_byte OpAction then Some P
          else (case slice_signed_action E actual_payload of
            None \<Rightarrow> Some P
          | Some signed_msg \<Rightarrow>
              (let (current, st) =
                     (case load_cached E S (p_storage P) of
                        Inr k \<Rightarrow> (rk_kyn E k, p_storage P)
                      | Inl _ \<Rightarrow>
                          (let (latest, st) = fetch_latest E S provider get now (p_storage P)
                           in case latest of
                                Inr k \<Rightarrow> (rk_kyn E k, st)
                              | Inl _ \<Rightarrow> (now_local now (BEACON_GENESIS E), st)));
                   P = P\<lparr>p_storage := st\<rparr>
               in if p_poisoned P then Some P
                  else (case process_action_message E (p_action P) signed_msg current (node_action_config E) of
                      None \<Rightarrow> None
                    | Some (Inr _, st') \<Rightarrow>
                        Some (P\<lparr>p_action := st', p_file := snd (save_action_to_disk E io st' (p_file P)),
                                 p_action_logs := p_action_logs P @ [action_state.action_log st']\<rparr>)
                    | Some (Inl _, st') \<Rightarrow> Some (P\<lparr>p_action := st'\<rparr>)))))"

section \<open>Time and heartbeat loops\<close>

text \<open>Whether a tick asks the beacon: the daemon subtracts without a check, the node saturates.\<close>

definition wants_http ::
  "'x time_env_scheme \<Rightarrow> bool \<Rightarrow> u64 \<Rightarrow> (kyn_provider_error, raw_kyn) result \<Rightarrow> bool" where
  "wants_http E p2p_only expected_kyn cached =
     (if \<not> p2p_only then True
      else case cached of Inr latest \<Rightarrow> rk_kyn E latest + 5 < expected_kyn | Inl _ \<Rightarrow> True)"

definition kyn_envelope :: "bytes \<Rightarrow> bytes" where
  "kyn_envelope payload = opcode_byte OpKyn # payload"

text \<open>A pulse fetched live: announced on the time channel and, unless the process lives on gossip
  only, to the network.\<close>

definition announce_kyn :: "'x time_env_scheme \<Rightarrow> bool \<Rightarrow> raw_kyn \<Rightarrow> 's process \<Rightarrow> 's process" where
  "announce_kyn E p2p_only k P =
     (if \<not> is_unavailable k \<and> \<not> is_from_cache k then
        let P = P\<lparr>p_kyn := rk_kyn E k\<rparr>
        in case vec_raw_kyn E k of
             Some payload \<Rightarrow>
               if p2p_only then P
               else P\<lparr>p_broadcasts := p_broadcasts P @ [(NETWORK_SALT_HEX E, kyn_envelope payload)]\<rparr>
           | None \<Rightarrow> P
      else P)"

text \<open>One tick of the time loop of the node (\<open>kinetic-node/src/main.rs\<close>).\<close>

definition node_time_tick ::
  "'x time_env_scheme \<Rightarrow> ('s, 'y) storage_ops_scheme \<Rightarrow> beacon_provider
     \<Rightarrow> (nat \<Rightarrow> string \<Rightarrow> nat \<Rightarrow> (string, beacon_reply) result) \<Rightarrow> bool \<Rightarrow> u64 \<Rightarrow> 's process \<Rightarrow> 's process" where
  "node_time_tick E S provider get p2p_only now P =
     (if wants_http E p2p_only (saturating_sub now (BEACON_GENESIS E)) (load_cached E S (p_storage P)) then
        (let (r, st) = fetch_latest E S provider get now (p_storage P);
             P = P\<lparr>p_storage := st\<rparr>
         in case r of Inr k \<Rightarrow> announce_kyn E p2p_only k P | Inl _ \<Rightarrow> P)
      else P)"

text \<open>One heartbeat for an owned name.\<close>

definition sign_heartbeat :: "'x identity_env_scheme \<Rightarrow> bytes \<Rightarrow> kyn \<Rightarrow> string \<Rightarrow> heartbeat" where
  "sign_heartbeat E key k name =
     (let hb = \<lparr>hb_name = name, latest_kyn = k, hb_owner_signature = [], hb_authorization = None\<rparr>
      in hb\<lparr>hb_owner_signature := mldsa_sign E key (heartbeat_signable_bytes hb (NETWORK_SALT E))\<rparr>)"

definition publish_heartbeats :: "'x time_env_scheme \<Rightarrow> bytes \<Rightarrow> kyn \<Rightarrow> string list \<Rightarrow> 's process \<Rightarrow> 's process" where
  "publish_heartbeats E key k names P =
     P\<lparr>p_heartbeats := p_heartbeats P @
         List.map_filter (\<lambda>name. map_option (Pair name) (vec_heartbeat E (sign_heartbeat E key k name))) names\<rparr>"

record heartbeat_loop =
  last_known_live_kyn :: u64
  next_hb :: nat

text \<open>One tick of \<open>start_heartbeat_loop\<close> (\<open>kinetic-daemon/src/services/heartbeat.rs\<close>); \<open>instant\<close> is the
  monotonic clock in nanoseconds.\<close>

definition daemon_heartbeat_tick ::
  "'x time_env_scheme \<Rightarrow> ('s, 'y) storage_ops_scheme \<Rightarrow> beacon_provider
     \<Rightarrow> (nat \<Rightarrow> string \<Rightarrow> nat \<Rightarrow> (string, beacon_reply) result) \<Rightarrow> bool \<Rightarrow> bytes \<Rightarrow> u64 \<Rightarrow> nat
     \<Rightarrow> heartbeat_loop \<times> 's process \<Rightarrow> heartbeat_loop \<times> 's process" where
  "daemon_heartbeat_tick E S provider get p2p_only key now instant HP =
     (let (H, P) = HP;
          cached = load_cached E S (p_storage P);
          (k, P) =
            (if wants_http E p2p_only (now - BEACON_GENESIS E) cached then
               let (r, st) = fetch_latest E S provider get now (p_storage P);
                   P = P\<lparr>p_storage := st\<rparr>
               in case r of
                    Inr k \<Rightarrow> (k, announce_kyn E p2p_only k P)
                  | Inl _ \<Rightarrow> (case load_cached E S st of Inr k \<Rightarrow> (k, P) | Inl _ \<Rightarrow> (unavailable, P))
             else (case cached of Inr k \<Rightarrow> (k, P) | Inl _ \<Rightarrow> (unavailable, P)))
      in if is_unavailable k then (H, P)
         else
           let H = (if last_known_live_kyn H < rk_kyn E k then H\<lparr>last_known_live_kyn := rk_kyn E k\<rparr> else H)
           in if \<not> can_heartbeat E k (last_known_live_kyn H) then (H, P)
              else if instant < next_hb H then (H, P)
              else
                let H = H\<lparr>next_hb := instant + 30 * 10 ^ 9\<rparr>
                in case Option.bind (case p_storage P of None \<Rightarrow> None
                          | Some s \<Rightarrow> (case st_get S s (DB_PREFIX_OWNED_NAMES E) of Inr b \<Rightarrow> b | Inl _ \<Rightarrow> None))
                        (slice_names E) of
                     Some names \<Rightarrow> (H, publish_heartbeats E key (rk_kyn E k) names P)
                   | None \<Rightarrow> (H, P))"

section \<open>Time from gossip\<close>

lemma report_gossip_fields [simp]:
  "p_kyn (report_gossip mid source b P) = p_kyn P" "p_storage (report_gossip mid source b P) = p_storage P"
  "p_action (report_gossip mid source b P) = p_action P" "p_file (report_gossip mid source b P) = p_file P"
  "p_poisoned (report_gossip mid source b P) = p_poisoned P"
  "p_action_logs (report_gossip mid source b P) = p_action_logs P"
  by (simp_all add: report_gossip_def)

lemma accept_kyn_fields [simp]:
  "p_action (accept_kyn E S k P) = p_action P" "p_file (accept_kyn E S k P) = p_file P"
  "p_poisoned (accept_kyn E S k P) = p_poisoned P"
  by (simp_all add: accept_kyn_def)

lemma accept_kyn_time:
  "p_kyn (accept_kyn E S k P) =
     (if latest_kyn_of E (load_cached E S (p_storage P)) < rk_kyn E k then rk_kyn E k else p_kyn P)"
  by (simp add: accept_kyn_def)

text \<open>Messages about actions do not touch the time.\<close>

lemma action_gossip_time:
  "process_action_gossip E S io now rest mid source P = Some P' \<Longrightarrow> p_kyn P' = p_kyn P"
  "handle_action_gossip E io rest current P = Some P' \<Longrightarrow> p_kyn P' = p_kyn P"
  by (auto simp: process_action_gossip_def handle_action_gossip_def Let_def
      split: option.splits sum.splits if_splits)

definition pulse_of :: "'x time_env_scheme \<Rightarrow> string \<Rightarrow> bytes \<Rightarrow> raw_kyn \<Rightarrow> bool" where
  "pulse_of E topic payload k \<longleftrightarrow> topic = NETWORK_SALT_HEX E
     \<and> (\<exists>rest. payload = opcode_byte OpKyn # rest \<and> slice_raw_kyn E rest = Some k)"

lemma daemon_time_change:
  assumes "daemon_gossip E S io now topic payload mid source P = Some P'" and "p_kyn P' \<noteq> p_kyn P"
  shows "\<exists>k. pulse_of E topic payload k \<and> verify_beacon E k (dev_mode E) \<and> p_kyn P' = rk_kyn E k
    \<and> latest_kyn_of E (load_cached E S (p_storage P)) < rk_kyn E k"
  using assms action_gossip_time(1) [of E S io now _ mid source P P']
  by (auto simp: daemon_gossip_def process_kyn_gossip_def accept_kyn_time pulse_of_def
      split: if_splits list.splits option.splits)

lemma node_time_change:
  assumes "node_gossip E S provider get io now topic payload P = Some P'" and "p_kyn P' \<noteq> p_kyn P"
  shows "\<exists>k. pulse_of E topic payload k \<and> verify_beacon E k (dev_mode E) \<and> p_kyn P' = rk_kyn E k
    \<and> latest_kyn_of E (load_cached E S (p_storage P)) < rk_kyn E k"
  using assms
  by (auto simp: node_gossip_def accept_kyn_time pulse_of_def Let_def
      split: if_splits list.splits option.splits prod.splits dest: action_gossip_time(2))

section \<open>Actions from gossip\<close>

lemma handle_action_gossip_fields:
  assumes "handle_action_gossip E io rest current P = Some P'"
  shows "p_storage P' = p_storage P" "p_poisoned P' = p_poisoned P"
  using assms by (auto simp: handle_action_gossip_def split: option.splits sum.splits)

text \<open>The daemon and the host apply a message like the node, at the time they take as current.\<close>

lemma daemon_action:
  assumes "\<not> p_poisoned P"
    and "current = (case load_cached E S (p_storage P) of Inr k \<Rightarrow> rk_kyn E k | Inl _ \<Rightarrow> now_local now (BEACON_GENESIS E))"
  shows "map_option (\<lambda>P. (p_action P, p_file P, p_action_logs P)) (process_action_gossip E S io now rest mid source P)
    = map_option (\<lambda>P. (p_action P, p_file P, p_action_logs P)) (handle_action_gossip E io rest current P)"
  using assms by (auto simp: process_action_gossip_def handle_action_gossip_def split: option.split sum.split)

lemma host_action:
  assumes "\<not> p_poisoned P" and "load_cached E S (p_storage P) = Ok k"
  shows "host_gossip E S provider get io now (NETWORK_SALT_HEX E) (opcode_byte OpAction # rest) P
    = handle_action_gossip E io rest (rk_kyn E k) P"
  using assms by (auto simp: host_gossip_def handle_action_gossip_def split: option.split sum.split)

lemma node_action:
  assumes "fetch_latest E S provider get now (p_storage P) = (Ok k, st)"
  shows "node_gossip E S provider get io now (NETWORK_SALT_HEX E) (opcode_byte OpAction # rest) P
    = handle_action_gossip E io rest (rk_kyn E k) (P\<lparr>p_storage := st\<rparr>)"
  using assms by (simp add: node_gossip_def)

lemma handle_action_frame:
  "map_option (\<lambda>P. (p_action P, p_file P, p_action_logs P)) (handle_action_gossip E io rest current (P\<lparr>p_storage := st\<rparr>))
   = map_option (\<lambda>P. (p_action P, p_file P, p_action_logs P)) (handle_action_gossip E io rest current P)"
  by (auto simp: handle_action_gossip_def split: option.split sum.split)

section \<open>The action state survives a restart\<close>

definition bincode_laws :: "'x time_env_scheme \<Rightarrow> bool" where
  "bincode_laws E \<longleftrightarrow> (\<forall>s b. bincode_action E s = Some b \<longrightarrow> unbincode_action E b = Some s)"

definition encodable :: "'x time_env_scheme \<Rightarrow> 's process \<Rightarrow> bool" where
  "encodable E P \<longleftrightarrow> bincode_action E (p_action P) \<noteq> None"

text \<open>The file holds the state in memory, except that it may remember more executed messages: a
  rejected message may drop expired ones from memory only.\<close>

definition durable :: "'x time_env_scheme \<Rightarrow> 's process \<Rightarrow> bool" where
  "durable E P \<longleftrightarrow> (\<exists>s file. \<forall>io. load_action_from_disk E io (p_file P) = (Some s, file)
     \<and> p_action P = s\<lparr>executed_hashes := executed_hashes (p_action P)\<rparr>
     \<and> executed_hashes (p_action P) \<subseteq>\<^sub>m executed_hashes s)"

lemma rejected_state:
  assumes "process_action_message E s m t c = Some (Err e, s')"
  shows "\<exists>h. s' = s\<lparr>executed_hashes := h\<rparr> \<and> h \<subseteq>\<^sub>m executed_hashes s"
proof -
  have "s' = s \<or> s' = action_prune s t c"
    using assms by (rule process_engine_cases) (metis sovereign.rejected_cases permissionless.rejected_cases)+
  moreover have "action_prune s t c = s\<lparr>executed_hashes := executed_hashes (action_prune s t c)\<rparr>"
    by (simp add: action_prune_def)
  moreover have "executed_hashes (action_prune s t c) \<subseteq>\<^sub>m executed_hashes s"
    by (auto simp: action_prune_def map_le_def dom_def split: option.splits if_splits)
  moreover have "s = s\<lparr>executed_hashes := executed_hashes s\<rparr>" by simp
  ultimately show ?thesis by (metis map_le_refl)
qed

lemma durable_weaken:
  assumes "durable E P" and "h \<subseteq>\<^sub>m executed_hashes (p_action P)"
  shows "durable E (P\<lparr>p_action := (p_action P)\<lparr>executed_hashes := h\<rparr>\<rparr>)"
proof -
  obtain s f where l: "\<And>io. load_action_from_disk E io (p_file P) = (Some s, f)"
    and e: "p_action P = s\<lparr>executed_hashes := executed_hashes (p_action P)\<rparr>"
    and m: "executed_hashes (p_action P) \<subseteq>\<^sub>m executed_hashes s"
    using assms(1) by (auto simp: durable_def)
  have "(p_action P)\<lparr>executed_hashes := h\<rparr> = s\<lparr>executed_hashes := h\<rparr>" by (subst e) simp
  with l m assms(2) show ?thesis by (simp add: durable_def) (metis map_le_trans)
qed

lemma handle_action_durable:
  assumes "bincode_laws E" and "durable E P" and "handle_action_gossip E True rest current P = Some P'" and "encodable E P'"
  shows "durable E P'"
proof (cases "slice_signed_action E rest")
  case None
  with assms show ?thesis by (simp add: handle_action_gossip_def)
next
  case (Some m)
  then obtain r s' where p: "process_action_message E (p_action P) m current (node_action_config E) = Some (r, s')"
    using assms(3) by (auto simp: handle_action_gossip_def split: option.splits)
  show ?thesis
  proof (cases r)
    case (Inl e)
    then obtain h where "s' = (p_action P)\<lparr>executed_hashes := h\<rparr>" "h \<subseteq>\<^sub>m executed_hashes (p_action P)"
      using rejected_state p by blast
    moreover have "P' = P\<lparr>p_action := s'\<rparr>"
      using assms(3) p Some Inl by (simp add: handle_action_gossip_def)
    ultimately show ?thesis using durable_weaken [OF assms(2)] by simp
  next
    case (Inr e)
    have "p_action P' = s'" using assms(3) p Some Inr by (auto simp: handle_action_gossip_def)
    then obtain b where "bincode_action E s' = Some b" "unbincode_action E b = Some s'"
      using assms(1,4) by (auto simp: bincode_laws_def encodable_def)
    then show ?thesis
      using assms(3) p Some Inr
      by (auto simp: durable_def handle_action_gossip_def save_action_to_disk_def load_action_from_disk_def)
  qed
qed

text \<open>The states of a process between which only gossip is handled, with a file system that works and
  states that can be encoded.\<close>

inductive gossip_run :: "'x time_env_scheme \<Rightarrow> ('s, 'y) storage_ops_scheme \<Rightarrow> 's process \<Rightarrow> 's process \<Rightarrow> bool"
  for E S where
  start: "gossip_run E S P P"
| daemon: "gossip_run E S P P' \<Longrightarrow> daemon_gossip E S True now topic payload mid source P' = Some P''
    \<Longrightarrow> encodable E P'' \<Longrightarrow> gossip_run E S P P''"
| node: "gossip_run E S P P' \<Longrightarrow> node_gossip E S provider get True now topic payload P' = Some P''
    \<Longrightarrow> encodable E P'' \<Longrightarrow> gossip_run E S P P''"
| host: "gossip_run E S P P' \<Longrightarrow> host_gossip E S provider get True now topic payload P' = Some P''
    \<Longrightarrow> encodable E P'' \<Longrightarrow> gossip_run E S P P''"

lemma durable_keep:
  "durable E P \<Longrightarrow> p_action P' = p_action P \<Longrightarrow> p_file P' = p_file P \<Longrightarrow> durable E P'"
  by (simp add: durable_def)

lemma durable_frame [simp]:
  "durable E (report_gossip mid source b P) = durable E P" "durable E (accept_kyn E' S k P) = durable E P"
  "durable E (P\<lparr>p_storage := st\<rparr>) = durable E P"
  by (simp_all add: durable_def)

lemma daemon_gossip_durable:
  assumes "bincode_laws E" and "durable E P" and "daemon_gossip E S True now topic payload mid source P = Some P'"
    and "encodable E P'"
  shows "durable E P'"
proof -
  have *: "durable E P'" if a: "process_action_gossip E S True now rest mid source P = Some P'" for rest
  proof (cases "p_poisoned P")
    case True
    with a assms(2) show ?thesis
      by (auto simp: process_action_gossip_def Let_def split: option.splits)
  next
    case False
    from daemon_action [OF False refl, where E = E and S = S and now = now and io = True and rest = rest
        and mid = mid and source = source, symmetric] a
    obtain P1 where "handle_action_gossip E True rest (case load_cached E S (p_storage P) of
        Inr k \<Rightarrow> rk_kyn E k | Inl _ \<Rightarrow> now_local now (BEACON_GENESIS E)) P = Some P1"
      and "p_action P' = p_action P1" "p_file P' = p_file P1" by auto
    with handle_action_durable [OF assms(1,2)] assms(4) show ?thesis
      using durable_keep by (metis encodable_def)
  qed
  show ?thesis
    using assms(2,3) *
    by (auto simp: daemon_gossip_def process_kyn_gossip_def
        split: if_splits list.splits option.splits)
qed

lemma node_gossip_durable:
  assumes "bincode_laws E" and "durable E P" and "node_gossip E S provider get True now topic payload P = Some P'"
    and "encodable E P'"
  shows "durable E P'"
  using assms(2,3)
  by (auto simp: node_gossip_def Let_def split: if_splits list.splits option.splits prod.splits
      elim!: handle_action_durable [OF assms(1), rotated, OF _ assms(4)])

lemma host_gossip_durable:
  assumes "bincode_laws E" and "durable E P" and "host_gossip E S provider get True now topic payload P = Some P'"
    and "encodable E P'"
  shows "durable E P'"
proof -
  have "P' = P \<or> (\<exists>st. P' = P\<lparr>p_storage := st\<rparr>)
      \<or> (\<exists>rest current st. handle_action_gossip E True rest current (P\<lparr>p_storage := st\<rparr>) = Some P')"
  proof (cases "topic = NETWORK_SALT_HEX E \<and> payload \<noteq> [] \<and> hd payload = opcode_byte OpAction")
    case True
    then obtain rest where r: "payload = opcode_byte OpAction # rest" by (cases payload) auto
    show ?thesis
    proof (cases "slice_signed_action E rest")
      case (Some m)
      obtain current st where c: "(case load_cached E S (p_storage P) of
            Inr k \<Rightarrow> (rk_kyn E k, p_storage P)
          | Inl _ \<Rightarrow> (let (latest, st) = fetch_latest E S provider get now (p_storage P)
               in case latest of Inr k \<Rightarrow> (rk_kyn E k, st) | Inl _ \<Rightarrow> (now_local now (BEACON_GENESIS E), st))) = (current, st)"
        by (rule prod.exhaust)
      have "handle_action_gossip E True rest current (P\<lparr>p_storage := st\<rparr>) = Some P'" if "\<not> p_poisoned P"
        using assms(3) True Some c that by (simp add: host_gossip_def r handle_action_gossip_def Let_def)
      moreover have "P' = P\<lparr>p_storage := st\<rparr>" if "p_poisoned P"
        using assms(3) True Some c that by (simp add: host_gossip_def r Let_def)
      ultimately show ?thesis by blast
    qed (use assms(3) True in \<open>simp add: host_gossip_def r\<close>)
  qed (use assms(3) in \<open>auto simp: host_gossip_def split: if_splits list.splits\<close>)
  then show ?thesis
    using handle_action_durable [OF assms(1) _ _ assms(4)] assms(2) by (metis durable_frame(3))
qed

section \<open>Correctness of time and actions outside the event loop\<close>


text \<open>C16. The time of a node can be set without a signature: a pulse that carries the flag
  \<open>is_unavailable\<close>, which is read from the message, passes the validation of the event loop, and
  the daemon and the node take over its number if it is later than theirs.\<close>

theorem unsigned_time_accepted:
  assumes "slice_raw_kyn E rest = Some k" and "is_unavailable k"
    and "latest_kyn_of E (load_cached E S (p_storage P)) < rk_kyn E k"
    and "msg = opcode_byte OpKyn # rest" and "topic = NETWORK_SALT_HEX E"
  shows "validate_gossip E G topic msg = Some True
    \<and> (\<exists>P'. daemon_gossip E S io now topic msg mid source P = Some P' \<and> p_kyn P' = rk_kyn E k
          \<and> last (p_reports P') = (mid, source, True))
    \<and> (\<exists>P'. node_gossip E S provider get io now topic msg P = Some P' \<and> p_kyn P' = rk_kyn E k)"
proof -
  have v: "verify_beacon E k b" for b using assms(2) by (simp add: verify_beacon_def)
  have o: "opcode_byte OpKyn \<noteq> opcode_byte OpAction" by simp
  have "validate_gossip E G topic msg = Some True"
    by (simp add: validate_gossip_def assms v)
  moreover have "daemon_gossip E S io now topic msg mid source P = Some (report_gossip mid source True (accept_kyn E S k P))"
    using o by (simp add: daemon_gossip_def process_kyn_gossip_def assms v)
  moreover have "node_gossip E S provider get io now topic msg P = Some (accept_kyn E S k P)"
    using o by (simp add: node_gossip_def assms v)
  ultimately show ?thesis using assms(3) by (simp add: accept_kyn_time) (simp add: report_gossip_def)
qed

text \<open>Daemon, node and host agree: at the same time, a gossiped action takes the three programs
  from the same action state to the same action state, file and published log (or all panic).\<close>

lemma action_gossip_agrees:
  assumes "\<not> p_poisoned P" and "load_cached E S (p_storage P) = Ok k"
    and "fetch_latest E S provider get now (p_storage P) = (Ok k', st)" and "rk_kyn E k' = rk_kyn E k"
    and "view = map_option (\<lambda>P. (p_action P, p_file P, p_action_logs P))"
    and "topic = NETWORK_SALT_HEX E" and "msg = opcode_byte OpAction # rest"
  shows "view (daemon_gossip E S io now topic msg mid source P) = view (node_gossip E S provider get io now topic msg P)
    \<and> view (host_gossip E S provider get io now topic msg P) = view (node_gossip E S provider get io now topic msg P)"
proof -
  have n: "view (node_gossip E S provider get io now topic msg P) = view (handle_action_gossip E io rest (rk_kyn E k) P)"
    unfolding assms(5-7) node_action [OF assms(3)] assms(4) by (rule handle_action_frame)
  have d: "view (daemon_gossip E S io now topic msg mid source P) = view (handle_action_gossip E io rest (rk_kyn E k) P)"
    unfolding assms(5-7) by (simp add: daemon_gossip_def daemon_action [OF assms(1)] assms(2))
  have h: "view (host_gossip E S provider get io now topic msg P) = view (handle_action_gossip E io rest (rk_kyn E k) P)"
    unfolding assms(6,7) host_action [OF assms(1,2)] by (rule refl)
  show ?thesis by (simp add: n d h)
qed


text \<open>A daemon for the witnesses: a cached pulse, an action state that was never changed, and codecs
  that know three pulses and one action.\<close>

definition sample_pulse :: "u64 \<Rightarrow> bool \<Rightarrow> raw_kyn" where
  "sample_pulse k b = \<lparr>beacon_idx = k, randomness = ''ab'', rk_signature = ''ab'', is_from_cache = False, is_unavailable = b\<rparr>"

definition sample_time :: time_env where
  "sample_time = event_env.extend
     (sample_node\<lparr>hex_decode := \<lambda>s. Some (as_bytes s), BEACON_PUBLIC_KEY := replicate 96 CHR ''0'',
        slice_raw_kyn := \<lambda>b. Some (if b = [7] then sample_pulse 5000 True else if b = [8] then sample_pulse 60 False else sample_pulse 50 False),
        slice_signed_action := \<lambda>_. Some sample_halt, node_action_config := sample_config\<rparr>)
     (time_env.fields (\<lambda>_. Some [9]) (\<lambda>_. Some [3]) (\<lambda>_. Some [''satoshi.kin'']) (\<lambda>s. if s = sample_s1 then Some [1] else None)
       (\<lambda>b. if b = [1] then Some sample_s1 else None) [1] [1] 65536 0)"

definition sample_process :: "bytes wasm_storage process" where
  "sample_process = \<lparr>p_storage = Some \<lparr>db = [([1], [0])], opfs_handle = None\<rparr>, p_action = action_state_new 0, p_poisoned = False,
     p_file = Absent, p_kyn = 50, p_reports = [], p_action_logs = [], p_broadcasts = [], p_heartbeats = []\<rparr>"

definition sample_provider :: beacon_provider where
  "sample_provider = \<lparr>bp_endpoints = [], beacon_seed_domain = [], bp_txt_lookup = \<lambda>_. None\<rparr>"

lemmas sample_time_simps = sample_time_def event_env.defs time_env.defs sample_node_simps sample_store_simps

abbreviation sample_engine :: "bytes wasm_storage storage_ops" where
  "sample_engine \<equiv> wasm_ops memory_file"

lemma sample_time_fields:
  "slice_raw_kyn sample_time [7] = Some (sample_pulse 5000 True)" "slice_raw_kyn sample_time [8] = Some (sample_pulse 60 False)"
  "slice_raw_kyn sample_time [0] = Some (sample_pulse 50 False)" "slice_signed_action sample_time b = Some sample_halt"
  "node_action_config sample_time = sample_config" "\<not> dev_mode sample_time" "DB_PREFIX_LAST_KYN sample_time = [1]"
  "rk_kyn sample_time r = beacon_idx r" "bincode_action sample_time sample_s1 = Some [1]"
  "hex_decode sample_time s = Some (as_bytes s)" "BEACON_PUBLIC_KEY sample_time = replicate 96 CHR ''0''"
  "bls_key_ok sample_time pk" "bls_verify sample_time pk i sig = Some True" "sha256 sample_time = id"
  by (simp_all add: sample_time_simps rk_kyn_def)

lemma sample_cached: "load_cached sample_time sample_engine (p_storage sample_process) = Ok (sample_pulse 50 False\<lparr>is_from_cache := True\<rparr>)"
  by (simp add: load_cached_def sample_process_def sample_time_fields wasm_ops_def storage_get_def)

lemma sample_latest: "latest_kyn_of sample_time (load_cached sample_time sample_engine (p_storage sample_process)) = 50"
  by (simp add: sample_cached latest_kyn_of_def sample_time_fields sample_pulse_def)

lemma sample_beacon_ok: "verify_beacon sample_time (sample_pulse 60 False) False"
  by (simp add: verify_beacon_def verify_beacon_signature_def sample_time_fields sample_pulse_def as_bytes_def)

lemma sample_daemon_pulse:
  "daemon_gossip sample_time sample_engine True 0 (NETWORK_SALT_HEX sample_time) (opcode_byte OpKyn # [8]) [1] [2] sample_process
     = Some (report_gossip [1] [2] True (accept_kyn sample_time sample_engine (sample_pulse 60 False) sample_process))"
  by (simp add: daemon_gossip_def process_kyn_gossip_def sample_time_fields sample_beacon_ok)


theorem unsigned_time_accepted_witness:
  "\<exists>P'. daemon_gossip sample_time sample_engine True 0 (NETWORK_SALT_HEX sample_time) (opcode_byte OpKyn # [7]) [1] [2] sample_process
     = Some P' \<and> p_kyn P' = 5000"
  using unsigned_time_accepted [OF sample_time_fields(1) _ _ refl refl, where S = sample_engine and P = sample_process
      and io = True and now = 0 and mid = "[1]" and source = "[2]" and G = None and provider = sample_provider
      and get = "\<lambda>_ _ _. Err []"]
  by (simp add: sample_latest sample_time_fields) (auto simp: sample_pulse_def)

lemma sample_fetch: "fetch_latest sample_time sample_engine sample_provider get now (p_storage sample_process)
    = (Ok (sample_pulse 50 False\<lparr>is_from_cache := True\<rparr>), p_storage sample_process)"
  by (simp add: fetch_latest_def sample_provider_def sample_time_fields sample_cached)

lemma sample_halted:
  "process_action_message sample_time (action_state_new 0) sample_halt 50 sample_config = Some (Ok (Some NetworkHalted), sample_s1)"
  by (simp add: sample_s1_eq sample_action_defs action_state_new_def sample_time_simps)

lemma sample_daemon_halt:
  "\<exists>P'. daemon_gossip sample_time sample_engine True 0 (NETWORK_SALT_HEX sample_time) (opcode_byte OpAction # []) [1] [2] sample_process
     = Some P' \<and> p_action P' = sample_s1 \<and> encodable sample_time P'"
  by (simp add: daemon_gossip_def process_action_gossip_def sample_time_fields sample_cached)
     (simp add: sample_process_def sample_pulse_def sample_halted encodable_def sample_time_fields)


text \<open>A live answer of the beacon client passed the check of the beacon and is at most 200 kyns
  behind the clock; no such bound holds for times ahead of it.\<close>

lemma fetch_endpoints_live:
  assumes "fetch_endpoints E S get now i es st = (Ok k, st')" and "\<not> is_from_cache k"
  shows "\<exists>k0. verify_beacon E k0 (dev_mode E) \<and> k = k0\<lparr>is_from_cache := False, is_unavailable := False\<rparr>
    \<and> unat (saturating_sub (saturating_sub now (BEACON_GENESIS E)) (rk_kyn E k)) \<le> 200"
  using assms
proof (induction E S get now i es st rule: fetch_endpoints.induct)
  case (1 E S get now i st)
  then show ?case
    by (auto simp: load_cached_def mock_kyn_def and_then_Ok split: sum.splits option.splits if_splits)
next
  case (2 E S get now i e es st)
  show ?case
  proof (cases "fetch_with_backoff E (get i e)")
    case (Inl x)
    with 2 show ?thesis by simp
  next
    case (Inr k0)
    show ?thesis
    proof (cases "verify_beacon E k0 (dev_mode E) \<and> \<not> MAX_STALE_ROUNDS
        < saturating_sub (saturating_sub now (BEACON_GENESIS E)) (rk_kyn E k0)")
      case True
      with 2(4) Inr have k: "k = k0\<lparr>is_from_cache := False, is_unavailable := False\<rparr>" by (auto simp: Let_def)
      have "rk_kyn E k = rk_kyn E k0" by (simp add: k rk_kyn_def)
      with True k show ?thesis by (auto simp: MAX_STALE_ROUNDS_def word_less_nat_alt)
    next
      case False
      with 2 Inr show ?thesis by (auto simp: Let_def split: if_splits)
    qed
  qed
qed

text \<open>An action file that cannot be decoded stops the process once: it has been renamed, so the next
  start begins with a fresh state.\<close>

lemma corrupt_file_resets:
  assumes "unbincode_action E b = None" and "load_action_from_disk E True (Holds b) = (r, f)"
  shows "r = None \<and> load_action_from_disk E True f = (Some (action_state_new (KYN_GENESIS E)), f)"
  using assms by (auto simp: load_action_from_disk_def)

section \<open>Heartbeats of the daemon\<close>

text \<open>The first half of a tick only fetches the time.\<close>

definition tick_time ::
  "'x time_env_scheme \<Rightarrow> ('s, 'y) storage_ops_scheme \<Rightarrow> beacon_provider
     \<Rightarrow> (nat \<Rightarrow> string \<Rightarrow> nat \<Rightarrow> (string, beacon_reply) result) \<Rightarrow> bool \<Rightarrow> u64 \<Rightarrow> 's process \<Rightarrow> raw_kyn \<times> 's process" where
  "tick_time E S provider get p2p_only now P =
     (if wants_http E p2p_only (now - BEACON_GENESIS E) (load_cached E S (p_storage P)) then
        let (r, st) = fetch_latest E S provider get now (p_storage P);
            P = P\<lparr>p_storage := st\<rparr>
        in case r of
             Inr k \<Rightarrow> (k, announce_kyn E p2p_only k P)
           | Inl _ \<Rightarrow> (case load_cached E S st of Inr k \<Rightarrow> (k, P) | Inl _ \<Rightarrow> (unavailable, P))
      else (case load_cached E S (p_storage P) of Inr k \<Rightarrow> (k, P) | Inl _ \<Rightarrow> (unavailable, P)))"

lemma announce_kyn_heartbeats [simp]: "p_heartbeats (announce_kyn E b k P) = p_heartbeats P"
  by (simp add: announce_kyn_def Let_def split: option.split)

lemma tick_time_heartbeats: "p_heartbeats (snd (tick_time E S provider get b now P)) = p_heartbeats P"
  by (simp add: tick_time_def Let_def split: prod.split sum.split)

definition owned_names :: "'x time_env_scheme \<Rightarrow> ('s, 'y) storage_ops_scheme \<Rightarrow> 's option \<Rightarrow> string list option" where
  "owned_names E S st =
     Option.bind (case st of None \<Rightarrow> None | Some s \<Rightarrow> (case st_get S s (DB_PREFIX_OWNED_NAMES E) of Inr b \<Rightarrow> b | Inl _ \<Rightarrow> None))
       (slice_names E)"

lemma tick_unfold:
  "daemon_heartbeat_tick E S provider get p2p_only key now instant (H, P) =
     (case tick_time E S provider get p2p_only now P of (k, P) \<Rightarrow>
      if is_unavailable k then (H, P)
      else
        let H = (if last_known_live_kyn H < rk_kyn E k then H\<lparr>last_known_live_kyn := rk_kyn E k\<rparr> else H)
        in if \<not> can_heartbeat E k (last_known_live_kyn H) \<or> instant < next_hb H then (H, P)
           else (H\<lparr>next_hb := instant + 30 * 10 ^ 9\<rparr>,
             case owned_names E S (p_storage P) of
               Some names \<Rightarrow> publish_heartbeats E key (rk_kyn E k) names P | None \<Rightarrow> P))"
  unfolding daemon_heartbeat_tick_def tick_time_def owned_names_def
  by (auto simp: Let_def split: prod.splits option.splits)

lemma sign_heartbeat_verifies:
  assumes "signing_sound E key"
  shows "verify_signature E (mldsa_pubkey E key)
    (heartbeat_signable_bytes (sign_heartbeat E key k name) (NETWORK_SALT E)) (hb_owner_signature (sign_heartbeat E key k name)) = Ok ()"
proof -
  have "heartbeat_signable_bytes (sign_heartbeat E key k name) salt
      = heartbeat_signable_bytes \<lparr>hb_name = name, latest_kyn = k, hb_owner_signature = [], hb_authorization = None\<rparr> salt" for salt
    by (simp add: sign_heartbeat_def heartbeat_signable_bytes_def)
  moreover have "hb_owner_signature (sign_heartbeat E key k name) = mldsa_sign E key (heartbeat_signable_bytes
      \<lparr>hb_name = name, latest_kyn = k, hb_owner_signature = [], hb_authorization = None\<rparr> (NETWORK_SALT E))"
    by (simp add: sign_heartbeat_def)
  ultimately show ?thesis using assms by (simp add: verify_signature_Ok_iff signing_sound_def)
qed

text \<open>Heartbeats of the daemon: the latest kyn it has seen never decreases, and a tick sends
  heartbeats only after a pause of 30 seconds, for names its storage lists as owned, for one pulse
  that is live or, when it is cached, at most 600 kyns behind the latest kyn seen; each heartbeat
  verifies under the daemon's key.\<close>

lemma heartbeat_tick_sound:
  assumes "daemon_heartbeat_tick E S provider get p2p_only key now instant (H, P) = (H', P')"
    and "signing_sound E key"
  shows "last_known_live_kyn H \<le> last_known_live_kyn H'
    \<and> (p_heartbeats P' \<noteq> p_heartbeats P \<longrightarrow>
        next_hb H \<le> instant \<and> next_hb H' = instant + 30 * 10 ^ 9
        \<and> (\<exists>k names hbs. \<not> is_unavailable k
             \<and> (is_from_cache k \<longrightarrow> saturating_sub (last_known_live_kyn H') (rk_kyn E k) \<le> 600)
             \<and> p_heartbeats P' = p_heartbeats P @ hbs \<and> owned_names E S (p_storage P') = Some names
             \<and> (\<forall>(name, b)\<in>set hbs. name \<in> set names
                  \<and> (\<exists>hb. vec_heartbeat E hb = Some b \<and> hb_name hb = name \<and> latest_kyn hb = rk_kyn E k
                       \<and> verify_signature E (mldsa_pubkey E key) (heartbeat_signable_bytes hb (NETWORK_SALT E))
                           (hb_owner_signature hb) = Ok ()))))"
proof -
  obtain k P1 where t: "tick_time E S provider get p2p_only now P = (k, P1)" by fastforce
  have P1: "p_heartbeats P1 = p_heartbeats P" using tick_time_heartbeats t by (metis snd_conv)
  let ?H = "if last_known_live_kyn H < rk_kyn E k then H\<lparr>last_known_live_kyn := rk_kyn E k\<rparr> else H"
  have live: "last_known_live_kyn H \<le> last_known_live_kyn ?H" by (simp add: order.strict_implies_order)
  show ?thesis
  proof (cases "is_unavailable k \<or> \<not> can_heartbeat E k (last_known_live_kyn ?H) \<or> instant < next_hb ?H
      \<or> owned_names E S (p_storage P1) = None")
    case True
    then have "p_heartbeats P' = p_heartbeats P \<and> last_known_live_kyn H \<le> last_known_live_kyn H'"
      using assms(1) live P1 unfolding tick_unfold t by (auto simp: Let_def split: if_splits)
    then show ?thesis by blast
  next
    case False
    then obtain names where n: "owned_names E S (p_storage P1) = Some names" by auto
    let ?hbs = "List.map_filter (\<lambda>name. map_option (Pair name) (vec_heartbeat E (sign_heartbeat E key (rk_kyn E k) name))) names"
    have r: "H' = ?H\<lparr>next_hb := instant + 30 * 10 ^ 9\<rparr>" "P' = publish_heartbeats E key (rk_kyn E k) names P1"
      using assms(1) False n unfolding tick_unfold t by (auto simp: Let_def split: if_splits)
    have "is_from_cache k \<longrightarrow> saturating_sub (last_known_live_kyn ?H) (rk_kyn E k) \<le> 600"
      using False unfolding can_heartbeat_def MAX_STALE_ROUNDS_FOR_HEARTBEAT_def by metis
    moreover have "name \<in> set names \<and> (\<exists>hb. vec_heartbeat E hb = Some b \<and> hb_name hb = name \<and> latest_kyn hb = rk_kyn E k
          \<and> verify_signature E (mldsa_pubkey E key) (heartbeat_signable_bytes hb (NETWORK_SALT E)) (hb_owner_signature hb) = Ok ())"
      if "(name, b) \<in> set ?hbs" for name b
      using that sign_heartbeat_verifies [OF assms(2)]
      by (auto simp: set_map_filter) (auto simp: sign_heartbeat_def)
    ultimately show ?thesis
      using False n P1 live by (auto simp: r publish_heartbeats_def split: if_splits)
  qed
qed

lemma sample_tick_time:
  "tick_time sample_time sample_engine sample_provider get False now sample_process
     = (sample_pulse 50 False\<lparr>is_from_cache := True\<rparr>, sample_process)"
  by (simp add: tick_time_def wants_http_def sample_fetch announce_kyn_def)

lemma sample_owned: "owned_names sample_time sample_engine (p_storage sample_process) = Some [''satoshi.kin'']"
  by (simp add: owned_names_def sample_process_def wasm_ops_def storage_get_def sample_time_simps)

end
