(* ===== verification/Api_Auth.thy ===== *)
theory Api_Auth
  imports Time_Sync "HOL-Library.Countable"
begin

text \<open>
  Authentication of the daemon's HTTP API (\<open>kinetic-daemon/src/api/mod.rs\<close>, \<open>auth.rs\<close>): the ten
  scoped tokens, session tokens for applications, and the middleware that turns a request header
  into a role. Random bytes, identifiers and clocks are arguments; JSON is a parameter. A panic of
  the blocking pool is left out.
\<close>

section \<open>Roles and tokens (api/mod.rs)\<close>

record role =
  r_is_admin :: bool
  r_kid :: bool
  r_nrs :: bool
  r_vdf :: bool
  r_action :: bool
  r_gossip :: bool
  r_metric :: bool
  r_system :: bool
  r_atlas :: bool
  r_heartbeat :: bool

definition can_kid :: "role \<Rightarrow> bool" where "can_kid self = (r_is_admin self \<or> r_kid self)"
definition can_nrs :: "role \<Rightarrow> bool" where "can_nrs self = (r_is_admin self \<or> r_nrs self)"
definition can_vdf :: "role \<Rightarrow> bool" where "can_vdf self = (r_is_admin self \<or> r_vdf self)"
definition can_action :: "role \<Rightarrow> bool" where "can_action self = (r_is_admin self \<or> r_action self)"
definition can_gossip :: "role \<Rightarrow> bool" where "can_gossip self = (r_is_admin self \<or> r_gossip self)"
definition can_metric :: "role \<Rightarrow> bool" where "can_metric self = (r_is_admin self \<or> r_metric self)"
definition can_system :: "role \<Rightarrow> bool" where "can_system self = (r_is_admin self \<or> r_system self)"
definition can_atlas :: "role \<Rightarrow> bool" where "can_atlas self = (r_is_admin self \<or> r_atlas self)"
definition role_can_heartbeat :: "role \<Rightarrow> bool" where
  "role_can_heartbeat self = (r_is_admin self \<or> r_heartbeat self)"

definition no_role :: role where
  "no_role = \<lparr>r_is_admin = False, r_kid = False, r_nrs = False, r_vdf = False, r_action = False, r_gossip = False,
     r_metric = False, r_system = False, r_atlas = False, r_heartbeat = False\<rparr>"

definition admin_role :: role where
  "admin_role = \<lparr>r_is_admin = True, r_kid = True, r_nrs = True, r_vdf = True, r_action = True, r_gossip = True,
     r_metric = True, r_system = True, r_atlas = True, r_heartbeat = True\<rparr>"

record api_tokens =
  t_admin :: string
  t_kid :: string
  t_nrs :: string
  t_vdf :: string
  t_action :: string
  t_gossip :: string
  t_metric :: string
  t_system :: string
  t_atlas :: string
  t_heartbeat :: string

definition token_roles :: "api_tokens \<Rightarrow> (string \<times> role) list" where
  "token_roles t =
     [(t_admin t, admin_role), (t_kid t, no_role\<lparr>r_kid := True\<rparr>), (t_nrs t, no_role\<lparr>r_nrs := True\<rparr>),
      (t_vdf t, no_role\<lparr>r_vdf := True\<rparr>), (t_action t, no_role\<lparr>r_action := True\<rparr>),
      (t_gossip t, no_role\<lparr>r_gossip := True\<rparr>), (t_metric t, no_role\<lparr>r_metric := True\<rparr>),
      (t_system t, no_role\<lparr>r_system := True\<rparr>), (t_atlas t, no_role\<lparr>r_atlas := True\<rparr>),
      (t_heartbeat t, no_role\<lparr>r_heartbeat := True\<rparr>)]"

text \<open>\<open>check_token\<close>: a later match replaces an earlier one.\<close>

definition check_token :: "string \<Rightarrow> string \<times> role \<Rightarrow> role option \<Rightarrow> role option" where
  "check_token provided tr matched_role = (if provided = fst tr then Some (snd tr) else matched_role)"

definition match_tokens :: "string \<Rightarrow> api_tokens \<Rightarrow> role option" where
  "match_tokens provided t = fold (check_token provided) (token_roles t) None"

section \<open>Sessions (api/auth.rs)\<close>

record app_session =
  as_id :: string
  as_token :: string
  as_app_name :: string
  as_scopes :: "string list"
  as_created_at :: u64
  as_expiry_kyn :: kyn

record create_session_request =
  cs_app_name :: string
  cs_scopes :: "string list"
  cs_expiry_kyn :: kyn

datatype rest_api_error =
    InvalidToken | SseStreamLagged | ResponseTooLarge | InsufficientPrivileges | ApiNotFound
  | BadRequest string | InternalServerError string

definition rest_status :: "rest_api_error \<Rightarrow> nat" where
  "rest_status e =
     (case e of InvalidToken \<Rightarrow> 401 | InsufficientPrivileges \<Rightarrow> 403 | ApiNotFound \<Rightarrow> 404 | BadRequest _ \<Rightarrow> 400
      | SseStreamLagged \<Rightarrow> 500 | ResponseTooLarge \<Rightarrow> 500 | InternalServerError _ \<Rightarrow> 500)"

datatype auth_error = AuthRest rest_api_error | AuthStorage storage_error

record api_env = time_env +
  vec_session :: "app_session \<Rightarrow> bytes"
  slice_session :: "bytes \<Rightarrow> app_session option"

abbreviation lower :: "'x crypto_scheme \<Rightarrow> string \<Rightarrow> string" where
  "lower E \<equiv> to_lowercase (unicode_lowercase E)"

definition session_key :: "string \<Rightarrow> bytes" where
  "session_key sid = as_bytes (''session:'' @ sid)"

definition session_token_key :: "string \<Rightarrow> bytes" where
  "session_token_key token = as_bytes (''session_token:'' @ token)"

definition handle_create_session ::
  "'x api_env_scheme \<Rightarrow> ('s, 'y) storage_ops_scheme \<Rightarrow> role \<Rightarrow> create_session_request \<Rightarrow> bytes \<Rightarrow> string \<Rightarrow> u64 \<Rightarrow> 's
     \<Rightarrow> (auth_error, string \<times> string) result \<times> 's" where
  "handle_create_session E S role req rand_bytes uuid now st =
     (if \<not> r_is_admin role then (Err (AuthRest InsufficientPrivileges), st)
      else if list_ex (\<lambda>s. lower E s = ''admin'') (cs_scopes req)
      then (Err (AuthRest (BadRequest ''Cannot generate secondary Admin tokens'')), st)
      else if cs_scopes req = [] then (Err (AuthRest (BadRequest ''At least one scope must be requested'')), st)
      else
        let token = to_hex rand_bytes;
            session = \<lparr>as_id = uuid, as_token = token, as_app_name = cs_app_name req, as_scopes = cs_scopes req,
              as_created_at = now, as_expiry_kyn = cs_expiry_kyn req\<rparr>;
            (r, st) = st_put S st (session_key uuid) (vec_session E session)
        in case r of
             Inl e \<Rightarrow> (Err (AuthStorage e), st)
           | Inr _ \<Rightarrow>
               (let (r, st) = st_put S st (session_token_key token) (as_bytes uuid)
                in case r of Inl e \<Rightarrow> (Err (AuthStorage e), st) | Inr _ \<Rightarrow> (Ok (uuid, token), st)))"

definition handle_list_sessions ::
  "'x api_env_scheme \<Rightarrow> ('s, 'y) storage_ops_scheme \<Rightarrow> role \<Rightarrow> 's \<Rightarrow> (auth_error, app_session list) result" where
  "handle_list_sessions E S role st =
     (if \<not> r_is_admin role then Err (AuthRest InsufficientPrivileges)
      else Ok (case st_scan_prefix S st (as_bytes ''session:'') None of
          Inr entries \<Rightarrow>
            List.map_filter (\<lambda>(k, v).
              if starts_with k (as_bytes ''session_token:'') then None
              else map_option (\<lambda>session. session\<lparr>as_token := ''hidden''\<rparr>) (slice_session E v)) entries
        | Inl _ \<Rightarrow> []))"

definition handle_revoke_session ::
  "'x api_env_scheme \<Rightarrow> ('s, 'y) storage_ops_scheme \<Rightarrow> role \<Rightarrow> string \<Rightarrow> 's \<Rightarrow> (auth_error, unit) result \<times> 's" where
  "handle_revoke_session E S role sid st =
     (if \<not> r_is_admin role then (Err (AuthRest InsufficientPrivileges), st)
      else case st_get S st (session_key sid) of
        Inr (Some bytes) \<Rightarrow>
          (let st = (case slice_session E bytes of
                       Some session \<Rightarrow> snd (st_delete S st (session_token_key (as_token session)))
                     | None \<Rightarrow> st);
               (r, st) = st_delete S st (session_key sid)
           in (map_err AuthStorage r, st))
      | _ \<Rightarrow> (Err (AuthRest ApiNotFound), st))"

section \<open>The middleware (api/mod.rs)\<close>

text \<open>\<open>String::from_utf8\<close>\<close>

definition string_from_utf8 :: "bytes \<Rightarrow> string option" where
  "string_from_utf8 bs = from_utf8 (map (\<lambda>b. char_of (unat b)) bs)"

definition grant_scope :: "'x crypto_scheme \<Rightarrow> string \<Rightarrow> role \<Rightarrow> role" where
  "grant_scope E scope r =
     (let s = lower E scope in
      if s = ''admin'' then r\<lparr>r_is_admin := True\<rparr>
      else if s = ''kid'' then r\<lparr>r_kid := True\<rparr>
      else if s = ''nrs'' then r\<lparr>r_nrs := True\<rparr>
      else if s = ''vdf'' then r\<lparr>r_vdf := True\<rparr>
      else if s = ''action'' then r\<lparr>r_action := True\<rparr>
      else if s = ''gossip'' then r\<lparr>r_gossip := True\<rparr>
      else if s = ''metric'' then r\<lparr>r_metric := True\<rparr>
      else if s = ''system'' then r\<lparr>r_system := True\<rparr>
      else if s = ''atlas'' then r\<lparr>r_atlas := True\<rparr>
      else if s = ''heartbeat'' then r\<lparr>r_heartbeat := True\<rparr>
      else r)"

definition session_role :: "'x crypto_scheme \<Rightarrow> string list \<Rightarrow> role" where
  "session_role E scopes = fold (grant_scope E) scopes no_role"

text \<open>The session a token stands for.\<close>

definition find_session ::
  "'x api_env_scheme \<Rightarrow> ('s, 'y) storage_ops_scheme \<Rightarrow> string \<Rightarrow> 's \<Rightarrow> app_session option" where
  "find_session E S provided_token st =
     (case st_get S st (session_token_key provided_token) of
        Inr (Some id_bytes) \<Rightarrow>
          (case string_from_utf8 id_bytes of
             Some id_str \<Rightarrow>
               (case st_get S st (session_key id_str) of Inr (Some bytes) \<Rightarrow> slice_session E bytes | _ \<Rightarrow> None)
           | None \<Rightarrow> None)
      | _ \<Rightarrow> None)"

definition cached_kyn_or_0 :: "'x time_env_scheme \<Rightarrow> ('s, 'y) storage_ops_scheme \<Rightarrow> 's \<Rightarrow> kyn" where
  "cached_kyn_or_0 E S st = (case load_cached E S (Some st) of Inr k \<Rightarrow> rk_kyn E k | Inl _ \<Rightarrow> 0)"

text \<open>\<open>Err 401\<close> refuses the request. The header is \<open>None\<close> when it is missing or not text.\<close>

definition auth_middleware ::
  "'x api_env_scheme \<Rightarrow> ('s, 'y) storage_ops_scheme \<Rightarrow> api_tokens \<Rightarrow> string option \<Rightarrow> 's \<Rightarrow> (nat, role) result" where
  "auth_middleware E S tokens auth_header st =
     (case auth_header of
        None \<Rightarrow> Err 401
      | Some header \<Rightarrow>
          if \<not> starts_with header ''Bearer '' then Err 401
          else
            let provided_token = trim_start_matches ''Bearer '' header
            in (case match_tokens provided_token tokens of
                 Some r \<Rightarrow> Ok r
               | None \<Rightarrow>
                   (case find_session E S provided_token st of
                      None \<Rightarrow> Err 401
                    | Some session \<Rightarrow>
                        let current = cached_kyn_or_0 E S st
                        in if 0 < current \<and> as_expiry_kyn session < current then Err 401
                           else Ok (session_role E (as_scopes session)))))"

section \<open>Tokens\<close>

lemma trim_bearer: "\<not> starts_with token ''Bearer '' \<Longrightarrow> trim_start_matches ''Bearer '' (''Bearer '' @ token) = token"
  by (subst trim_start_matches.simps, simp add: starts_with_def, subst trim_start_matches.simps, simp add: starts_with_def)

lemma hex_not_bearer: "\<not> starts_with (to_hex bs) ''Bearer ''"
proof
  assume "starts_with (to_hex bs) ''Bearer ''"
  then have "CHR ''B'' \<in> set (to_hex bs)" by (auto simp: starts_with_iff)
  with to_hex_lower [of bs] show False by (auto simp: list_all_iff lower_hex_char_def char_class_defs code_def)
qed

lemma session_keys_apart [simp]: "session_key i \<noteq> session_token_key t" "session_token_key t \<noteq> session_key i"
  by (auto simp: session_key_def session_token_key_def simp flip: as_bytes_append)

lemma session_key_inj [simp]: "session_key i = session_key j \<longleftrightarrow> i = j"
  by (simp add: session_key_def)

lemma match_tokens_None: "match_tokens provided t = None \<longleftrightarrow> provided \<notin> fst ` set (token_roles t)"
  by (auto simp: match_tokens_def token_roles_def check_token_def)

lemma grant_scope_admin: "r_is_admin (grant_scope E scope r) \<longleftrightarrow> r_is_admin r \<or> lower E scope = ''admin''"
  by (simp add: grant_scope_def Let_def)

lemma session_role_admin: "r_is_admin (session_role E scopes) \<longleftrightarrow> list_ex (\<lambda>s. lower E s = ''admin'') scopes"
proof -
  have "r_is_admin (fold (grant_scope E) scopes r) \<longleftrightarrow> r_is_admin r \<or> list_ex (\<lambda>s. lower E s = ''admin'') scopes" for r
    by (induction scopes arbitrary: r) (auto simp: grant_scope_admin)
  then show ?thesis by (simp add: session_role_def no_role_def)
qed

lemma ascii_from_utf8: "list_all is_ascii s \<Longrightarrow> string_from_utf8 (as_bytes s) = Some s"
proof -
  assume a: "list_all is_ascii s"
  have "map (\<lambda>b. char_of (unat b)) (as_bytes s) = s"
    by (induction s) (simp_all add: as_bytes_def code_def unat_of_nat)
  moreover have "utf8_valid (map code s)"
    using a by (induction s) (simp_all add: is_ascii_def)
  ultimately show ?thesis by (simp add: string_from_utf8_def from_utf8_def)
qed

text \<open>The middleware on a token that is not one of the daemon's own.\<close>

lemma auth_session:
  assumes "\<not> starts_with token ''Bearer ''" and "token \<notin> fst ` set (token_roles tokens)"
  shows "auth_middleware E S tokens (Some (''Bearer '' @ token)) st =
    (case find_session E S token st of
       None \<Rightarrow> Err 401
     | Some s \<Rightarrow>
         if 0 < cached_kyn_or_0 E S st \<and> as_expiry_kyn s < cached_kyn_or_0 E S st then Err 401
         else Ok (session_role E (as_scopes s)))"
proof -
  have "starts_with (''Bearer '' @ token) ''Bearer ''" by (auto simp: starts_with_iff)
  moreover have "match_tokens token tokens = None" using assms(2) by (simp add: match_tokens_None)
  ultimately show ?thesis
    by (simp add: auth_middleware_def trim_bearer [OF assms(1)] Let_def split: option.split del: append.simps)
qed

section \<open>Sessions over a storage engine\<close>

text \<open>The stored sessions have no administrator scope.\<close>

definition session_safe :: "'x api_env_scheme \<Rightarrow> bytes \<Rightarrow> bytes \<Rightarrow> bool" where
  "session_safe E k b \<longleftrightarrow> (\<forall>sid s. k = session_key sid \<longrightarrow> slice_session E b = Some s
     \<longrightarrow> \<not> list_ex (\<lambda>s. lower E s = ''admin'') (as_scopes s))"

definition session_codec :: "'x api_env_scheme \<Rightarrow> bool" where
  "session_codec E \<longleftrightarrow> (\<forall>s. slice_session E (vec_session E s) = Some s)"

lemma find_session_eq:
  assumes "st_get S st (session_token_key token) = Ok (Some (as_bytes sid))" and "list_all is_ascii sid"
    and "st_get S st (session_key sid) = Ok b"
  shows "find_session E S token st = Option.bind b (slice_session E)"
  using assms by (simp add: find_session_def ascii_from_utf8 split: option.split)

lemma create_session_cases:
  assumes "handle_create_session E S role req rand uuid now st = (res, st')"
    and "session = \<lparr>as_id = uuid, as_token = to_hex rand, as_app_name = cs_app_name req,
        as_scopes = cs_scopes req, as_created_at = now, as_expiry_kyn = cs_expiry_kyn req\<rparr>"
  obtains (refused) "st' = st" "is_err res"
  | (first) r1 where "\<not> list_ex (\<lambda>s. lower E s = ''admin'') (cs_scopes req)"
      "st_put S st (session_key uuid) (vec_session E session) = (r1, st')" "is_err res"
  | (both) st1 r2 where "\<not> list_ex (\<lambda>s. lower E s = ''admin'') (cs_scopes req)"
      "st_put S st (session_key uuid) (vec_session E session) = (Ok (), st1)"
      "st_put S st1 (session_token_key (to_hex rand)) (as_bytes uuid) = (r2, st')"
      "res = Ok (uuid, to_hex rand) \<and> r2 = Ok () \<or> is_err res"
proof (cases "\<not> r_is_admin role \<or> list_ex (\<lambda>s. lower E s = ''admin'') (cs_scopes req) \<or> cs_scopes req = []")
  case True
  with assms show ?thesis by (intro refused) (auto simp: handle_create_session_def split: if_splits)
next
  case False
  obtain r1 st1 where p1: "st_put S st (session_key uuid) (vec_session E session) = (r1, st1)" by (rule prod.exhaust)
  obtain r2 st2 where p2: "st_put S st1 (session_token_key (to_hex rand)) (as_bytes uuid) = (r2, st2)" by (rule prod.exhaust)
  have e: "(res, st') = (case r1 of Inl e \<Rightarrow> (Err (AuthStorage e), st1)
      | Inr _ \<Rightarrow> (case r2 of Inl e \<Rightarrow> (Err (AuthStorage e), st2) | Inr _ \<Rightarrow> (Ok (uuid, to_hex rand), st2)))"
    using assms(1) [symmetric] False
    by (cases r1) (simp_all add: handle_create_session_def p1 [unfolded assms(2)] p2 Let_def)
  show ?thesis
  proof (cases r1)
    case (Inl x)
    with e False p1 show ?thesis by (intro first) auto
  next
    case (Inr u)
    with e False p1 p2 show ?thesis by (intro both [of st1 r2]) (auto split: sum.splits)
  qed
qed

lemma revoke_session_cases:
  assumes "handle_revoke_session E S role sid st = (res, st')"
  obtains (refused) "st' = st" "is_err res"
  | (revoked) st1 r where "st1 = st \<or> (\<exists>t. st1 = snd (st_delete S st (session_token_key t)))"
      "st_delete S st1 (session_key sid) = (r, st')" "res = map_err AuthStorage r"
  using assms
  by (auto simp: handle_revoke_session_def Let_def split: if_splits sum.splits option.splits prod.splits)

context total_storage_engine
begin

lemma created_contents:
  assumes "wf st" and "handle_create_session E S role req rand uuid now st = (Ok (sid, token), st')"
  shows "sid = uuid \<and> token = to_hex rand \<and> wf st' \<and> \<not> list_ex (\<lambda>s. lower E s = ''admin'') (cs_scopes req)
    \<and> contents st' (session_token_key token) = Some (as_bytes uuid)
    \<and> contents st' (session_key uuid) = Some (vec_session E \<lparr>as_id = uuid, as_token = token, as_app_name = cs_app_name req,
        as_scopes = cs_scopes req, as_created_at = now, as_expiry_kyn = cs_expiry_kyn req\<rparr>)"
  using assms(2) refl
proof (cases rule: create_session_cases)
  case (both st1 r2)
  then have "wf st1" "contents st1 (session_key uuid) = Some (vec_session E \<lparr>as_id = uuid, as_token = to_hex rand,
      as_app_name = cs_app_name req, as_scopes = cs_scopes req, as_created_at = now, as_expiry_kyn = cs_expiry_kyn req\<rparr>)"
    using put_wf [OF assms(1)] put_ok [OF assms(1)] by auto
  with both put_wf [OF \<open>wf st1\<close>] put_ok [OF \<open>wf st1\<close>] show ?thesis by auto
qed simp_all

lemma create_keeps:
  assumes "wf st" and "session_codec E" and "\<forall>k b. contents st k = Some b \<longrightarrow> session_safe E k b"
    and "handle_create_session E S role req rand uuid now st = (res, st')"
  shows "wf st' \<and> (\<forall>k b. contents st' k = Some b \<longrightarrow> session_safe E k b)"
  using assms(4) refl
proof (cases rule: create_session_cases)
  case (first r1)
  then show ?thesis
    using put_wf [OF assms(1)] put_keeps [OF assms(1) first(2), of "session_safe E"] assms(2,3)
    by (auto simp: session_safe_def session_codec_def)
next
  case (both st1 r2)
  have w: "wf st1" using put_wf [OF assms(1) both(2)] .
  have "session_safe E k b" if "contents st1 k = Some b" for k b
    using put_keeps [OF assms(1) both(2), of "session_safe E"] assms(2,3) both(1) that
    by (auto simp: session_safe_def session_codec_def)
  then show ?thesis
    using put_wf [OF w both(3)] put_keeps [OF w both(3), of "session_safe E"]
    by (auto simp: session_safe_def)
qed (use assms in simp)

lemma revoke_keeps:
  assumes "wf st" and "\<forall>k b. contents st k = Some b \<longrightarrow> session_safe E k b"
    and "handle_revoke_session E S role sid st = (res, st')"
  shows "wf st' \<and> (\<forall>k b. contents st' k = Some b \<longrightarrow> session_safe E k b)"
  using assms(3)
proof (cases rule: revoke_session_cases)
  case (revoked st1 r)
  have "wf st1 \<and> (\<forall>k b. contents st1 k = Some b \<longrightarrow> session_safe E k b)"
    using revoked(1) assms(1,2) delete_wf [OF assms(1)] delete_keeps [OF assms(1), of _ _ _ "session_safe E"]
    by (metis prod.collapse)
  then show ?thesis
    using delete_wf [OF _ revoked(2)] delete_keeps [OF _ revoked(2), of "session_safe E"] by blast
qed (use assms in simp)

lemma revoked_contents:
  assumes "wf st" and "handle_revoke_session E S role sid st = (Ok (), st')"
  shows "wf st' \<and> contents st' (session_key sid) = None
    \<and> (\<forall>k. contents st' k = contents st k \<or> contents st' k = None)"
  using assms(2)
proof (cases rule: revoke_session_cases)
  case (revoked st1 r)
  have r: "r = Ok ()" using revoked(3) by (cases r) (simp_all add: map_err_def)
  have c: "wf st1 \<and> (\<forall>k. contents st1 k = contents st k \<or> contents st1 k = None)"
    using revoked(1) assms(1) delete_wf [OF assms(1)] delete_any [OF assms(1)] delete_frame [OF assms(1)]
    by (metis prod.collapse)
  then have "wf st1" by blast
  then show ?thesis
    using delete_wf [OF _ revoked(2)] delete_ok [OF _ revoked(2) [unfolded r]] c by auto
qed simp_all

end

section \<open>Correctness of the authentication\<close>

text \<open>A session token works: after a session was created, its token is granted exactly the scopes that were
  asked for, without administrator rights, until the cached network time passes its expiry.\<close>

lemma session_round_trip:
  assumes "total_storage_engine S contents intact" and "intact st" and "session_codec E"
    and "handle_create_session E S role req rand uuid now st = (Ok (sid, token), st')"
    and "list_all is_ascii uuid" and "token \<notin> fst ` set (token_roles tokens)"
    and "\<forall>k. is_ok (st_get S st' k)"
  shows "auth_middleware E S tokens (Some (''Bearer '' @ token)) st' =
      (if 0 < cached_kyn_or_0 E S st' \<and> cs_expiry_kyn req < cached_kyn_or_0 E S st' then Err 401
       else Ok (session_role E (cs_scopes req)))
    \<and> \<not> r_is_admin (session_role E (cs_scopes req))"
proof -
  let ?session = "\<lparr>as_id = uuid, as_token = token, as_app_name = cs_app_name req,
        as_scopes = cs_scopes req, as_created_at = now, as_expiry_kyn = cs_expiry_kyn req\<rparr>"
  note c = total_storage_engine.created_contents [OF assms(1,2,4)]
  have g: "st_get S st' k = Ok (contents st' k)" for k
    using storage_engine.get_ok [OF total_storage_engine.axioms(1) [OF assms(1)], of st' k] c
      spec [OF assms(7), of k] by (cases "st_get S st' k") auto
  have f: "find_session E S token st' = Some ?session"
    using c assms(3) by (subst find_session_eq [OF _ assms(5)]) (auto simp: g session_codec_def)
  have n: "\<not> starts_with token ''Bearer ''" using c hex_not_bearer by simp
  show ?thesis
    unfolding auth_session [OF n assms(6)] f using c by (simp add: session_role_admin)
qed

text \<open>Everything that can happen to the storage while the daemon runs: sessions are created and revoked
  by requests of any role, and other parts of the daemon write and delete keys of their own.\<close>

inductive api_run :: "'x api_env_scheme \<Rightarrow> ('s, 'y) storage_ops_scheme \<Rightarrow> 's \<Rightarrow> 's \<Rightarrow> bool" for E S where
  start: "api_run E S st st"
| create: "api_run E S st0 st \<Longrightarrow> handle_create_session E S role req rand uuid now st = (res, st') \<Longrightarrow> api_run E S st0 st'"
| revoke: "api_run E S st0 st \<Longrightarrow> handle_revoke_session E S role sid st = (res', st') \<Longrightarrow> api_run E S st0 st'"
| other_put: "api_run E S st0 st \<Longrightarrow> (\<And>sid. k \<noteq> session_key sid) \<Longrightarrow> st_put S st k v = (r, st') \<Longrightarrow> api_run E S st0 st'"
| other_delete: "api_run E S st0 st \<Longrightarrow> (\<And>sid. k \<noteq> session_key sid) \<Longrightarrow> st_delete S st k = (r, st') \<Longrightarrow> api_run E S st0 st'"

lemma api_run_safe:
  assumes "api_run E S st0 st" and "total_storage_engine S contents intact" and "session_codec E" and "intact st0"
    and "\<And>sid. contents st0 (session_key sid) = None"
  shows "intact st \<and> (\<forall>k b. contents st k = Some b \<longrightarrow> session_safe E k b)"
  using assms(1,4,5)
proof induction
  case (start st)
  then show ?case by (auto simp: session_safe_def)
next
  case create
  then show ?case using total_storage_engine.create_keeps [OF assms(2) _ assms(3)] by blast
next
  case revoke
  then show ?case using total_storage_engine.revoke_keeps [OF assms(2)] by blast
next
  case (other_put st0 st k v r st')
  then have i: "intact st" "\<And>k b. contents st k = Some b \<Longrightarrow> session_safe E k b" by blast+
  have "session_safe E k v" using other_put.hyps(2) by (simp add: session_safe_def)
  then show ?case
    using total_storage_engine.put_keeps [OF assms(2) i(1) other_put.hyps(3), of "session_safe E"] i(2)
      storage_engine.put_wf [OF total_storage_engine.axioms(1) [OF assms(2)] i(1) other_put.hyps(3)] by blast
next
  case (other_delete st0 st k r st')
  then have i: "intact st" "\<And>k b. contents st k = Some b \<Longrightarrow> session_safe E k b" by blast+
  then show ?case
    using total_storage_engine.delete_keeps [OF assms(2) i(1) other_delete.hyps(3), of "session_safe E"] i(2)
      storage_engine.delete_wf [OF total_storage_engine.axioms(1) [OF assms(2)] i(1) other_delete.hyps(3)] by blast
qed

text \<open>C18. No escalation: whatever requests the daemon has served since it started without sessions,
  only a token of its own token files opens the administrator role.\<close>

theorem sessions_never_admin:
  assumes "total_storage_engine S contents intact" and "session_codec E" and "intact st0"
    and "\<forall>sid. contents st0 (session_key sid) = None" and "api_run E S st0 st"
    and "auth_middleware E S tokens header st = Ok r" and "r_is_admin r"
  shows "\<exists>h. header = Some h \<and> trim_start_matches ''Bearer '' h \<in> fst ` set (token_roles tokens)"
proof (rule ccontr)
  assume n: "\<not> ?thesis"
  have safe: "intact st" "\<And>k b. contents st k = Some b \<Longrightarrow> session_safe E k b"
    using api_run_safe [OF assms(5,1,2,3)] assms(4) by blast+
  from assms(6) n obtain token s where s: "find_session E S token st = Some s" "r = session_role E (as_scopes s)"
    by (auto simp: auth_middleware_def Let_def match_tokens_None [THEN iffD2] split: option.splits if_splits)
  then obtain sid b where "st_get S st (session_key sid) = Ok (Some b)" "slice_session E b = Some s"
    by (auto simp: find_session_def split: sum.splits option.splits)
  moreover from this have "contents st (session_key sid) = Some b"
    using storage_engine.get_ok [OF total_storage_engine.axioms(1) [OF assms(1)] safe(1)] by metis
  ultimately have "\<not> list_ex (\<lambda>s. lower E s = ''admin'') (as_scopes s)"
    using safe(2) by (auto simp: session_safe_def)
  with s assms(7) show False by (simp add: session_role_admin)
qed

text \<open>C19. Revocation: after a session was revoked, every token that was issued for it is refused.\<close>

theorem revoked_session_refused:
  assumes "total_storage_engine S contents intact" and "intact st"
    and "handle_revoke_session E S role sid st = (Ok (), st')"
    and "contents st (session_token_key token) = Some (as_bytes sid)" and "list_all is_ascii sid"
    and "token \<notin> fst ` set (token_roles tokens)" and "\<not> starts_with token ''Bearer ''"
  shows "auth_middleware E S tokens (Some (''Bearer '' @ token)) st' = Err 401"
proof -
  note c = total_storage_engine.revoked_contents [OF assms(1-3)]
  note g = storage_engine.get_ok [OF total_storage_engine.axioms(1) [OF assms(1)]]
  have "find_session E S token st' = None"
  proof (cases "find_session E S token st'")
    case (Some s)
    then obtain ib i b where f: "st_get S st' (session_token_key token) = Ok (Some ib)" "string_from_utf8 ib = Some i"
      "st_get S st' (session_key i) = Ok (Some b)"
      by (auto simp: find_session_def split: sum.splits option.splits)
    then have "contents st' (session_token_key token) = Some ib" "contents st' (session_key i) = Some b"
      using c g by metis+
    moreover from this have "ib = as_bytes sid" using c assms(4) by (metis option.distinct(1) option.inject)
    ultimately have "i = sid" using f(2) ascii_from_utf8 [OF assms(5)] by simp
    with \<open>contents st' (session_key i) = Some b\<close> c show ?thesis by simp
  qed
  then show ?thesis unfolding auth_session [OF assms(7,6)] by simp
qed

text \<open>Without a cached time no session expires.\<close>

lemma unknown_time_never_expires:
  assumes "find_session E S token st = Some s" and "cached_kyn_or_0 E S st = 0"
    and "token \<notin> fst ` set (token_roles tokens)" and "\<not> starts_with token ''Bearer ''"
  shows "auth_middleware E S tokens (Some (''Bearer '' @ token)) st = Ok (session_role E (as_scopes s))"
  unfolding auth_session [OF assms(4,3)] using assms(1,2) by simp

section \<open>Witnesses\<close>

text \<open>Sessions as numbers, and numbers as lists of zeros.\<close>

definition sample_api :: api_env where
  "sample_api = time_env.extend sample_time (api_env.fields
     (\<lambda>s. replicate (to_nat (as_id s, as_token s, as_app_name s, as_scopes s, unat (as_created_at s), unat (as_expiry_kyn s))) 0)
     (\<lambda>b. let (i, t, a, sc, c, e) = from_nat (length b)
          in Some \<lparr>as_id = i, as_token = t, as_app_name = a, as_scopes = sc, as_created_at = of_nat c, as_expiry_kyn = of_nat e\<rparr>))"

definition sample_tokens :: api_tokens where
  "sample_tokens = \<lparr>t_admin = ''a'', t_kid = ''b'', t_nrs = ''c'', t_vdf = ''d'', t_action = ''e'', t_gossip = ''f'',
     t_metric = ''g'', t_system = ''h'', t_atlas = ''i'', t_heartbeat = ''j''\<rparr>"

definition sample_request :: create_session_request where
  "sample_request = \<lparr>cs_app_name = ''app'', cs_scopes = [''NRS''], cs_expiry_kyn = 900\<rparr>"

definition empty_storage :: "bytes wasm_storage" where
  "empty_storage = \<lparr>db = [], opfs_handle = None\<rparr>"

lemma sample_session_codec: "session_codec sample_api"
  by (simp add: session_codec_def sample_api_def time_env.defs api_env.defs sample_time_def event_env.defs sample_node_simps)

lemma lower_scope: "to_lowercase u ''NRS'' = ''nrs''"
  by code_simp

lemma memory_put:
  "length (db s) < 10000 \<Longrightarrow> opfs_handle s = None \<Longrightarrow>
     storage_put H s k v = (Ok (), s\<lparr>db := btree_insert k v (db s)\<rparr>)"
  by (simp add: storage_put_def append_to_log_def)

definition session_storage :: "bytes wasm_storage" where
  "session_storage = snd (handle_create_session sample_api sample_engine admin_role sample_request [1, 2] ''id-1'' 0 empty_storage)"

lemma sample_created:
  "handle_create_session sample_api sample_engine admin_role sample_request [1, 2] ''id-1'' 0 empty_storage
     = (Ok (''id-1'', to_hex [1, 2]), session_storage)"
proof -
  have "length (btree_insert k v []) < 10000" for k v :: bytes by simp
  then show ?thesis
    by (simp add: session_storage_def handle_create_session_def admin_role_def sample_request_def lower_scope
        empty_storage_def memory_put Let_def)
qed

lemma sample_token_foreign: "to_hex [1, 2] \<notin> fst ` set (token_roles sample_tokens)"
  by (simp add: token_roles_def sample_tokens_def to_hex_def hex_digit_def)

lemma sample_role: "session_role sample_api (cs_scopes sample_request) = no_role\<lparr>r_nrs := True\<rparr>"
  by (simp add: session_role_def sample_request_def grant_scope_def lower_scope)

lemma sample_engine_total: "total_storage_engine sample_engine (\<lambda>s. map_of (db s)) (\<lambda>s. btree_wf (db s))"
  by (rule wasm.total_storage_engine_axioms)

lemma empty_storage_wf: "btree_wf (db empty_storage)"
  by (simp add: empty_storage_def)

lemma session_db:
  "map_of (db session_storage) k = (if k = session_token_key (to_hex [1, 2]) then Some (as_bytes ''id-1'')
     else if k = session_key ''id-1'' then Some (vec_session sample_api \<lparr>as_id = ''id-1'', as_token = to_hex [1, 2],
       as_app_name = ''app'', as_scopes = [''NRS''], as_created_at = 0, as_expiry_kyn = 900\<rparr>) else None)"
proof -
  have "length (btree_insert k v []) < 10000" for k v :: bytes by simp
  then show ?thesis
    by (simp add: session_storage_def handle_create_session_def admin_role_def sample_request_def lower_scope
        empty_storage_def memory_put Let_def map_of_btree_insert btree_wf_insert)
qed

lemma sample_api_time: "cached_kyn_or_0 sample_api sample_engine session_storage = 0"
proof -
  have "DB_PREFIX_LAST_KYN sample_api = [1]" "\<not> dev_mode sample_api"
    by (simp_all add: sample_api_def time_env.defs sample_time_simps)
  moreover have "map_of (db session_storage) [1] = None"
    by (simp add: session_db session_key_def session_token_key_def as_bytes_def)
  ultimately show ?thesis by (simp add: cached_kyn_or_0_def load_cached_def storage_get_def)
qed

theorem sessions_never_admin_witness:
  "api_run sample_api sample_engine empty_storage session_storage
   \<and> auth_middleware sample_api sample_engine sample_tokens (Some ''Bearer a'') session_storage = Ok admin_role
   \<and> (\<exists>h. Some ''Bearer a'' = Some h \<and> trim_start_matches ''Bearer '' h \<in> fst ` set (token_roles sample_tokens))"
proof -
  have r: "api_run sample_api sample_engine empty_storage session_storage"
    by (rule api_run.create [OF api_run.start sample_created])
  have t: "trim_start_matches ''Bearer '' ''Bearer a'' = ''a''"
    using trim_bearer [of "''a''"] by (simp add: starts_with_def)
  have m: "auth_middleware sample_api sample_engine sample_tokens (Some ''Bearer a'') session_storage = Ok admin_role"
    by (simp add: auth_middleware_def t match_tokens_def token_roles_def sample_tokens_def check_token_def starts_with_def)
  have "\<forall>sid. map_of (db empty_storage) (session_key sid) = None" by (simp add: empty_storage_def)
  from sessions_never_admin [OF sample_engine_total sample_session_codec empty_storage_wf this r m] r m
  show ?thesis by (simp add: admin_role_def)
qed

theorem revoked_session_refused_witness:
  "\<exists>st'. handle_revoke_session sample_api sample_engine admin_role ''id-1'' session_storage = (Ok (), st')
     \<and> auth_middleware sample_api sample_engine sample_tokens (Some (''Bearer '' @ to_hex [1, 2])) st' = Err 401"
proof -
  obtain res st' where r: "handle_revoke_session sample_api sample_engine admin_role ''id-1'' session_storage = (res, st')"
    by (rule prod.exhaust)
  have d: "opfs_handle s = None \<Longrightarrow> storage_delete memory_file s k = (Ok (), s\<lparr>db := btree_remove k (db s)\<rparr>)" for s k
    by (simp add: storage_delete_def append_to_log_def)
  have h: "opfs_handle session_storage = None"
  proof -
    have "length (btree_insert k v []) < 10000" for k v :: bytes by simp
    then show ?thesis
      by (simp add: session_storage_def handle_create_session_def admin_role_def sample_request_def lower_scope
          empty_storage_def memory_put Let_def)
  qed
  have c: "slice_session sample_api (vec_session sample_api s) = Some s" for s
    using sample_session_codec by (simp add: session_codec_def)
  have "res = Ok ()"
    using r by (simp add: handle_revoke_session_def admin_role_def storage_get_def session_db c d h map_err_def)
  moreover have "btree_wf (db session_storage)"
    using total_storage_engine.created_contents [OF sample_engine_total empty_storage_wf sample_created] by blast
  moreover have "list_all is_ascii ''id-1''" by (simp add: is_ascii_def code_def)
  ultimately show ?thesis
    using revoked_session_refused [OF sample_engine_total, where st = session_storage and st' = st' and sid = "''id-1''"
        and token = "to_hex [1, 2]" and tokens = sample_tokens and E = sample_api and role = admin_role]
      r sample_token_foreign hex_not_bearer session_db by auto
qed

end
