(* ===== verification/Daemon_Nrs.thy ===== *)
theory Daemon_Nrs
  imports Api_Auth Zone
begin

text \<open>
  The name system handlers of the daemon's HTTP API (\<open>kinetic-daemon/src/api/nrs.rs\<close>,
  \<open>heartbeat.rs\<close>) and the calls of the network client they use
  (\<open>kinetic-network/src/client/handle.rs\<close>): publishing records and commitments, resolving names,
  zone files, zone updates by the owner and by a delegate, heartbeats.

  The answer of the event loop to a call is a parameter; so are JSON, the file system and key
  generation. The text of a \<open>BadRequest\<close> is represented by what it reports, and numbers are left out
  of the other messages. Failures of the blocking
  pool are left out, and the work spawned to store a record runs at once.
\<close>

section \<open>The network client (client/handle.rs)\<close>

datatype 'a reply = Answered 'a | Closed | TimedOut

record network_client =
  cl_publish :: "string \<Rightarrow> bytes \<Rightarrow> (publish_error, unit) result reply"
  cl_heartbeat :: "string \<Rightarrow> bytes \<Rightarrow> (publish_error, unit) result reply"
  cl_resolve :: "string \<Rightarrow> (resolution_error, bytes) result reply"
  cl_resolve_heartbeat :: "string \<Rightarrow> (resolution_error, bytes) result reply"
  cl_verify_quorum :: "string \<Rightarrow> bytes \<Rightarrow> (network_client_error, nat) result reply"
  cl_current_kyn :: "kyn reply"

definition publish_reply :: "(publish_error, unit) result reply \<Rightarrow> (publish_error, unit) result" where
  "publish_reply r = (case r of Answered x \<Rightarrow> x | _ \<Rightarrow> Err (PubInternal ''Network channel closed unexpectedly''))"

definition publish_redundant_payload :: "network_client \<Rightarrow> string \<Rightarrow> bytes \<Rightarrow> (publish_error, unit) result" where
  "publish_redundant_payload C name payload =
     (if 80000 < length payload then Err (PubInternal ''Payload size exceeds the 80000-byte P2P network limit'')
      else publish_reply (cl_publish C name payload))"

definition publish_heartbeat :: "network_client \<Rightarrow> string \<Rightarrow> bytes \<Rightarrow> (publish_error, unit) result" where
  "publish_heartbeat C name payload = publish_reply (cl_heartbeat C name payload)"

definition resolve_reply :: "(resolution_error, bytes) result reply \<Rightarrow> (resolution_error, bytes) result" where
  "resolve_reply r = (case r of Answered x \<Rightarrow> x
      | Closed \<Rightarrow> Err (ResInternal ''Network channel closed unexpectedly'')
      | TimedOut \<Rightarrow> Err (ResInternal ''Resolution timed out''))"

definition resolve_redundant_payload :: "network_client \<Rightarrow> string \<Rightarrow> (resolution_error, bytes) result" where
  "resolve_redundant_payload C name = resolve_reply (cl_resolve C name)"

definition client_resolve_heartbeat :: "network_client \<Rightarrow> string \<Rightarrow> (resolution_error, bytes) result" where
  "client_resolve_heartbeat C name = resolve_reply (cl_resolve_heartbeat C name)"

definition client_verify_quorum :: "network_client \<Rightarrow> string \<Rightarrow> bytes \<Rightarrow> (network_client_error, nat) result" where
  "client_verify_quorum C name payload =
     (case cl_verify_quorum C name payload of Answered x \<Rightarrow> x | _ \<Rightarrow> Err NetChannelClosed)"

section \<open>State and errors of the handlers\<close>

text \<open>What a bad request reports.\<close>

datatype bad_request =
    BadName names_error | BadReveal reveal_validation_error | RevealInFuture kyn kyn | RevealTooOld kyn u64
  | ZeroCommitment | ReservedNamesOnly | CapabilityMissing string | BadHotKeyHex | BadHotKey

text \<open>\<open>kinetic-core/src/error/identity.rs\<close>; what a variant carries is text, kept only where it is a name.\<close>

datatype identity_error =
    Io string | CorruptedIdentityFile | IdentityNotFound | InvalidSeedPhrase | DecryptionFailed
  | KidAlreadyExists string | KidNotFound string | InvalidRotation | KidSigningFailed | InvalidDid
  | KidDeactivated string | MalformedDocument | MalformedApexDocument | MalformedManifest | SerializationFailed
  | ManifestSigningFailed | KidPrivateKeyNotFound string | PubkeyMismatch

datatype app_error =
    AppRest rest_api_error | AppBad bad_request | AppNames names_error | AppPublish publish_error
  | AppResolution resolution_error | AppStorage storage_error | AppNrs nrs_error | AppNotRegistered string
  | AppIdentity identity_error | AppNetwork network_client_error
  | AppZoneSerialization | AppPanicked

datatype zone_file = NoFile | FileError string | FileText bytes

record nrs_api_env = api_env +
  from_slice_envelope :: "bytes \<Rightarrow> name_envelope option"
  vec_envelope :: "name_envelope \<Rightarrow> bytes option"
  vec_commitment :: "commitment \<Rightarrow> bytes option"
  vec_names :: "string list \<Rightarrow> bytes option"
  text_zone :: "bytes \<Rightarrow> nrs_zone option"
  vec_zone :: "nrs_zone \<Rightarrow> bytes option"
  pretty_zone :: "nrs_zone \<Rightarrow> bytes option"
  dummy_envelope :: "bytes \<Rightarrow> name_envelope option"
  from_slice_heartbeat :: "bytes \<Rightarrow> heartbeat option"
  key_from_seed :: "bytes \<Rightarrow> bytes"
  key_from_slice :: "bytes \<Rightarrow> bytes option"
  DB_PREFIX_REVEAL :: string

text \<open>\<open>dn_published\<close> are the payloads the event loop has confirmed, \<open>dn_quorums\<close> the quorum checks that
  were scheduled. The zone files of a directory are named by their stem.\<close>

record 's daemon =
  dn_storage :: 's
  dn_config_zones :: "string \<Rightarrow> zone_file"
  dn_local_zones :: "string \<Rightarrow> zone_file"
  dn_published :: "(string \<times> bytes) list"
  dn_heartbeats :: "(string \<times> bytes) list"
  dn_quorums :: "(string \<times> bytes) list"

type_synonym 'a response = "(app_error, 'a) result"

definition reveal_key :: "'x nrs_api_env_scheme \<Rightarrow> string \<Rightarrow> bytes" where
  "reveal_key E fqdn = as_bytes (DB_PREFIX_REVEAL E @ fqdn)"

text \<open>\<open>safe_current_kyn\<close>: the event loop, then the cache, then the clock.\<close>

definition safe_current_kyn ::
  "'x time_env_scheme \<Rightarrow> ('s, 'y) storage_ops_scheme \<Rightarrow> network_client \<Rightarrow> u64 \<Rightarrow> 's \<Rightarrow> kyn" where
  "safe_current_kyn E S C now st =
     (case cl_current_kyn C of
        Answered k \<Rightarrow>
          if 0 < k then k
          else (case load_cached E S (Some st) of
                  Inr c \<Rightarrow> if 0 < rk_kyn E c then rk_kyn E c else now_local now (BEACON_GENESIS E)
                | Inl _ \<Rightarrow> now_local now (BEACON_GENESIS E))
      | _ \<Rightarrow> (case load_cached E S (Some st) of
                Inr c \<Rightarrow> if 0 < rk_kyn E c then rk_kyn E c else now_local now (BEACON_GENESIS E)
              | Inl _ \<Rightarrow> now_local now (BEACON_GENESIS E)))"

section \<open>Publishing (api/nrs.rs)\<close>

text \<open>The list of owned names keeps its last 10,000 entries.\<close>

definition owned_or_empty :: "'x nrs_api_env_scheme \<Rightarrow> ('s, 'y) storage_ops_scheme \<Rightarrow> 's \<Rightarrow> string list" where
  "owned_or_empty E S st =
     (case st_get S st (DB_PREFIX_OWNED_NAMES E) of
        Inr (Some b) \<Rightarrow> (case slice_names E b of Some names \<Rightarrow> names | None \<Rightarrow> [])
      | _ \<Rightarrow> [])"

definition add_owned :: "string list \<Rightarrow> string \<Rightarrow> string list" where
  "add_owned owned fqdn =
     (let owned = owned @ [fqdn] in if 10000 < length owned then drop (length owned - 10000) owned else owned)"

definition persist_owned :: "'x nrs_api_env_scheme \<Rightarrow> ('s, 'y) storage_ops_scheme \<Rightarrow> string \<Rightarrow> 's \<Rightarrow> 's" where
  "persist_owned E S fqdn st =
     (let owned = owned_or_empty E S st in
      if fqdn \<in> set owned then st
      else case vec_names E (add_owned owned fqdn) of
        Some b \<Rightarrow> snd (st_put S st (DB_PREFIX_OWNED_NAMES E) b) | None \<Rightarrow> st)"

definition persist_reveal ::
  "'x nrs_api_env_scheme \<Rightarrow> ('s, 'y) storage_ops_scheme \<Rightarrow> string \<Rightarrow> name_envelope \<Rightarrow> 's \<Rightarrow> 's" where
  "persist_reveal E S fqdn rec st =
     (case vec_envelope E rec of Some b \<Rightarrow> snd (st_put S st (reveal_key E fqdn) b) | None \<Rightarrow> st)"

definition reveal_age_check :: "kyn \<Rightarrow> kyn \<Rightarrow> unit response" where
  "reveal_age_check current k =
     (if 0 < current then
        if current < k then Err (AppBad (RevealInFuture k current))
        else let age = current - k in
             if RESQUARING_EPOCH_KYNS < age then Err (AppBad (RevealTooOld k age)) else Ok ()
      else Ok ())"

definition handle_publish_record ::
  "'x nrs_api_env_scheme \<Rightarrow> ('s, 'y) storage_ops_scheme \<Rightarrow> network_client \<Rightarrow> u64 \<Rightarrow> role \<Rightarrow> name_envelope \<Rightarrow> 's daemon
     \<Rightarrow> unit response \<times> 's daemon" where
  "handle_publish_record E S C now role record D =
     (let fqdn = normalize_name E (env_name record);
          name_record = (case record of Standard r \<Rightarrow> Standard (r\<lparr>rv_name := fqdn\<rparr>));
          reveal = standard_reveal name_record;
          checked =
            reject_if (\<not> can_nrs role) (AppRest InsufficientPrivileges)
           (and_then (map_err (AppBad \<circ> BadName) (is_valid_apex_name E fqdn)) (\<lambda>_.
            and_then (map_err (AppBad \<circ> BadReveal) (validate E reveal)) (\<lambda>_.
            and_then (reveal_age_check (safe_current_kyn E S C now (dn_storage D)) (rv_kyn reveal)) (\<lambda>_.
            and_then (ok_or (AppPublish (PubInternal ''Serialization failed'')) (vec_envelope E name_record)) (\<lambda>payload.
            and_then (map_err AppPublish (publish_redundant_payload C fqdn payload)) (\<lambda>_.
            Ok payload))))))
      in case checked of
           Inl e \<Rightarrow> (Err e, D)
         | Inr payload \<Rightarrow>
             (Ok (), D\<lparr>dn_storage := persist_reveal E S fqdn name_record (persist_owned E S fqdn (dn_storage D)),
                dn_published := dn_published D @ [(fqdn, payload)],
                dn_quorums := dn_quorums D @ [(fqdn, payload)]\<rparr>))"

record commit_request =
  cr_name :: string
  cr_commitment :: commitment

definition handle_publish_commit ::
  "'x nrs_api_env_scheme \<Rightarrow> network_client \<Rightarrow> role \<Rightarrow> commit_request \<Rightarrow> 's daemon \<Rightarrow> unit response \<times> 's daemon" where
  "handle_publish_commit E C role req D =
     (let fqdn = normalize_name E (cr_name req);
          checked =
            reject_if (\<not> can_nrs role) (AppRest InsufficientPrivileges)
           (and_then (map_err (AppBad \<circ> BadName) (is_valid_apex_name E fqdn)) (\<lambda>_.
            reject_if (cm_hash (cr_commitment req) = replicate 32 0) (AppBad ZeroCommitment)
           (and_then (ok_or (AppPublish (PubInternal ''Serialization failed'')) (vec_commitment E (cr_commitment req))) (\<lambda>payload.
            and_then (map_err AppPublish (publish_redundant_payload C fqdn payload)) (\<lambda>_.
            Ok payload)))))
      in case checked of
           Inl e \<Rightarrow> (Err e, D)
         | Inr payload \<Rightarrow>
             (Ok (), D\<lparr>dn_published := dn_published D @ [(fqdn, payload)], dn_quorums := dn_quorums D @ [(fqdn, payload)]\<rparr>))"

section \<open>Resolving (api/nrs.rs)\<close>

text \<open>\<open>trim_end_matches(NSP_SUFFIX)\<close>\<close>

definition trim_end_matches :: "string \<Rightarrow> string \<Rightarrow> string" where
  "trim_end_matches p s = rev (trim_start_matches (rev p) (rev s))"

definition local_stem :: "'x crypto_scheme \<Rightarrow> string \<Rightarrow> string" where
  "local_stem E fqdn = trim_end_matches (NSP_SUFFIX E) (extract_apex_name E fqdn)"

text \<open>A reserved name is answered from its local zone file, wrapped in a JSON object whose fields are
  \<open>owner_kid\<close>, \<open>payload\<close>, \<open>signature\<close> and \<open>timestamp\<close>.\<close>

definition resolve_reserved :: "'x nrs_api_env_scheme \<Rightarrow> string \<Rightarrow> 's daemon \<Rightarrow> name_envelope response" where
  "resolve_reserved E fqdn D =
     (case dn_local_zones D (local_stem E fqdn) of
        FileText content \<Rightarrow>
          (case text_zone E content of
             Some zone \<Rightarrow>
               (case dummy_envelope E (case vec_zone E zone of Some b \<Rightarrow> b | None \<Rightarrow> []) of
                  Some record \<Rightarrow> Ok record
                | None \<Rightarrow> Err (AppResolution (ResNotFound fqdn 0)))
           | None \<Rightarrow> Err (AppResolution (ResNotFound fqdn 0)))
      | _ \<Rightarrow> Err (AppResolution (ResNotFound fqdn 0)))"

definition resolve_stored ::
  "'x nrs_api_env_scheme \<Rightarrow> ('s, 'y) storage_ops_scheme \<Rightarrow> string \<Rightarrow> 's \<Rightarrow> name_envelope response" where
  "resolve_stored E S fqdn st =
     (case st_get S st (reveal_key E fqdn) of
        Inl _ \<Rightarrow> Err (AppResolution (ResInternal ''Storage read failed''))
      | Inr None \<Rightarrow> Err (AppResolution (ResNotFound fqdn 0))
      | Inr (Some b) \<Rightarrow>
          ok_or (AppResolution (ResInternal ''Stored registration data is corrupted.'')) (from_slice_envelope E b))"

definition handle_resolve_name ::
  "'x nrs_api_env_scheme \<Rightarrow> ('s, 'y) storage_ops_scheme \<Rightarrow> network_client \<Rightarrow> string \<Rightarrow> 's daemon \<Rightarrow> name_envelope response" where
  "handle_resolve_name E S C name D =
     (let fqdn = normalize_name E name in
      if is_reserved_name E fqdn then resolve_reserved E fqdn D
      else case resolve_redundant_payload C fqdn of
        Inr payload \<Rightarrow>
          and_then (ok_or (AppResolution (ResInternal ''Invalid NameEnvelope payload on DHT'')) (from_slice_envelope E payload))
            (\<lambda>record.
             reject_if (\<not> dev_mode E \<and> is_err (envelope_verify_signature E record (NETWORK_SALT E)))
               (AppResolution (ResSignatureVerificationFailed ''Signature verification failed''))
            (Ok record))
      | Inl (ResNotFound _ _) \<Rightarrow> resolve_stored E S fqdn (dn_storage D)
      | Inl e \<Rightarrow> Err (AppResolution e))"

definition handle_verify_quorum ::
  "'x nrs_api_env_scheme \<Rightarrow> network_client \<Rightarrow> string \<Rightarrow> name_envelope \<Rightarrow> (string \<times> nat) response" where
  "handle_verify_quorum E C name record =
     (let fqdn = normalize_name E name in
      and_then (map_err AppNames (is_valid_apex_name E fqdn)) (\<lambda>_.
      and_then (ok_or (AppRest (BadRequest ''Invalid NameEnvelope payload'')) (vec_envelope E record)) (\<lambda>payload.
      and_then (map_err AppNetwork (client_verify_quorum C fqdn payload)) (\<lambda>count.
      Ok (fqdn, count)))))"

section \<open>Zone files (api/nrs.rs)\<close>

definition handle_get_reserved_names :: "'s daemon \<Rightarrow> (string \<times> bool) list" where
  "handle_get_reserved_names D = map (\<lambda>r. (r, dn_local_zones D r \<noteq> NoFile)) RESERVED_NAMES"

definition read_zone :: "'x nrs_api_env_scheme \<Rightarrow> zone_file \<Rightarrow> nrs_zone response" where
  "read_zone E f =
     (case f of
        FileText content \<Rightarrow> ok_or (AppNrs ParseError) (text_zone E content)
      | NoFile \<Rightarrow> Err (AppRest ApiNotFound)
      | FileError e \<Rightarrow> Err (AppStorage (ReadFailed e)))"

definition handle_get_zone :: "'x nrs_api_env_scheme \<Rightarrow> string \<Rightarrow> 's daemon \<Rightarrow> nrs_zone response" where
  "handle_get_zone E name D =
     (let fqdn = normalize_name E name in
      and_then (map_err AppNames (is_valid_apex_name E fqdn)) (\<lambda>_. read_zone E (dn_config_zones D fqdn)))"

text \<open>\<open>io\<close> is \<open>None\<close> when creating the directory and writing the file succeed.\<close>

definition zone_content :: "'x nrs_api_env_scheme \<Rightarrow> string option \<Rightarrow> nrs_zone \<Rightarrow> bytes response" where
  "zone_content E io zone =
     and_then (ok_or (AppStorage (WriteFailed ''Serialization failed'')) (pretty_zone E zone)) (\<lambda>content.
     case io of Some e \<Rightarrow> Err (AppStorage (WriteFailed e)) | None \<Rightarrow> Ok content)"

definition handle_post_zone ::
  "'x nrs_api_env_scheme \<Rightarrow> string option \<Rightarrow> role \<Rightarrow> string \<Rightarrow> nrs_zone \<Rightarrow> 's daemon \<Rightarrow> unit response \<times> 's daemon" where
  "handle_post_zone E io role name zone D =
     (let fqdn = normalize_name E name in
      case reject_if (\<not> can_nrs role) (AppRest InsufficientPrivileges)
          (and_then (map_err AppNames (is_valid_apex_name E fqdn)) (\<lambda>_. zone_content E io zone)) of
        Inl e \<Rightarrow> (Err e, D)
      | Inr content \<Rightarrow> (Ok (), D\<lparr>dn_config_zones := (dn_config_zones D)(fqdn := FileText content)\<rparr>))"

definition reserved_only :: "'x crypto_scheme \<Rightarrow> string \<Rightarrow> unit response" where
  "reserved_only E fqdn = reject_if (\<not> is_reserved_name E fqdn) (AppBad ReservedNamesOnly) (Ok ())"

definition handle_post_local_zone ::
  "'x nrs_api_env_scheme \<Rightarrow> string option \<Rightarrow> role \<Rightarrow> string \<Rightarrow> nrs_zone \<Rightarrow> 's daemon \<Rightarrow> unit response \<times> 's daemon" where
  "handle_post_local_zone E io role name zone D =
     (let fqdn = normalize_name E name in
      case reject_if (\<not> can_nrs role) (AppRest InsufficientPrivileges)
          (and_then (reserved_only E fqdn) (\<lambda>_. zone_content E io zone)) of
        Inl e \<Rightarrow> (Err e, D)
      | Inr content \<Rightarrow> (Ok (), D\<lparr>dn_local_zones := (dn_local_zones D)(local_stem E fqdn := FileText content)\<rparr>))"

definition handle_delete_local_zone ::
  "'x nrs_api_env_scheme \<Rightarrow> string option \<Rightarrow> role \<Rightarrow> string \<Rightarrow> 's daemon \<Rightarrow> unit response \<times> 's daemon" where
  "handle_delete_local_zone E io role name D =
     (let fqdn = normalize_name E name in
      case reject_if (\<not> can_nrs role) (AppRest InsufficientPrivileges) (reserved_only E fqdn) of
        Inl e \<Rightarrow> (Err e, D)
      | Inr _ \<Rightarrow>
          if dn_local_zones D (local_stem E fqdn) = NoFile then (Err (AppRest ApiNotFound), D)
          else (case io of
            Some e \<Rightarrow> (Err (AppStorage (DeleteFailed e)), D)
          | None \<Rightarrow> (Ok (), D\<lparr>dn_local_zones := (dn_local_zones D)(local_stem E fqdn := NoFile)\<rparr>)))"

definition handle_get_local_zone :: "'x nrs_api_env_scheme \<Rightarrow> string \<Rightarrow> 's daemon \<Rightarrow> nrs_zone response" where
  "handle_get_local_zone E name D =
     (let fqdn = normalize_name E name in
      and_then (reserved_only E fqdn) (\<lambda>_. read_zone E (dn_local_zones D (local_stem E fqdn))))"

section \<open>Zone updates (api/nrs.rs)\<close>

text \<open>\<open>kinetic_local::identity::load_keypair\<close> on the contents of the key file.\<close>

definition load_keypair :: "'x nrs_api_env_scheme \<Rightarrow> bytes option \<Rightarrow> (identity_error, bytes) result" where
  "load_keypair E key_file =
     (case key_file of
        None \<Rightarrow> Err IdentityNotFound
      | Some data \<Rightarrow> if length data < 32 then Err CorruptedIdentityFile else Ok (key_from_seed E (take 32 data)))"

definition load_reveal ::
  "'x nrs_api_env_scheme \<Rightarrow> ('s, 'y) storage_ops_scheme \<Rightarrow> string \<Rightarrow> 's \<Rightarrow> name_envelope response" where
  "load_reveal E S fqdn st =
     and_then (map_err AppStorage (st_get S st (reveal_key E fqdn))) (\<lambda>b.
     and_then (ok_or (AppNotRegistered fqdn) b) (\<lambda>b.
     ok_or (AppStorage (DeserializationFailed ''Stored registration data is corrupted.'')) (from_slice_envelope E b)))"

text \<open>A new zone in a stored record, signed with a key.\<close>

definition sign_zone :: "'x identity_env_scheme \<Rightarrow> bytes \<Rightarrow> bytes \<Rightarrow> reveal \<Rightarrow> reveal" where
  "sign_zone E key payload r =
     (let r = r\<lparr>embedded_nrs := payload\<rparr>
      in r\<lparr>identity_signature := mldsa_sign E key (reveal_signable_bytes r (NETWORK_SALT E))\<rparr>)"

text \<open>The updated record is stored before it is published; \<open>unserialisable\<close> is the outcome when it has
  no JSON form, an error for the owner's update and a panic for the delegate's.\<close>

definition store_and_publish ::
  "'x nrs_api_env_scheme \<Rightarrow> ('s, 'y) storage_ops_scheme \<Rightarrow> network_client \<Rightarrow> app_error \<Rightarrow> string \<Rightarrow> name_envelope \<Rightarrow> 's daemon
     \<Rightarrow> unit response \<times> 's daemon" where
  "store_and_publish E S C unserialisable fqdn record D =
     (let D = D\<lparr>dn_storage := persist_reveal E S fqdn record (dn_storage D)\<rparr> in
      case vec_envelope E record of
        None \<Rightarrow> (Err unserialisable, D)
      | Some payload \<Rightarrow>
          (case publish_redundant_payload C fqdn payload of
             Inl e \<Rightarrow> (Err (AppPublish e), D)
           | Inr _ \<Rightarrow> (Ok (), D\<lparr>dn_published := dn_published D @ [(fqdn, payload)]\<rparr>)))"

definition handle_publish_zone ::
  "'x nrs_api_env_scheme \<Rightarrow> ('s, 'y) storage_ops_scheme \<Rightarrow> network_client \<Rightarrow> bytes option \<Rightarrow> role \<Rightarrow> string \<Rightarrow> 's daemon
     \<Rightarrow> unit response \<times> 's daemon" where
  "handle_publish_zone E S C key_file role name D =
     (let fqdn = normalize_name E name;
          prepared =
            reject_if (\<not> can_nrs role) (AppRest InsufficientPrivileges)
           (and_then (map_err AppNames (is_valid_apex_name E fqdn)) (\<lambda>_.
            and_then (case dn_config_zones D fqdn of FileText c \<Rightarrow> Ok c | _ \<Rightarrow> Err (AppRest ApiNotFound)) (\<lambda>content.
            and_then (ok_or (AppNrs ParseError) (text_zone E content)) (\<lambda>zone.
            and_then (load_reveal E S fqdn (dn_storage D)) (\<lambda>record.
            and_then (map_err AppIdentity (load_keypair E key_file)) (\<lambda>key.
            reject_if (env_pubkey record \<noteq> mldsa_pubkey E key) (AppIdentity PubkeyMismatch)
           (and_then (ok_or AppZoneSerialization (vec_zone E zone)) (\<lambda>payload.
            Ok (case record of Standard r \<Rightarrow> Standard (sign_zone E key payload r))))))))))
      in case prepared of Inl e \<Rightarrow> (Err e, D) | Inr record \<Rightarrow> store_and_publish E S C (AppPublish (PubInternal ''Serialization error'')) fqdn record D)"

record nrs_update_request =
  hot_key_hex :: string
  nu_authorized_manifest :: authorized_manifest
  nu_zone :: nrs_zone

definition load_hot_key :: "'x nrs_api_env_scheme \<Rightarrow> string \<Rightarrow> bytes response" where
  "load_hot_key E hex =
     and_then (ok_or (AppBad BadHotKeyHex) (hex_decode E hex)) (\<lambda>b. ok_or (AppBad BadHotKey) (key_from_slice E b))"

definition handle_publish_nrs_update ::
  "'x nrs_api_env_scheme \<Rightarrow> ('s, 'y) storage_ops_scheme \<Rightarrow> network_client \<Rightarrow> role \<Rightarrow> string \<Rightarrow> nrs_update_request \<Rightarrow> 's daemon
     \<Rightarrow> unit response \<times> 's daemon" where
  "handle_publish_nrs_update E S C role name req D =
     (let fqdn = normalize_name E name;
          prepared =
            reject_if (\<not> can_nrs role) (AppRest InsufficientPrivileges)
           (and_then (map_err AppNames (is_valid_apex_name E fqdn)) (\<lambda>_.
            reject_if (\<not> has_capability ''kinetic.capability.dns_update'' (nu_authorized_manifest req))
              (AppBad (CapabilityMissing ''kinetic.capability.dns_update''))
           (and_then (load_hot_key E (hot_key_hex req)) (\<lambda>key.
            and_then (load_reveal E S fqdn (dn_storage D)) (\<lambda>record.
            and_then (ok_or AppZoneSerialization (vec_zone E (nu_zone req))) (\<lambda>payload.
            Ok (case record of Standard r \<Rightarrow>
                  Standard (sign_zone E key payload (r\<lparr>rv_authorization := Some (nu_authorized_manifest req)\<rparr>)))))))))
      in case prepared of Inl e \<Rightarrow> (Err e, D) | Inr record \<Rightarrow> store_and_publish E S C AppPanicked fqdn record D)"

section \<open>Heartbeats (api/heartbeat.rs)\<close>

definition ACTIVE_HEARTBEAT_MAX_KYNS :: u64 where "ACTIVE_HEARTBEAT_MAX_KYNS = 200"
definition STALE_HEARTBEAT_MAX_KYNS :: u64 where "STALE_HEARTBEAT_MAX_KYNS = 28800"

record heartbeat_status =
  hs_name :: string
  hs_status :: string
  hs_latest_kyn :: kyn
  hs_kyns_idle :: u64

definition heartbeat_status_of ::
  "'x nrs_api_env_scheme \<Rightarrow> kyn \<Rightarrow> string \<Rightarrow> (resolution_error, bytes) result \<Rightarrow> heartbeat_status" where
  "heartbeat_status_of E current name res =
     (case res of
        Inl _ \<Rightarrow> \<lparr>hs_name = name, hs_status = ''Idle (Not Found on DHT)'', hs_latest_kyn = 0, hs_kyns_idle = 0\<rparr>
      | Inr b \<Rightarrow>
          (case from_slice_heartbeat E b of
             None \<Rightarrow> \<lparr>hs_name = name, hs_status = ''Unknown (Parse Error)'', hs_latest_kyn = 0, hs_kyns_idle = 0\<rparr>
           | Some hb \<Rightarrow>
               (let age = saturating_sub current (latest_kyn hb)
                in \<lparr>hs_name = name,
                     hs_status = (if age \<le> ACTIVE_HEARTBEAT_MAX_KYNS then ''Active''
                       else if age \<le> STALE_HEARTBEAT_MAX_KYNS then ''Stale'' else ''Idle''),
                     hs_latest_kyn = latest_kyn hb, hs_kyns_idle = age\<rparr>)))"

definition handle_get_heartbeats ::
  "'x nrs_api_env_scheme \<Rightarrow> ('s, 'y) storage_ops_scheme \<Rightarrow> network_client \<Rightarrow> u64 \<Rightarrow> 's daemon
     \<Rightarrow> (kyn \<times> heartbeat_status list) response" where
  "handle_get_heartbeats E S C now D =
     and_then (map_err AppStorage (st_get S (dn_storage D) (DB_PREFIX_OWNED_NAMES E))) (\<lambda>b.
     and_then (case b of None \<Rightarrow> Ok [] | Some b \<Rightarrow> ok_or (AppStorage (DeserializationFailed ''owned names'')) (slice_names E b))
       (\<lambda>owned.
        let current = safe_current_kyn E S C now (dn_storage D)
        in Ok (current, map (\<lambda>name. heartbeat_status_of E current name (client_resolve_heartbeat C name)) owned)))"

definition send_heartbeat ::
  "'x nrs_api_env_scheme \<Rightarrow> network_client \<Rightarrow> string \<Rightarrow> bytes \<Rightarrow> kyn \<Rightarrow> authorized_manifest option \<Rightarrow> string \<Rightarrow> 's daemon
     \<Rightarrow> kyn response \<times> 's daemon" where
  "send_heartbeat E C failure key current auth name D =
     (let hb = \<lparr>hb_name = name, latest_kyn = current, hb_owner_signature = [], hb_authorization = auth\<rparr>;
          hb = hb\<lparr>hb_owner_signature := mldsa_sign E key (heartbeat_signable_bytes hb (NETWORK_SALT E))\<rparr>
      in case vec_heartbeat E hb of
           None \<Rightarrow> (Err (AppRest (BadRequest failure)), D)
         | Some payload \<Rightarrow>
             (case publish_heartbeat C name payload of
                Inl e \<Rightarrow> (Err (AppPublish e), D)
              | Inr _ \<Rightarrow> (Ok current, D\<lparr>dn_heartbeats := dn_heartbeats D @ [(name, payload)]\<rparr>)))"

definition handle_post_heartbeat ::
  "'x nrs_api_env_scheme \<Rightarrow> ('s, 'y) storage_ops_scheme \<Rightarrow> network_client \<Rightarrow> bytes \<Rightarrow> u64 \<Rightarrow> role \<Rightarrow> string \<Rightarrow> 's daemon
     \<Rightarrow> kyn response \<times> 's daemon" where
  "handle_post_heartbeat E S C daemon_keypair now role name D =
     (let normalized = normalize_name E name in
      case reject_if (\<not> role_can_heartbeat role) (AppRest InsufficientPrivileges)
          (map_err AppNames (is_valid_apex_name E normalized)) of
        Inl e \<Rightarrow> (Err e, D)
      | Inr _ \<Rightarrow> send_heartbeat E C ''Failed to serialize heartbeat'' daemon_keypair (safe_current_kyn E S C now (dn_storage D)) None normalized D)"

record authorized_update_request =
  au_hot_key_hex :: string
  au_authorized_manifest :: authorized_manifest

definition handle_post_authorized_update ::
  "'x nrs_api_env_scheme \<Rightarrow> ('s, 'y) storage_ops_scheme \<Rightarrow> network_client \<Rightarrow> u64 \<Rightarrow> role \<Rightarrow> string
     \<Rightarrow> authorized_update_request \<Rightarrow> 's daemon \<Rightarrow> kyn response \<times> 's daemon" where
  "handle_post_authorized_update E S C now role name req D =
     (let normalized = normalize_name E name in
      case reject_if (\<not> role_can_heartbeat role) (AppRest InsufficientPrivileges)
          (and_then (map_err AppNames (is_valid_apex_name E normalized)) (\<lambda>_.
           reject_if (\<not> has_capability ''kinetic.capability.heartbeat'' (au_authorized_manifest req))
             (AppBad (CapabilityMissing ''kinetic.capability.heartbeat''))
          (load_hot_key E (au_hot_key_hex req)))) of
        Inl e \<Rightarrow> (Err e, D)
      | Inr key \<Rightarrow>
          send_heartbeat E C ''Failed to serialize authorized update'' key (safe_current_kyn E S C now (dn_storage D)) (Some (au_authorized_manifest req)) normalized D)"

section \<open>Publishing a record\<close>

lemma publish_redundant_Ok:
  "publish_redundant_payload C name payload = Ok () \<longleftrightarrow> length payload \<le> 80000 \<and> cl_publish C name payload = Answered (Ok ())"
  by (simp add: publish_redundant_payload_def publish_reply_def not_less split: reply.split)

lemma reveal_age_Ok:
  "reveal_age_check current k = Ok () \<longleftrightarrow> (0 < current \<longrightarrow> k \<le> current \<and> current - k \<le> RESQUARING_EPOCH_KYNS)"
  by (auto simp: reveal_age_check_def Let_def)

text \<open>Handlers check first and change the state afterwards.\<close>

lemma checked_then_Ok [result_simps]:
  "(case x of Inl e \<Rightarrow> (Err e, D) | Inr p \<Rightarrow> (Ok (), f p)) = (Ok (), D') \<longleftrightarrow> (\<exists>p. x = Ok p \<and> D' = f p)"
  by (cases x) auto

lemma owned_bounded: "length owned \<le> 10000 \<Longrightarrow> length (add_owned owned fqdn) \<le> 10000"
  by (simp add: add_owned_def Let_def)

lemma owned_added: "fqdn \<in> set (add_owned owned fqdn)"
  by (simp add: add_owned_def Let_def)

text \<open>The record as it is published: under the normal form of its name.\<close>

definition published_reveal :: "'x crypto_scheme \<Rightarrow> reveal \<Rightarrow> reveal" where
  "published_reveal E r = r\<lparr>rv_name := normalize_name E (rv_name r)\<rparr>"

definition publishable ::
  "'x nrs_api_env_scheme \<Rightarrow> ('s, 'y) storage_ops_scheme \<Rightarrow> network_client \<Rightarrow> u64 \<Rightarrow> role \<Rightarrow> reveal \<Rightarrow> 's \<Rightarrow> bytes \<Rightarrow> bool" where
  "publishable E S C now role r st payload \<longleftrightarrow> can_nrs role \<and> validate E (published_reveal E r) = Ok ()
     \<and> (let t = safe_current_kyn E S C now st in 0 < t \<longrightarrow> rv_kyn r \<le> t \<and> t - rv_kyn r \<le> RESQUARING_EPOCH_KYNS)
     \<and> vec_envelope E (Standard (published_reveal E r)) = Some payload \<and> length payload \<le> 80000
     \<and> cl_publish C (normalize_name E (rv_name r)) payload = Answered (Ok ())"

lemma validate_apex: "validate E r = Ok () \<Longrightarrow> is_valid_apex_name E (rv_name r) = Ok ()"
  by (auto simp: validate_def result_simps)

lemma publish_record_Ok:
  "handle_publish_record E S C now role (Standard r) D = (Ok (), D') \<longleftrightarrow>
     (\<exists>payload. publishable E S C now role r (dn_storage D) payload
        \<and> D' = D\<lparr>dn_storage := persist_reveal E S (normalize_name E (rv_name r)) (Standard (published_reveal E r))
                   (persist_owned E S (normalize_name E (rv_name r)) (dn_storage D)),
             dn_published := dn_published D @ [(normalize_name E (rv_name r), payload)],
             dn_quorums := dn_quorums D @ [(normalize_name E (rv_name r), payload)]\<rparr>)"
proof -
  have v: "validate E (r\<lparr>rv_name := normalize_name E (rv_name r)\<rparr>) = Ok ()
      \<Longrightarrow> is_valid_apex_name E (normalize_name E (rv_name r)) = Ok ()"
    using validate_apex by fastforce
  show ?thesis
    unfolding handle_publish_record_def Let_def publishable_def published_reveal_def
    by (auto simp: result_simps publish_redundant_Ok reveal_age_Ok v)
qed


text \<open>A publication is stored under the name, and the name is added to the owned names.\<close>

definition envelope_codec :: "'x nrs_api_env_scheme \<Rightarrow> bool" where
  "envelope_codec E \<longleftrightarrow> (\<forall>r b. vec_envelope E r = Some b \<longrightarrow> from_slice_envelope E b = Some r)"

lemma valid_not_reserved:
  assumes "names_ok E" and "list_all is_ascii (normalize_name E n)" and "is_valid_apex_name E (normalize_name E n) = Ok ()"
  shows "\<not> is_reserved_name E (normalize_name E n)"
  using assms(3) unfolding is_valid_apex_name_def normalize_fixed [OF assms(1,2)] by (auto simp: result_simps Let_def)

context total_storage_engine
begin

lemma persist_owned_wf: "wf st \<Longrightarrow> wf (persist_owned E S fqdn st)"
  using put_wf [of st "DB_PREFIX_OWNED_NAMES E"]
  by (auto simp: persist_owned_def Let_def split: option.split) (metis prod.collapse)

lemma persist_reveal_contents:
  assumes "wf st" and "vec_envelope E rec = Some b" and "is_ok (fst (st_put S st (reveal_key E fqdn) b))"
  shows "wf (persist_reveal E S fqdn rec st) \<and> contents (persist_reveal E S fqdn rec st) (reveal_key E fqdn) = Some b"
proof -
  obtain u st' where p: "st_put S st (reveal_key E fqdn) b = (Ok u, st')"
    using assms(3) by (cases "st_put S st (reveal_key E fqdn) b") (auto simp: is_ok_def split: sum.splits)
  then show ?thesis using put_ok [OF assms(1) p] put_wf [OF assms(1) p] assms(2) by (simp add: persist_reveal_def)
qed

lemma resolve_fallback:
  assumes "wf (dn_storage D)" and "contents (dn_storage D) (reveal_key E (normalize_name E name)) = Some b"
    and "from_slice_envelope E b = Some rec" and "is_ok (st_get S (dn_storage D) (reveal_key E (normalize_name E name)))"
    and "\<not> is_reserved_name E (normalize_name E name)"
    and "cl_resolve C (normalize_name E name) = Answered (Err (ResNotFound n q))"
  shows "handle_resolve_name E S C name D = Ok rec"
proof -
  obtain x where x: "st_get S (dn_storage D) (reveal_key E (normalize_name E name)) = Ok x"
    using assms(4) by (auto simp: is_ok_def split: sum.splits)
  with get_ok [OF assms(1) x] assms(2) have "x = Some b" by simp
  then show ?thesis
    using assms(3,5,6) x
    by (simp add: handle_resolve_name_def Let_def resolve_redundant_payload_def resolve_reply_def resolve_stored_def)
qed

end


section \<open>Zone updates\<close>

lemma sign_zone_keeps [simp]:
  "embedded_nrs (sign_zone E key payload r) = payload" "rv_pubkey (sign_zone E key payload r) = rv_pubkey r"
  "rv_name (sign_zone E key payload r) = rv_name r" "rv_authorization (sign_zone E key payload r) = rv_authorization r"
  "rv_previous_proof (sign_zone E key payload r) = rv_previous_proof r"
  by (simp_all add: sign_zone_def Let_def)

lemma signable_unsigned [simp]: "reveal_signable_bytes (r\<lparr>identity_signature := sig\<rparr>) salt = reveal_signable_bytes r salt"
  by (simp add: reveal_signable_bytes_def)

lemma sign_zone_signature:
  assumes "signing_sound E key"
  shows "signed_by E (mldsa_pubkey E key) (reveal_signable_bytes (sign_zone E key payload r) (NETWORK_SALT E))
    (identity_signature (sign_zone E key payload r))"
  using assms by (simp add: sign_zone_def Let_def signing_sound_def)

text \<open>The previous proof of a record, which an update leaves alone, is signed by the owner.\<close>

definition previous_signed :: "'x crypto_scheme \<Rightarrow> reveal \<Rightarrow> bool" where
  "previous_signed E r \<longleftrightarrow> (\<forall>p. rv_previous_proof r = Some p \<longrightarrow>
     signed_by E (rv_pubkey r) (previous_signable_bytes p (NETWORK_SALT E)) (pp_identity_signature p))"

lemma reveal_verifies:
  "envelope_verify_signature E (Standard r) (NETWORK_SALT E) = Ok () \<longleftrightarrow> previous_signed E r
     \<and> (case rv_authorization r of
          None \<Rightarrow> signed_by E (rv_pubkey r) (reveal_signable_bytes r (NETWORK_SALT E)) (identity_signature r)
        | Some auth \<Rightarrow> am_name auth = rv_name r
            \<and> signed_by E (rv_pubkey r) (manifest_signable_bytes E auth (NETWORK_SALT E)) (am_owner_signature auth)
            \<and> has_capability ''kinetic.capability.dns_update'' auth
            \<and> (\<exists>d. am_kid_doc auth = Some d
                 \<and> delegate_verifies E (reveal_signable_bytes r (NETWORK_SALT E)) (identity_signature r) d))"
  by (auto simp: envelope_verify_signature_def reveal_verify_signature_def Let_def result_simps
      previous_signed_def split: option.splits)

lemma store_and_publish_Ok:
  "store_and_publish E S C e fqdn rec D = (Ok (), D') \<longleftrightarrow>
     (\<exists>b. vec_envelope E rec = Some b \<and> length b \<le> 80000 \<and> cl_publish C fqdn b = Answered (Ok ())
        \<and> D' = D\<lparr>dn_storage := persist_reveal E S fqdn rec (dn_storage D), dn_published := dn_published D @ [(fqdn, b)]\<rparr>)"
  by (auto simp: store_and_publish_def Let_def publish_redundant_Ok split: option.splits sum.splits)
     (metis publish_redundant_Ok sum.distinct(1))+

lemma prepared_then:
  "(case x of Inl e \<Rightarrow> (Err e, D) | Inr rec \<Rightarrow> f rec) = (Ok (), D') \<longleftrightarrow> (\<exists>rec. x = Ok rec \<and> f rec = (Ok (), D'))"
  by (cases x) auto

lemma env_case: "(case rec of Standard r \<Rightarrow> Standard (f r)) = Standard (f (standard_reveal rec))"
  by (cases rec) simp

lemma load_keypair_Ok: "load_keypair E f = Ok key \<longleftrightarrow> (\<exists>data. f = Some data \<and> 32 \<le> length data \<and> key = key_from_seed E (take 32 data))"
  by (auto simp: load_keypair_def split: option.splits)

text \<open>An owner's zone update is the registered record with the zone file of the name as its zone: it is
  published only under the key of the registration, and it verifies whenever the registration was not updated
  by a delegate before.\<close>

lemma zone_update_verifies:
  assumes "handle_publish_zone E S C key_file role name D = (Ok (), D')"
    and "load_reveal E S (normalize_name E name) (dn_storage D) = Ok (Standard r)"
    and "load_keypair E key_file = Ok key" and "signing_sound E key"
  shows "can_nrs role \<and> rv_pubkey r = mldsa_pubkey E key
    \<and> (\<exists>content zone payload b. dn_config_zones D (normalize_name E name) = FileText content
         \<and> text_zone E content = Some zone \<and> vec_zone E zone = Some payload
         \<and> vec_envelope E (Standard (sign_zone E key payload r)) = Some b
         \<and> dn_published D' = dn_published D @ [(normalize_name E name, b)]
         \<and> (rv_authorization r = None \<and> previous_signed E r
              \<longrightarrow> envelope_verify_signature E (Standard (sign_zone E key payload r)) (NETWORK_SALT E) = Ok ()))"
proof -
  obtain content zone payload b where
    z: "dn_config_zones D (normalize_name E name) = FileText content" "text_zone E content = Some zone" "vec_zone E zone = Some payload"
      "vec_envelope E (Standard (sign_zone E key payload r)) = Some b" "dn_published D' = dn_published D @ [(normalize_name E name, b)]"
    and k: "can_nrs role" "rv_pubkey r = mldsa_pubkey E key"
    using assms(1-3) unfolding handle_publish_zone_def Let_def
    by (auto simp: prepared_then result_simps store_and_publish_Ok env_case split: zone_file.splits)
  moreover have "envelope_verify_signature E (Standard (sign_zone E key payload r)) (NETWORK_SALT E) = Ok ()"
    if "rv_authorization r = None" "previous_signed E r"
    using that sign_zone_signature [OF assms(4)] k by (simp add: reveal_verifies previous_signed_def)
  ultimately show ?thesis
    by (intro conjI exI [of _ content] exI [of _ zone] exI [of _ payload] exI [of _ b] impI) simp_all
qed

text \<open>After a delegate's update the owner cannot publish a valid zone: the handler succeeds, yet the record it
  publishes still carries the delegation and is refused by every verifier, unless the delegate's identity lists
  the owner's own key.\<close>

lemma owner_locked_out:
  assumes "handle_publish_zone E S C key_file role name D = (Ok (), D')"
    and "load_reveal E S (normalize_name E name) (dn_storage D) = Ok (Standard r)"
    and "load_keypair E key_file = Ok key" and "rv_authorization r = Some auth"
    and "\<forall>d m. am_kid_doc auth = Some d \<longrightarrow> \<not> delegate_verifies E m (mldsa_sign E key m) d"
  shows "\<exists>r' b. dn_published D' = dn_published D @ [(normalize_name E name, b)] \<and> vec_envelope E (Standard r') = Some b
    \<and> rv_authorization r' = Some auth \<and> envelope_verify_signature E (Standard r') (NETWORK_SALT E) \<noteq> Ok ()"
proof -
  obtain payload b where z: "vec_envelope E (Standard (sign_zone E key payload r)) = Some b"
      "dn_published D' = dn_published D @ [(normalize_name E name, b)]"
    using assms(1-3) unfolding handle_publish_zone_def Let_def
    by (auto simp: prepared_then result_simps store_and_publish_Ok env_case split: zone_file.splits)
  moreover have "\<not> envelope_verify_signature E (Standard (sign_zone E key payload r)) (NETWORK_SALT E) = Ok ()"
    using assms(4,5) by (auto simp: reveal_verifies sign_zone_def Let_def)
  ultimately show ?thesis using assms(4) sign_zone_keeps(4) by metis
qed

text \<open>A delegate's zone update verifies when its authorisation is what the verifiers ask for: signed by the
  owner for this name, with an identity that lists the delegate's key. The handler itself only checks the
  capability.\<close>

lemma delegated_update_verifies:
  assumes "handle_publish_nrs_update E S C role name req D = (Ok (), D')"
    and "load_reveal E S (normalize_name E name) (dn_storage D) = Ok (Standard r)"
    and "load_hot_key E (hot_key_hex req) = Ok key" and "signing_sound E key" and "previous_signed E r"
    and "am_name (nu_authorized_manifest req) = rv_name r"
    and "signed_by E (rv_pubkey r) (manifest_signable_bytes E (nu_authorized_manifest req) (NETWORK_SALT E))
           (am_owner_signature (nu_authorized_manifest req))"
    and "am_kid_doc (nu_authorized_manifest req) = Some d" and "ck \<in> set (controller_keys d)"
    and "key_type ck = ''Delegated''" and "b64_decode E (public_key ck) = Some (mldsa_pubkey E key)"
  shows "can_nrs role \<and> (\<exists>payload b r'. vec_zone E (nu_zone req) = Some payload \<and> embedded_nrs r' = payload
    \<and> vec_envelope E (Standard r') = Some b \<and> dn_published D' = dn_published D @ [(normalize_name E name, b)]
    \<and> envelope_verify_signature E (Standard r') (NETWORK_SALT E) = Ok ())"
proof -
  let ?r = "r\<lparr>rv_authorization := Some (nu_authorized_manifest req)\<rparr>"
  obtain payload b where
    z: "vec_zone E (nu_zone req) = Some payload" "vec_envelope E (Standard (sign_zone E key payload ?r)) = Some b"
      "dn_published D' = dn_published D @ [(normalize_name E name, b)]"
    and k: "can_nrs role" "has_capability ''kinetic.capability.dns_update'' (nu_authorized_manifest req)"
    using assms(1-3) unfolding handle_publish_nrs_update_def Let_def
    by (auto simp: prepared_then result_simps store_and_publish_Ok env_case)
  have "delegate_verifies E (reveal_signable_bytes (sign_zone E key payload ?r) (NETWORK_SALT E))
      (identity_signature (sign_zone E key payload ?r)) d"
    using sign_zone_signature [OF assms(4), of payload ?r] assms(9-11)
    by (auto simp: delegate_verifies_def list_ex_iff key_verifies_iff)
  then have "envelope_verify_signature E (Standard (sign_zone E key payload ?r)) (NETWORK_SALT E) = Ok ()"
    using assms(5-8) k(2) by (simp add: reveal_verifies previous_signed_def)
  with z k(1) show ?thesis by (metis sign_zone_keeps(1))
qed

text \<open>C14. A delegation can be taken over: the owner's signature of a delegation covers the name and the manifest but
  not the identity document whose keys may sign, and a verifier does not relate the two. From any delegated
  record that verifies, the holder of an arbitrary key makes a record of the same owner with a zone of his
  choice that verifies too.\<close>

theorem delegation_forgery:
  assumes "envelope_verify_signature E (Standard r) (NETWORK_SALT E) = Ok ()" and "rv_authorization r = Some auth"
    and "signing_sound E attacker"
  shows "\<exists>r'. embedded_nrs r' = zone \<and> rv_name r' = rv_name r \<and> rv_pubkey r' = rv_pubkey r
    \<and> identity_signature r' = mldsa_sign E attacker (reveal_signable_bytes r' (NETWORK_SALT E))
    \<and> envelope_verify_signature E (Standard r') (NETWORK_SALT E) = Ok ()"
proof -
  obtain d where d: "am_kid_doc auth = Some d" using assms(1,2) by (auto simp: reveal_verifies)
  let ?ck = "\<lparr>ck_id = [], key_type = ''Delegated'', public_key = b64_encode E (mldsa_pubkey E attacker)\<rparr>"
  let ?auth = "auth\<lparr>am_kid_doc := Some (d\<lparr>controller_keys := [?ck]\<rparr>)\<rparr>"
  let ?r = "sign_zone E attacker zone (r\<lparr>rv_authorization := Some ?auth\<rparr>)"
  have "b64_decode E (public_key ?ck) = Some (mldsa_pubkey E attacker)" using assms(3) by (simp add: signing_sound_def)
  then have "delegate_verifies E (reveal_signable_bytes ?r (NETWORK_SALT E)) (identity_signature ?r) (d\<lparr>controller_keys := [?ck]\<rparr>)"
    using sign_zone_signature [OF assms(3)] by (simp add: delegate_verifies_def key_verifies_iff)
  moreover have "manifest_signable_bytes E ?auth n = manifest_signable_bytes E auth n" for n
    by (simp add: manifest_signable_bytes_def)
  ultimately have "envelope_verify_signature E (Standard ?r) (NETWORK_SALT E) = Ok ()"
    using assms(1,2) by (auto simp: reveal_verifies previous_signed_def has_capability_def)
  then show ?thesis by (intro exI [of _ ?r]) (simp add: sign_zone_def Let_def)
qed

section \<open>Scopes and reserved names\<close>

lemma session_role_nrs:
  assumes "\<forall>scope\<in>set scopes. lower E scope \<noteq> ''admin'' \<and> lower E scope \<noteq> ''nrs''"
  shows "\<not> can_nrs (session_role E scopes)"
proof -
  have "can_nrs (fold (grant_scope E) scopes r) = can_nrs r" for r
    using assms by (induction scopes arbitrary: r) (simp_all add: grant_scope_def Let_def can_nrs_def)
  then show ?thesis by (simp add: session_role_def no_role_def can_nrs_def)
qed


text \<open>The object built for a reserved name has no \<open>record_type\<close>, the tag of every \<open>NameEnvelope\<close>; as it does not
  deserialise, no reserved name resolves, whatever its local zone is.\<close>

lemma reserved_never_resolves:
  assumes "\<And>b. dummy_envelope E b = None" and "is_reserved_name E (normalize_name E name)"
  shows "handle_resolve_name E S C name D = Err (AppResolution (ResNotFound (normalize_name E name) 0))"
  using assms by (simp add: handle_resolve_name_def resolve_reserved_def Let_def split: zone_file.split option.split)

section \<open>Witnesses\<close>

definition sample_delegation :: authorized_manifest where
  "sample_delegation = \<lparr>am_name = ''satoshi.kin'',
     am_manifest = \<lparr>man_type = [], man_kid = sample_did, version = 1, valid_from = 0, expires_at = None,
       services = [\<lparr>svc_id = [], service_type = ''kinetic.capability.dns_update'', protocol = [], endpoint = []\<rparr>], man_signature = None\<rparr>,
     am_kid_doc = Some sample_document, am_owner_signature = []\<rparr>"

definition sample_nrs :: "(name_envelope \<Rightarrow> bytes option) \<Rightarrow> nrs_api_env" where
  "sample_nrs vec = api_env.extend sample_api (nrs_api_env.fields
     (\<lambda>b. if b = [1] then Some (Standard sample_reveal)
          else if b = [4] then Some (Standard (sample_reveal\<lparr>rv_authorization := Some sample_delegation\<rparr>)) else None)
     vec (\<lambda>_. Some [0]) (\<lambda>_. Some [6]) (\<lambda>_. Some []) (\<lambda>_. Some [5]) (\<lambda>_. Some [5]) (\<lambda>_. None) (\<lambda>_. None)
     (\<lambda>_. replicate 1952 0) Some ''reveal:'')"

lemmas sample_nrs_simps = sample_nrs_def api_env.defs nrs_api_env.defs sample_api_def sample_time_simps

definition sample_client :: network_client where
  "sample_client = \<lparr>cl_publish = \<lambda>_ _. Answered (Ok ()), cl_heartbeat = \<lambda>_ _. Answered (Ok ()),
     cl_resolve = \<lambda>_. Answered (Err (ResNotFound [] 0)), cl_resolve_heartbeat = \<lambda>_. Closed,
     cl_verify_quorum = \<lambda>_ _. Closed, cl_current_kyn = Answered 1000\<rparr>"

definition sample_daemon :: "(bytes \<times> bytes) list \<Rightarrow> bytes wasm_storage daemon" where
  "sample_daemon kvs = \<lparr>dn_storage = \<lparr>db = kvs, opfs_handle = None\<rparr>, dn_config_zones = \<lambda>_. FileText [],
     dn_local_zones = \<lambda>_. NoFile, dn_published = [], dn_heartbeats = [], dn_quorums = []\<rparr>"

definition sample_vec :: "name_envelope \<Rightarrow> bytes option" where
  "sample_vec r = (if r = Standard sample_reveal then Some [1] else None)"

lemma sample_nrs_names: "names_ok (sample_nrs vec)"
  by (rule sample_names_ok) (simp_all add: sample_nrs_simps)

lemma sample_nrs_suffix: "NSP_SUFFIX (sample_nrs vec) = ''.kin''"
  by (simp add: sample_nrs_simps)

lemmas sample_nrs_normal = satoshi_normal [OF sample_nrs_names sample_nrs_suffix]

lemma sample_published: "published_reveal (sample_nrs vec) sample_reveal = sample_reveal"
  using sample_nrs_normal [of vec] by (simp add: published_reveal_def sample_reveal_def)

lemma sample_reveal_valid: "validate (sample_nrs vec) sample_reveal = Ok ()"
  using satoshi_valid [OF sample_nrs_names sample_nrs_suffix, of vec]
  by (simp add: validate_def sample_reveal_def MAX_PAYLOAD_SIZE_def KINETIC_PUBKEY_LENGTH_def KINETIC_SIGNATURE_LENGTH_def)

lemma sample_nrs_fields:
  "vec_envelope (sample_nrs vec) = vec" "from_slice_envelope (sample_nrs vec) [1] = Some (Standard sample_reveal)"
  "from_slice_envelope (sample_nrs vec) [4] = Some (Standard (sample_reveal\<lparr>rv_authorization := Some sample_delegation\<rparr>))"
  "vec_names (sample_nrs vec) ns = Some [6]" "text_zone (sample_nrs vec) c = Some []" "vec_zone (sample_nrs vec) z = Some [5]"
  "key_from_seed (sample_nrs vec) d = replicate 1952 0" "key_from_slice (sample_nrs vec) d = Some d" "DB_PREFIX_REVEAL (sample_nrs vec) = ''reveal:''"
  "mldsa_pubkey (sample_nrs vec) = id" "hex_decode (sample_nrs vec) h = Some (as_bytes h)"
  by (simp_all add: sample_nrs_simps)

lemma sample_publishable: "publishable (sample_nrs sample_vec) sample_engine sample_client 0 admin_role sample_reveal st [1]"
  by (simp add: publishable_def sample_published sample_reveal_valid safe_current_kyn_def sample_client_def admin_role_def
      can_nrs_def RESQUARING_EPOCH_KYNS_def Let_def sample_nrs_fields sample_vec_def)
     (simp add: sample_reveal_def)



lemma sample_signs: "signing_sound (sample_nrs vec) key"
  by (simp add: signing_sound_def signed_by_def sample_nrs_simps sample_b64)

lemma sample_load:
  "load_reveal (sample_nrs vec) sample_engine ''satoshi.kin'' (dn_storage (sample_daemon [(as_bytes ''reveal:satoshi.kin'', b)]))
     = ok_or (AppStorage (DeserializationFailed ''Stored registration data is corrupted.'')) (from_slice_envelope (sample_nrs vec) b)"
  by (simp add: load_reveal_def reveal_key_def sample_daemon_def storage_get_def sample_nrs_fields map_err_def)

lemma sample_keypair: "load_keypair (sample_nrs vec) (Some (replicate 32 0)) = Ok (replicate 1952 0)"
  by (simp add: load_keypair_def sample_nrs_fields)

lemma sample_zone_published:
  assumes "from_slice_envelope (sample_nrs (\<lambda>_. Some [2])) b = Some (Standard r)" and "rv_pubkey r = replicate 1952 0"
  shows "\<exists>D'. handle_publish_zone (sample_nrs (\<lambda>_. Some [2])) sample_engine sample_client (Some (replicate 32 0)) admin_role ''satoshi.kin''
    (sample_daemon [(as_bytes ''reveal:satoshi.kin'', b)]) = (Ok (), D') \<and> dn_published D' = [(''satoshi.kin'', [2])]"
proof -
  have "dn_config_zones (sample_daemon kvs) n = FileText []" "dn_published (sample_daemon kvs) = []"
    "cl_publish sample_client n b = Answered (Ok ())" for kvs n b
    by (simp_all add: sample_daemon_def sample_client_def)
  then show ?thesis
    using assms satoshi_valid [OF sample_nrs_names sample_nrs_suffix] unfolding handle_publish_zone_def Let_def sample_nrs_normal
    by (simp add: sample_load sample_keypair store_and_publish_Ok sample_nrs_fields admin_role_def can_nrs_def)
qed

text \<open>A delegation to the key \<open>K\<close>, signed by the owner.\<close>

definition sample_hot :: authorized_manifest where
  "sample_hot = (let d = sample_delegation\<lparr>am_kid_doc := Some (sample_document\<lparr>controller_keys := [sample_key\<lparr>key_type := ''Delegated''\<rparr>]\<rparr>)\<rparr>
     in d\<lparr>am_owner_signature := manifest_signable_bytes (sample_nrs (\<lambda>_. Some [2])) d (NETWORK_SALT (sample_nrs (\<lambda>_. Some [2])))\<rparr>)"

text \<open>A session for delay computations only.\<close>

definition vdf_session :: app_session where
  "vdf_session = \<lparr>as_id = ''i'', as_token = ''t'', as_app_name = [], as_scopes = [''VDF''], as_created_at = 0, as_expiry_kyn = 0\<rparr>"

definition vdf_daemon :: "bytes wasm_storage daemon" where
  "vdf_daemon = sample_daemon [(session_token_key ''t'', as_bytes ''i''), (session_key ''i'', vec_session (sample_nrs sample_vec) vdf_session)]"

lemma lower_vdf: "to_lowercase u ''VDF'' = ''vdf''"
  by code_simp


theorem delegation_forgery_witness:
  "\<exists>(r :: reveal) r'. rv_authorization r = Some sample_hot \<and> embedded_nrs r' = [6, 6, 6] \<and> rv_pubkey r' = rv_pubkey r
     \<and> envelope_verify_signature (sample_nrs (\<lambda>_. Some [2])) (Standard r') (NETWORK_SALT (sample_nrs (\<lambda>_. Some [2]))) = Ok ()"
proof -
  let ?E = "sample_nrs (\<lambda>_. Some [2])"
  let ?r = "sign_zone ?E [75] [] (sample_reveal\<lparr>rv_authorization := Some sample_hot\<rparr>)"
  have b: "b64_decode ?E ''K'' = Some (as_bytes ''K'')" by (simp add: sample_nrs_simps)
  have "signed_by ?E pk m sig" for pk m sig by (simp add: signed_by_def sample_nrs_simps)
  then have v: "envelope_verify_signature ?E (Standard ?r) (NETWORK_SALT ?E) = Ok ()"
    using b by (simp add: reveal_verifies previous_signed_def sample_hot_def sample_delegation_def has_capability_def
        sample_reveal_def delegate_verifies_def sample_document_def sample_key_def key_verifies_iff Let_def)
  have a: "rv_authorization ?r = Some sample_hot" by simp
  obtain r' where "embedded_nrs r' = [6, 6, 6]" "rv_pubkey r' = rv_pubkey ?r"
      "envelope_verify_signature ?E (Standard r') (NETWORK_SALT ?E) = Ok ()"
    using delegation_forgery [OF v a sample_signs [where key = "[9]"], of "[6, 6, 6]"] by (elim exE conjE)
  with a have "rv_authorization ?r = Some sample_hot \<and> embedded_nrs r' = [6, 6, 6] \<and> rv_pubkey r' = rv_pubkey ?r
     \<and> envelope_verify_signature ?E (Standard r') (NETWORK_SALT ?E) = Ok ()" by (intro conjI)
  then show ?thesis by blast
qed

end
