(* ===== verification/Kid_Manager.thy ===== *)
theory Kid_Manager
  imports Daemon_Nrs
begin

text \<open>
  Local identities: \<open>kinetic-local/src/kid_manager.rs\<close>, which creates, rotates and revokes identity
  documents and signs manifests, and the identity handlers of the daemon's API
  (\<open>kinetic-daemon/src/api/kid.rs\<close>), which publish the results.

  The identity directory maps paths to files. A write goes through a temporary file and a rename, so
  it replaces the file or leaves it; \<open>io\<close> says which writes fail. A generated key pair and JSON are parameters.
\<close>

section \<open>Files\<close>

text \<open>The flag is set for the directory of subnames.\<close>

datatype kid_path = DidFile bool string | KeyFile bool string | ManifestFile bool string

type_synonym kid_files = "kid_path \<Rightarrow> zone_file"

record kid_paths =
  did_path :: kid_path
  key_path :: kid_path
  manifest_path :: kid_path

record kid_env = nrs_api_env +
  pretty_document :: "document \<Rightarrow> bytes option"
  text_document :: "bytes \<Rightarrow> document option"
  pretty_manifest :: "manifest \<Rightarrow> bytes option"
  text_manifest :: "bytes \<Rightarrow> manifest option"
  key_to_secret :: "bytes \<Rightarrow> bytes"
  vec_authorized_kid :: "authorized_kid \<Rightarrow> bytes option"
  vec_authorized_manifest :: "authorized_manifest \<Rightarrow> bytes option"
  slice_document :: "bytes \<Rightarrow> document option"
  slice_manifest :: "bytes \<Rightarrow> manifest option"
  path_text :: "kid_path \<Rightarrow> string"

definition is_subname :: "'x crypto_scheme \<Rightarrow> string \<Rightarrow> bool" where
  "is_subname E fqdn = (fqdn \<noteq> extract_apex_name E fqdn)"

definition kid_paths_of :: "'x crypto_scheme \<Rightarrow> string \<Rightarrow> kid_paths" where
  "kid_paths_of E name =
     (let fqdn = normalize_name E name; sub = is_subname E fqdn
      in \<lparr>did_path = DidFile sub fqdn, key_path = KeyFile sub fqdn, manifest_path = ManifestFile sub fqdn\<rparr>)"

text \<open>\<open>write_private_key_securely\<close> and \<open>write_json_document\<close>, which differ in the permissions of the file.\<close>

definition write_kid_file ::
  "(kid_path \<Rightarrow> string option) \<Rightarrow> kid_path \<Rightarrow> bytes \<Rightarrow> kid_files \<Rightarrow> (identity_error, unit) result \<times> kid_files" where
  "write_kid_file io path content F =
     (case io path of Some e \<Rightarrow> (Err (Io e), F) | None \<Rightarrow> (Ok (), F(path := FileText content)))"

definition read_kid_file :: "zone_file \<Rightarrow> (identity_error, bytes) result" where
  "read_kid_file f = (case f of FileText c \<Rightarrow> Ok c | FileError e \<Rightarrow> Err (Io e) | NoFile \<Rightarrow> Err (Io ''not found''))"

definition read_document :: "'x kid_env_scheme \<Rightarrow> identity_error \<Rightarrow> zone_file \<Rightarrow> (identity_error, document) result" where
  "read_document E malformed f = and_then (read_kid_file f) (\<lambda>c. ok_or malformed (text_document E c))"

definition load_raw_signing_key :: "'x kid_env_scheme \<Rightarrow> kid_files \<Rightarrow> kid_path \<Rightarrow> (identity_error, bytes) result" where
  "load_raw_signing_key E F path =
     (if F path = NoFile then Err (KidPrivateKeyNotFound (path_text E path))
      else and_then (read_kid_file (F path)) (\<lambda>b. ok_or CorruptedIdentityFile (key_from_slice E b)))"

section \<open>Creating identities\<close>

definition authorize_kid_document ::
  "'x nrs_api_env_scheme \<Rightarrow> bytes option \<Rightarrow> string \<Rightarrow> document \<Rightarrow> (identity_error, authorized_kid) result" where
  "authorize_kid_document E key_file name doc =
     and_then (load_keypair E key_file) (\<lambda>identity_keypair.
     let auth_kid = \<lparr>ak_name = normalize_name E name, ak_kid_doc = doc, ak_owner_signature = []\<rparr>
     in Ok (auth_kid\<lparr>ak_owner_signature := mldsa_sign E identity_keypair (kid_signable_bytes E auth_kid (NETWORK_SALT E))\<rparr>))"

record generated_kid =
  gk_name :: string
  gk_did :: string
  gk_kid_doc :: document
  gk_auth_kid :: authorized_kid
  gk_doc_path :: kid_path
  gk_key_path :: "kid_path option"
  is_inherited :: bool

definition primary_key :: "'x identity_env_scheme \<Rightarrow> string \<Rightarrow> bytes \<Rightarrow> controller_key" where
  "primary_key E did keypair =
     \<lparr>ck_id = did @ ''#primary'', key_type = ''Controller'', public_key = b64_encode E (mldsa_pubkey E keypair)\<rparr>"

definition new_document :: "'x identity_env_scheme \<Rightarrow> bytes \<Rightarrow> ukyn \<Rightarrow> (identity_error, document) result" where
  "new_document E keypair now_ts =
     (let did_str = DID_PREFIX E @ to_hex (sha256 E (mldsa_pubkey E keypair))
      in and_then (map_err (\<lambda>_. InvalidDid) (did_new E did_str)) (\<lambda>kid_did.
         Ok \<lparr>doc_type = ''kinetic.kid.v1'', doc_kid = kid_did, created_at = now_ts,
              controller_keys = [primary_key E did_str keypair], doc_manifest = None, revocation_keys = [],
              deactivated = False, doc_signature = None\<rparr>))"

text \<open>A document signed with a key, and its text.\<close>

definition sign_document ::
  "'x kid_env_scheme \<Rightarrow> bytes \<Rightarrow> document \<Rightarrow> (identity_error, document \<times> bytes) result" where
  "sign_document E key doc =
     and_then (map_err (\<lambda>_. KidSigningFailed) (doc_sign E doc key)) (\<lambda>signed_doc.
     and_then (ok_or SerializationFailed (pretty_document E signed_doc)) (\<lambda>json.
     Ok (signed_doc, json)))"

text \<open>The key is replaced first, then the document.\<close>

definition write_key_and_document ::
  "'x kid_env_scheme \<Rightarrow> (kid_path \<Rightarrow> string option) \<Rightarrow> kid_paths \<Rightarrow> bytes \<Rightarrow> bytes \<Rightarrow> kid_files
     \<Rightarrow> (identity_error, unit) result \<times> kid_files" where
  "write_key_and_document E io paths keypair json F =
     (case write_kid_file io (key_path paths) (key_to_secret E keypair) F of
        (Inl e, F') \<Rightarrow> (Err e, F')
      | (Inr _, F') \<Rightarrow> write_kid_file io (did_path paths) json F')"

definition create_kid ::
  "'x kid_env_scheme \<Rightarrow> (kid_path \<Rightarrow> string option) \<Rightarrow> bytes option \<Rightarrow> bytes \<Rightarrow> string \<Rightarrow> kyn \<Rightarrow> kid_files
     \<Rightarrow> (identity_error, generated_kid) result \<times> kid_files" where
  "create_kid E io key_file keypair fqdn current F =
     (let paths = kid_paths_of E fqdn in
      case and_then (new_document E keypair (to_ukyn current (BEACON_GENESIS E))) (sign_document E keypair) of
        Inl e \<Rightarrow> (Err e, F)
      | Inr (signed_doc, json) \<Rightarrow>
          (case write_key_and_document E io paths keypair json F of
             (Inl e, F') \<Rightarrow> (Err e, F')
           | (Inr _, F') \<Rightarrow>
               (and_then (authorize_kid_document E key_file fqdn signed_doc) (\<lambda>auth_kid.
                Ok \<lparr>gk_name = fqdn, gk_did = as_str (doc_kid signed_doc), gk_kid_doc = signed_doc, gk_auth_kid = auth_kid,
                     gk_doc_path = did_path paths, gk_key_path = Some (key_path paths), is_inherited = False\<rparr>), F')))"

definition get_or_create_kid_for_name ::
  "'x kid_env_scheme \<Rightarrow> (kid_path \<Rightarrow> string option) \<Rightarrow> bytes option \<Rightarrow> bytes \<Rightarrow> string \<Rightarrow> bool \<Rightarrow> bool \<Rightarrow> kyn \<Rightarrow> kid_files
     \<Rightarrow> (identity_error, generated_kid) result \<times> kid_files" where
  "get_or_create_kid_for_name E io key_file keypair name inherit_subname force current F =
     (let fqdn = normalize_name E name;
          apex_doc_path = did_path (kid_paths_of E (extract_apex_name E fqdn))
      in if is_subname E fqdn \<and> inherit_subname \<and> F apex_doc_path \<noteq> NoFile then
           (and_then (read_document E MalformedApexDocument (F apex_doc_path)) (\<lambda>apex_doc.
            and_then (authorize_kid_document E key_file fqdn apex_doc) (\<lambda>auth_kid.
            Ok \<lparr>gk_name = fqdn, gk_did = as_str (doc_kid apex_doc), gk_kid_doc = apex_doc, gk_auth_kid = auth_kid,
                 gk_doc_path = apex_doc_path, gk_key_path = None, is_inherited = True\<rparr>)), F)
         else if F (did_path (kid_paths_of E fqdn)) \<noteq> NoFile \<and> \<not> force then (Err (KidAlreadyExists fqdn), F)
         else create_kid E io key_file keypair fqdn current F)"

section \<open>Rotation, lookup and revocation\<close>

record rotated_kid =
  ro_name :: string
  ro_did :: string
  ro_kid_doc :: document
  ro_auth_kid :: authorized_kid
  ro_doc_path :: kid_path
  ro_key_path :: kid_path

text \<open>The document and the key of a name, both of which have to exist.\<close>

definition load_document_and_key ::
  "'x kid_env_scheme \<Rightarrow> string \<Rightarrow> kid_files \<Rightarrow> (identity_error, document \<times> bytes) result" where
  "load_document_and_key E fqdn F =
     (let paths = kid_paths_of E fqdn in
      reject_if (F (did_path paths) = NoFile) (KidNotFound fqdn)
     (reject_if (F (key_path paths) = NoFile) (KidNotFound fqdn)
     (and_then (read_document E MalformedDocument (F (did_path paths))) (\<lambda>doc.
      and_then (load_raw_signing_key E F (key_path paths)) (\<lambda>key.
      Ok (doc, key))))))"

definition rotated_document :: "'x identity_env_scheme \<Rightarrow> bytes \<Rightarrow> document \<Rightarrow> document" where
  "rotated_document E new_keypair doc =
     doc\<lparr>controller_keys := [primary_key E (as_str (doc_kid doc)) new_keypair], doc_signature := None\<rparr>"

definition rotate_name_kid ::
  "'x kid_env_scheme \<Rightarrow> (kid_path \<Rightarrow> string option) \<Rightarrow> bytes option \<Rightarrow> bytes \<Rightarrow> string \<Rightarrow> kid_files
     \<Rightarrow> (identity_error, rotated_kid) result \<times> kid_files" where
  "rotate_name_kid E io key_file new_keypair name F =
     (let fqdn = normalize_name E name; paths = kid_paths_of E fqdn in
      case and_then (load_document_and_key E fqdn F) (\<lambda>(doc, old_key).
             sign_document E old_key (rotated_document E new_keypair doc)) of
        Inl e \<Rightarrow> (Err e, F)
      | Inr (signed_doc, json) \<Rightarrow>
          (case write_key_and_document E io paths new_keypair json F of
             (Inl e, F') \<Rightarrow> (Err e, F')
           | (Inr _, F') \<Rightarrow>
               (and_then (authorize_kid_document E key_file fqdn signed_doc) (\<lambda>auth_kid.
                Ok \<lparr>ro_name = fqdn, ro_did = as_str (doc_kid signed_doc), ro_kid_doc = signed_doc, ro_auth_kid = auth_kid,
                     ro_doc_path = did_path paths, ro_key_path = key_path paths\<rparr>), F')))"

definition load_local_kid ::
  "'x kid_env_scheme \<Rightarrow> string \<Rightarrow> kid_files \<Rightarrow> (identity_error, document \<times> kid_path) result" where
  "load_local_kid E name F =
     (let fqdn = normalize_name E name; doc_path = did_path (kid_paths_of E fqdn);
          apex_doc_path = did_path (kid_paths_of E (extract_apex_name E fqdn))
      in if F doc_path \<noteq> NoFile then
           and_then (read_document E MalformedDocument (F doc_path)) (\<lambda>doc. Ok (doc, doc_path))
         else if is_subname E fqdn \<and> F apex_doc_path \<noteq> NoFile then
           and_then (read_document E MalformedApexDocument (F apex_doc_path)) (\<lambda>doc. Ok (doc, apex_doc_path))
         else Err (KidNotFound fqdn))"

record local_kid_summary =
  ls_name :: string
  ls_did :: string
  ls_created_at :: ukyn
  ls_doc_path :: kid_path
  has_key :: bool
  ls_deactivated :: bool

text \<open>\<open>entries\<close> are the stems of the JSON files in the order the directory lists them.\<close>

definition summarize_dir :: "'x kid_env_scheme \<Rightarrow> bool \<Rightarrow> string list \<Rightarrow> kid_files \<Rightarrow> local_kid_summary list" where
  "summarize_dir E sub stems F =
     List.map_filter (\<lambda>stem.
       case read_document E MalformedDocument (F (DidFile sub stem)) of
         Inl _ \<Rightarrow> None
       | Inr doc \<Rightarrow> Some \<lparr>ls_name = stem, ls_did = as_str (doc_kid doc), ls_created_at = created_at doc,
           ls_doc_path = DidFile sub stem, has_key = (F (key_path (kid_paths_of E stem)) \<noteq> NoFile),
           ls_deactivated = deactivated doc\<rparr>) stems"

definition list_local_kids ::
  "'x kid_env_scheme \<Rightarrow> (bool \<Rightarrow> (string, string list) result) \<Rightarrow> kid_files \<Rightarrow> (identity_error, local_kid_summary list) result" where
  "list_local_kids E entries F =
     and_then (map_err Io (entries False)) (\<lambda>names.
     and_then (map_err Io (entries True)) (\<lambda>subnames.
     Ok (sort_key (\<lambda>k. as_bytes (ls_name k)) (summarize_dir E False names F @ summarize_dir E True subnames F))))"

definition revoke_local_kid ::
  "'x kid_env_scheme \<Rightarrow> (kid_path \<Rightarrow> string option) \<Rightarrow> string \<Rightarrow> kid_files \<Rightarrow> (identity_error, document) result \<times> kid_files" where
  "revoke_local_kid E io name F =
     (let fqdn = normalize_name E name in
      case and_then (load_document_and_key E fqdn F) (\<lambda>(doc, key).
             sign_document E key (doc\<lparr>deactivated := True, doc_signature := None\<rparr>)) of
        Inl e \<Rightarrow> (Err e, F)
      | Inr (signed_doc, json) \<Rightarrow>
          (case write_kid_file io (did_path (kid_paths_of E fqdn)) json F of
             (Inl e, F') \<Rightarrow> (Err e, F')
           | (Inr _, F') \<Rightarrow> (Ok signed_doc, F')))"

section \<open>Manifests\<close>

definition read_manifest :: "'x kid_env_scheme \<Rightarrow> zone_file \<Rightarrow> (identity_error, manifest option) result" where
  "read_manifest E f =
     and_then (read_kid_file f) (\<lambda>c. and_then (ok_or MalformedManifest (text_manifest E c)) (\<lambda>m. Ok (Some m)))"

definition load_local_manifest :: "'x kid_env_scheme \<Rightarrow> string \<Rightarrow> kid_files \<Rightarrow> (identity_error, manifest option) result" where
  "load_local_manifest E name F =
     (let fqdn = normalize_name E name; path = manifest_path (kid_paths_of E fqdn);
          apex_path = manifest_path (kid_paths_of E (extract_apex_name E fqdn))
      in if F path \<noteq> NoFile then read_manifest E (F path)
         else if is_subname E fqdn \<and> F apex_path \<noteq> NoFile then read_manifest E (F apex_path)
         else Ok None)"

definition effective_key_path :: "'x crypto_scheme \<Rightarrow> string \<Rightarrow> kid_files \<Rightarrow> (identity_error, kid_path) result" where
  "effective_key_path E fqdn F =
     (let path = key_path (kid_paths_of E fqdn); apex_path = key_path (kid_paths_of E (extract_apex_name E fqdn))
      in if F path \<noteq> NoFile then Ok path else if F apex_path \<noteq> NoFile then Ok apex_path else Err (KidNotFound fqdn))"

definition next_version :: "manifest option \<Rightarrow> u64" where
  "next_version existing = (case existing of Some m \<Rightarrow> saturating_add (version m) 1 | None \<Rightarrow> 1)"

definition prepare_manifest ::
  "'x kid_env_scheme \<Rightarrow> string \<Rightarrow> service list \<Rightarrow> kyn \<Rightarrow> kid_files \<Rightarrow> (identity_error, document \<times> manifest \<times> bytes) result" where
  "prepare_manifest E fqdn svcs current F =
     and_then (load_local_kid E fqdn F) (\<lambda>(doc, _).
     reject_if (deactivated doc) (KidDeactivated fqdn)
    (and_then (effective_key_path E fqdn F) (\<lambda>path.
     and_then (load_raw_signing_key E F path) (\<lambda>signing_key.
     and_then (load_local_manifest E fqdn F) (\<lambda>existing.
     and_then (map_err (\<lambda>_. ManifestSigningFailed)
        (man_sign E \<lparr>man_type = ''kinetic.manifest.v1'', man_kid = doc_kid doc, version = next_version existing,
           valid_from = to_ukyn current (BEACON_GENESIS E), expires_at = None, services = svcs, man_signature = None\<rparr>
           signing_key)) (\<lambda>signed_manifest.
     and_then (ok_or SerializationFailed (pretty_manifest E signed_manifest)) (\<lambda>json.
     Ok (doc, signed_manifest, json))))))))"

definition authorize_manifest ::
  "'x nrs_api_env_scheme \<Rightarrow> bytes option \<Rightarrow> string \<Rightarrow> document \<Rightarrow> manifest \<Rightarrow> (identity_error, authorized_manifest) result" where
  "authorize_manifest E key_file fqdn doc m =
     (let auth = \<lparr>am_name = fqdn, am_manifest = m, am_kid_doc = Some doc, am_owner_signature = []\<rparr>
      in and_then (load_keypair E key_file) (\<lambda>owner_key.
         Ok (auth\<lparr>am_owner_signature := mldsa_sign E owner_key (manifest_signable_bytes E auth (NETWORK_SALT E))\<rparr>)))"

definition save_and_sign_local_manifest ::
  "'x kid_env_scheme \<Rightarrow> (kid_path \<Rightarrow> string option) \<Rightarrow> bytes option \<Rightarrow> string \<Rightarrow> service list \<Rightarrow> kyn \<Rightarrow> kid_files
     \<Rightarrow> (identity_error, manifest \<times> authorized_manifest) result \<times> kid_files" where
  "save_and_sign_local_manifest E io key_file name svcs current F =
     (let fqdn = normalize_name E name in
      case prepare_manifest E fqdn svcs current F of
        Inl e \<Rightarrow> (Err e, F)
      | Inr (doc, signed_manifest, json) \<Rightarrow>
          (case write_kid_file io (manifest_path (kid_paths_of E fqdn)) json F of
             (Inl e, F') \<Rightarrow> (Err e, F')
           | (Inr _, F') \<Rightarrow>
               (and_then (authorize_manifest E key_file fqdn doc signed_manifest) (\<lambda>auth. Ok (signed_manifest, auth)), F')))"

section \<open>The identity API (api/kid.rs)\<close>

datatype kid_api_error =
    KidApp app_error | KidIdentity identity_error | BadKidDocument kid_error | BadOwnerSignature | BadManifest kid_error

record 's kid_daemon = "'s daemon" +
  dn_kid_files :: kid_files

record generate_kid_request =
  base_name :: string
  sub_name :: "string option"
  gr_inherit_subname :: bool
  gr_force :: bool

definition requested_name :: "'x crypto_scheme \<Rightarrow> generate_kid_request \<Rightarrow> string" where
  "requested_name E req =
     (let base_fqdn = normalize_name E (base_name req)
      in case sub_name req of Some sub \<Rightarrow> sub @ ''.'' @ base_fqdn | None \<Rightarrow> base_fqdn)"

text \<open>A failed publication of a new document or manifest is only logged.\<close>

definition publish_quietly :: "network_client \<Rightarrow> string \<Rightarrow> bytes option \<Rightarrow> ('s, 'd) daemon_scheme \<Rightarrow> ('s, 'd) daemon_scheme" where
  "publish_quietly C key payload D =
     (case payload of
        None \<Rightarrow> D
      | Some b \<Rightarrow>
          (case publish_redundant_payload C key b of
             Inl _ \<Rightarrow> D | Inr _ \<Rightarrow> D\<lparr>dn_published := dn_published D @ [(key, b)]\<rparr>))"

definition handle_list_kids ::
  "'x kid_env_scheme \<Rightarrow> (bool \<Rightarrow> (string, string list) result) \<Rightarrow> 's kid_daemon \<Rightarrow> (kid_api_error, local_kid_summary list) result" where
  "handle_list_kids E entries D = map_err KidIdentity (list_local_kids E entries (dn_kid_files D))"

definition handle_fetch_kid ::
  "'x kid_env_scheme \<Rightarrow> string \<Rightarrow> 's kid_daemon \<Rightarrow> (kid_api_error, string \<times> document \<times> kid_path) result" where
  "handle_fetch_kid E name D =
     and_then (map_err KidIdentity (load_local_kid E name (dn_kid_files D))) (\<lambda>(doc, path).
     Ok (normalize_name E name, doc, path))"

definition handle_generate_kid ::
  "'x kid_env_scheme \<Rightarrow> ('s, 'y) storage_ops_scheme \<Rightarrow> network_client \<Rightarrow> (kid_path \<Rightarrow> string option) \<Rightarrow> bytes option \<Rightarrow> bytes
     \<Rightarrow> u64 \<Rightarrow> role \<Rightarrow> generate_kid_request \<Rightarrow> 's kid_daemon \<Rightarrow> (kid_api_error, generated_kid) result \<times> 's kid_daemon" where
  "handle_generate_kid E S C io key_file keypair now role req D =
     (if \<not> can_kid role then (Err (KidApp (AppRest InsufficientPrivileges)), D)
      else case get_or_create_kid_for_name E io key_file keypair (requested_name E req) (gr_inherit_subname req) (gr_force req)
                  (safe_current_kyn E S C now (dn_storage D)) (dn_kid_files D) of
        (Inl e, F) \<Rightarrow> (Err (KidIdentity e), D\<lparr>dn_kid_files := F\<rparr>)
      | (Inr res, F) \<Rightarrow>
          (Ok res, publish_quietly C (gk_did res) (vec_authorized_kid E (gk_auth_kid res)) (D\<lparr>dn_kid_files := F\<rparr>)))"

definition handle_rotate_kid ::
  "'x kid_env_scheme \<Rightarrow> network_client \<Rightarrow> (kid_path \<Rightarrow> string option) \<Rightarrow> bytes option \<Rightarrow> bytes \<Rightarrow> role \<Rightarrow> string
     \<Rightarrow> 's kid_daemon \<Rightarrow> (kid_api_error, rotated_kid) result \<times> 's kid_daemon" where
  "handle_rotate_kid E C io key_file keypair role name D =
     (if \<not> can_kid role then (Err (KidApp (AppRest InsufficientPrivileges)), D)
      else case rotate_name_kid E io key_file keypair name (dn_kid_files D) of
        (Inl e, F) \<Rightarrow> (Err (KidIdentity e), D\<lparr>dn_kid_files := F\<rparr>)
      | (Inr rotated, F) \<Rightarrow>
          (Ok rotated, publish_quietly C (ro_did rotated) (vec_authorized_kid E (ro_auth_kid rotated)) (D\<lparr>dn_kid_files := F\<rparr>)))"

definition handle_revoke_kid ::
  "'x kid_env_scheme \<Rightarrow> network_client \<Rightarrow> (kid_path \<Rightarrow> string option) \<Rightarrow> bytes option \<Rightarrow> role \<Rightarrow> string
     \<Rightarrow> 's kid_daemon \<Rightarrow> (kid_api_error, document) result \<times> 's kid_daemon" where
  "handle_revoke_kid E C io key_file role name D =
     (if \<not> can_kid role then (Err (KidApp (AppRest InsufficientPrivileges)), D)
      else case revoke_local_kid E io name (dn_kid_files D) of
        (Inl e, F) \<Rightarrow> (Err (KidIdentity e), D\<lparr>dn_kid_files := F\<rparr>)
      | (Inr revoked_doc, F) \<Rightarrow>
          (case authorize_kid_document E key_file name revoked_doc of
             Inl e \<Rightarrow> (Err (KidIdentity e), D\<lparr>dn_kid_files := F\<rparr>)
           | Inr auth_kid \<Rightarrow>
               (Ok revoked_doc, publish_quietly C (as_str (doc_kid revoked_doc)) (vec_authorized_kid E auth_kid) (D\<lparr>dn_kid_files := F\<rparr>))))"

definition handle_get_kid_manifest ::
  "'x kid_env_scheme \<Rightarrow> string \<Rightarrow> 's kid_daemon \<Rightarrow> (kid_api_error, manifest option) result" where
  "handle_get_kid_manifest E name D = map_err KidIdentity (load_local_manifest E name (dn_kid_files D))"

definition manifest_key :: "'x crypto_scheme \<Rightarrow> string \<Rightarrow> string" where
  "manifest_key E did = to_hex (sha256 E (as_bytes (did @ ''#manifest'')))"

definition handle_update_kid_manifest ::
  "'x kid_env_scheme \<Rightarrow> ('s, 'y) storage_ops_scheme \<Rightarrow> network_client \<Rightarrow> (kid_path \<Rightarrow> string option) \<Rightarrow> bytes option
     \<Rightarrow> u64 \<Rightarrow> role \<Rightarrow> string \<Rightarrow> service list \<Rightarrow> 's kid_daemon \<Rightarrow> (kid_api_error, manifest) result \<times> 's kid_daemon" where
  "handle_update_kid_manifest E S C io key_file now role name svcs D =
     (if \<not> can_kid role then (Err (KidApp (AppRest InsufficientPrivileges)), D)
      else case save_and_sign_local_manifest E io key_file name svcs (safe_current_kyn E S C now (dn_storage D)) (dn_kid_files D) of
        (Inl e, F) \<Rightarrow> (Err (KidIdentity e), D\<lparr>dn_kid_files := F\<rparr>)
      | (Inr (manifest, auth), F) \<Rightarrow>
          (Ok manifest, publish_quietly C (manifest_key E (as_str (man_kid manifest))) (vec_authorized_manifest E auth) (D\<lparr>dn_kid_files := F\<rparr>)))"

text \<open>Identity documents and manifests of the network, with their owner's wrapper or in the older form without it.\<close>

definition decode_kid :: "'x kid_env_scheme \<Rightarrow> string \<Rightarrow> bytes \<Rightarrow> (kid_api_error, document) result" where
  "decode_kid E message payload =
     (case slice_authorized_kid E payload of
        Some auth \<Rightarrow> Ok (ak_kid_doc auth)
      | None \<Rightarrow> ok_or (KidApp (AppResolution (ResInternal message))) (slice_document E payload))"

definition handle_resolve_kid ::
  "'x kid_env_scheme \<Rightarrow> network_client \<Rightarrow> string \<Rightarrow> (kid_api_error, document \<times> manifest option) result" where
  "handle_resolve_kid E C did =
     and_then (map_err (KidApp \<circ> AppResolution) (resolve_redundant_payload C did)) (\<lambda>kid_payload.
     and_then (decode_kid E ''Invalid KID data payload'' kid_payload) (\<lambda>kid_doc.
     Ok (kid_doc, case resolve_redundant_payload C (manifest_key E did) of
                    Inl _ \<Rightarrow> None
                  | Inr man_payload \<Rightarrow>
                      (case slice_authorized_manifest E man_payload of
                         Some auth \<Rightarrow> Some (am_manifest auth) | None \<Rightarrow> slice_manifest E man_payload))))"

text \<open>The owner's signature of a wrapper, checked against the stored record of the name when there is one.\<close>

definition locally_authorized ::
  "'x nrs_api_env_scheme \<Rightarrow> ('s, 'y) storage_ops_scheme \<Rightarrow> string \<Rightarrow> bytes \<Rightarrow> bytes \<Rightarrow> 's \<Rightarrow> bool" where
  "locally_authorized E S name msg sig st =
     (case st_get S st (reveal_key E name) of
        Inr (Some b) \<Rightarrow>
          (case from_slice_envelope E b of
             Some record \<Rightarrow> is_ok (verify_signature E (env_pubkey record) msg sig)
           | None \<Rightarrow> False)
      | _ \<Rightarrow> True)"

definition handle_publish_kid ::
  "'x kid_env_scheme \<Rightarrow> ('s, 'y) storage_ops_scheme \<Rightarrow> network_client \<Rightarrow> role \<Rightarrow> authorized_kid \<Rightarrow> 's kid_daemon
     \<Rightarrow> (kid_api_error, unit) result \<times> 's kid_daemon" where
  "handle_publish_kid E S C role auth_kid D =
     (let key = as_str (doc_kid (ak_kid_doc auth_kid));
          checked =
            reject_if (\<not> can_kid role) (KidApp (AppRest InsufficientPrivileges))
           (and_then (map_err BadKidDocument (doc_verify E (ak_kid_doc auth_kid))) (\<lambda>_.
            reject_if (\<not> locally_authorized E S (ak_name auth_kid) (kid_signable_bytes E auth_kid (NETWORK_SALT E))
                 (ak_owner_signature auth_kid) (dn_storage D)) BadOwnerSignature
           (and_then (ok_or (KidApp (AppPublish (PubInternal ''Serialization failed''))) (vec_authorized_kid E auth_kid)) (\<lambda>payload.
            and_then (map_err (KidApp \<circ> AppPublish) (publish_redundant_payload C key payload)) (\<lambda>_.
            Ok payload)))))
      in case checked of
           Inl e \<Rightarrow> (Err e, D)
         | Inr payload \<Rightarrow> (Ok (), D\<lparr>dn_published := dn_published D @ [(key, payload)]\<rparr>))"

definition handle_publish_manifest ::
  "'x kid_env_scheme \<Rightarrow> ('s, 'y) storage_ops_scheme \<Rightarrow> network_client \<Rightarrow> u64 \<Rightarrow> role \<Rightarrow> authorized_manifest \<Rightarrow> 's kid_daemon
     \<Rightarrow> (kid_api_error, unit) result \<times> 's kid_daemon" where
  "handle_publish_manifest E S C now role auth D =
     (let did_str = as_str (man_kid (am_manifest auth));
          checked =
            reject_if (\<not> can_kid role) (KidApp (AppRest InsufficientPrivileges))
           (reject_if (\<not> locally_authorized E S (am_name auth) (manifest_signable_bytes E auth (NETWORK_SALT E))
                 (am_owner_signature auth) (dn_storage D)) BadOwnerSignature
           (and_then (map_err (KidApp \<circ> AppResolution) (resolve_redundant_payload C did_str)) (\<lambda>kid_payload.
            and_then (decode_kid E ''Invalid KID payload on DHT'' kid_payload) (\<lambda>kid_doc.
            and_then (map_err BadManifest (verify_at_time E (am_manifest auth) kid_doc
                 (to_ukyn (safe_current_kyn E S C now (dn_storage D)) (BEACON_GENESIS E)))) (\<lambda>_.
            and_then (ok_or (KidApp (AppPublish (PubInternal ''Serialization failed''))) (vec_authorized_manifest E auth)) (\<lambda>payload.
            and_then (map_err (KidApp \<circ> AppPublish) (publish_redundant_payload C (manifest_key E did_str) payload)) (\<lambda>_.
            Ok payload)))))))
      in case checked of
           Inl e \<Rightarrow> (Err e, D)
         | Inr payload \<Rightarrow> (Ok (), D\<lparr>dn_published := dn_published D @ [(manifest_key E did_str, payload)]\<rparr>))"

section \<open>The identity directory\<close>

text \<open>What the code relies on of the serialisers: a document, a manifest and a key are read back as written.\<close>

definition kid_codec :: "'x kid_env_scheme \<Rightarrow> bool" where
  "kid_codec E \<longleftrightarrow> (\<forall>d b. pretty_document E d = Some b \<longrightarrow> text_document E b = Some d)
     \<and> (\<forall>m b. pretty_manifest E m = Some b \<longrightarrow> text_manifest E b = Some m)
     \<and> (\<forall>k. key_from_slice E (key_to_secret E k) = Some k)"

text \<open>Well-formed: beside every document lies the key it names as its only controller, and no document has
  revocation keys.\<close>

definition keyed :: "'x identity_env_scheme \<Rightarrow> document \<Rightarrow> bytes \<Rightarrow> bool" where
  "keyed E doc key \<longleftrightarrow> controller_keys doc = [primary_key E (as_str (doc_kid doc)) key] \<and> revocation_keys doc = []"

definition kid_files_wf :: "'x kid_env_scheme \<Rightarrow> kid_files \<Rightarrow> bool" where
  "kid_files_wf E F \<longleftrightarrow> (\<forall>sub n. F (DidFile sub n) \<noteq> NoFile \<longrightarrow>
     (\<exists>c doc b key. F (DidFile sub n) = FileText c \<and> text_document E c = Some doc
        \<and> F (KeyFile sub n) = FileText b \<and> key_from_slice E b = Some key \<and> keyed E doc key))"

text \<open>Everything the manager does to the directory while writes succeed.\<close>

inductive kid_run :: "'x kid_env_scheme \<Rightarrow> kid_files \<Rightarrow> bool" for E where
  empty: "kid_run E (\<lambda>_. NoFile)"
| generate: "kid_run E F \<Longrightarrow>
    get_or_create_kid_for_name E (\<lambda>_. None) key_file keypair name inherit force current F = (g, F') \<Longrightarrow> kid_run E F'"
| rotate: "kid_run E F \<Longrightarrow> rotate_name_kid E (\<lambda>_. None) key_file keypair name F = (r, F') \<Longrightarrow> kid_run E F'"
| revoke: "kid_run E F \<Longrightarrow> revoke_local_kid E (\<lambda>_. None) name F = (d, F') \<Longrightarrow> kid_run E F'"
| manifest: "kid_run E F \<Longrightarrow>
    save_and_sign_local_manifest E (\<lambda>_. None) key_file name svcs current F = (m, F') \<Longrightarrow> kid_run E F'"

lemma write_kid_file_ok [simp]: "write_kid_file (\<lambda>_. None) path c F = (Ok (), F(path := FileText c))"
  by (simp add: write_kid_file_def)

lemma write_key_and_document_ok [simp]:
  "write_key_and_document E (\<lambda>_. None) paths keypair json F
     = (Ok (), F(key_path paths := FileText (key_to_secret E keypair), did_path paths := FileText json))"
  by (simp add: write_key_and_document_def)

lemma paths_of [simp]:
  "did_path (kid_paths_of E n) = DidFile (is_subname E (normalize_name E n)) (normalize_name E n)"
  "key_path (kid_paths_of E n) = KeyFile (is_subname E (normalize_name E n)) (normalize_name E n)"
  "manifest_path (kid_paths_of E n) = ManifestFile (is_subname E (normalize_name E n)) (normalize_name E n)"
  by (simp_all add: kid_paths_of_def Let_def)

lemma doc_sign_fields:
  "doc_sign E d key = Ok d' \<Longrightarrow> controller_keys d' = controller_keys d \<and> revocation_keys d' = revocation_keys d
     \<and> doc_kid d' = doc_kid d \<and> deactivated d' = deactivated d \<and> doc_manifest d' = doc_manifest d"
  by (auto simp: doc_sign_def result_simps)

lemma sign_document_Ok:
  "sign_document E key doc = Ok (d, json) \<longleftrightarrow> doc_sign E doc key = Ok d \<and> pretty_document E d = Some json"
  by (auto simp: sign_document_def result_simps)

lemma new_document_keyed: "new_document E keypair t = Ok d \<Longrightarrow> keyed E d keypair"
  by (auto simp: new_document_def Let_def result_simps did_new_Ok keyed_def)

lemma keyed_signed: "doc_sign E d key = Ok d' \<Longrightarrow> keyed E d' k \<longleftrightarrow> keyed E d k"
  using doc_sign_fields [of E d key d'] by (simp add: keyed_def)

lemma files_wf_update:
  assumes "kid_files_wf E F" and "kid_codec E" and "pretty_document E d = Some json" and "keyed E d key"
  shows "kid_files_wf E (F(KeyFile s n := FileText (key_to_secret E key), DidFile s n := FileText json))"
  using assms by (simp add: kid_files_wf_def kid_codec_def)

lemma files_wf_document:
  assumes "kid_files_wf E F" and "kid_codec E" and "pretty_document E d = Some json" and "keyed E d key"
    and "F (KeyFile s n) = FileText b" and "key_from_slice E b = Some key"
  shows "kid_files_wf E (F(DidFile s n := FileText json))"
  using assms by (simp add: kid_files_wf_def kid_codec_def)

lemma files_wf_manifest: "kid_files_wf E F \<Longrightarrow> kid_files_wf E (F(ManifestFile s n := f))"
  by (simp add: kid_files_wf_def)

lemma load_document_and_key_Ok:
  assumes "load_document_and_key E fqdn F = Ok (doc, key)" and "kid_files_wf E F"
  shows "keyed E doc key \<and> F (DidFile (is_subname E (normalize_name E fqdn)) (normalize_name E fqdn)) \<noteq> NoFile
    \<and> (\<exists>b. F (KeyFile (is_subname E (normalize_name E fqdn)) (normalize_name E fqdn)) = FileText b \<and> key_from_slice E b = Some key)"
proof -
  let ?s = "is_subname E (normalize_name E fqdn)" and ?n = "normalize_name E fqdn"
  have *: "F (DidFile ?s ?n) \<noteq> NoFile" "read_document E MalformedDocument (F (DidFile ?s ?n)) = Ok doc"
    "load_raw_signing_key E F (KeyFile ?s ?n) = Ok key"
    using assms(1) by (auto simp: load_document_and_key_def Let_def result_simps)
  obtain c d b k where w: "F (DidFile ?s ?n) = FileText c" "text_document E c = Some d"
    "F (KeyFile ?s ?n) = FileText b" "key_from_slice E b = Some k" "keyed E d k"
    using assms(2) *(1) unfolding kid_files_wf_def by blast
  then show ?thesis using * by (auto simp: read_document_def read_kid_file_def load_raw_signing_key_def result_simps)
qed

text \<open>The outcomes of the four operations when writes succeed: the directory is unchanged, or changed as follows.\<close>

lemma generate_cases:
  assumes "get_or_create_kid_for_name E (\<lambda>_. None) key_file keypair name inherit force current F = (g, F')"
  shows "F' = F \<or> (\<exists>d json s n. pretty_document E d = Some json \<and> keyed E d keypair
    \<and> F' = F(KeyFile s n := FileText (key_to_secret E keypair), DidFile s n := FileText json))"
proof -
  have "F' = F \<or> (\<exists>d json s n. pretty_document E d = Some json \<and> keyed E d keypair
      \<and> F' = F(KeyFile s n := FileText (key_to_secret E keypair), DidFile s n := FileText json))"
    if "create_kid E (\<lambda>_. None) key_file keypair fqdn current F = (g, F')" for fqdn
    using that new_document_keyed [of E keypair] keyed_signed [of E _ keypair]
    by (auto simp: create_kid_def Let_def result_simps sign_document_Ok split: sum.splits prod.splits) metis+
  then show ?thesis using assms by (auto simp: get_or_create_kid_for_name_def Let_def split: if_splits)
qed

lemma rotated_keyed: "keyed E doc k \<Longrightarrow> keyed E (rotated_document E new doc) new"
  by (simp add: keyed_def rotated_document_def)

lemma rotate_cases:
  assumes "rotate_name_kid E (\<lambda>_. None) key_file keypair name F = (r, F')" and "kid_files_wf E F"
  shows "F' = F \<or> (\<exists>d json s n. pretty_document E d = Some json \<and> keyed E d keypair
    \<and> F' = F(KeyFile s n := FileText (key_to_secret E keypair), DidFile s n := FileText json))"
proof (cases "and_then (load_document_and_key E (normalize_name E name) F)
    (\<lambda>(doc, old_key). sign_document E old_key (rotated_document E keypair doc))")
  case (Inl e)
  then show ?thesis using assms(1) by (simp add: rotate_name_kid_def Let_def)
next
  case (Inr p)
  then obtain d json doc old where *: "p = (d, json)" "load_document_and_key E (normalize_name E name) F = Ok (doc, old)"
    "doc_sign E (rotated_document E keypair doc) old = Ok d" "pretty_document E d = Some json"
    by (cases p) (auto simp: result_simps sign_document_Ok)
  then have "keyed E d keypair"
    using load_document_and_key_Ok [OF *(2) assms(2)] rotated_keyed [of E doc old keypair] keyed_signed by blast
  then show ?thesis using assms(1) Inr * by (auto simp: rotate_name_kid_def Let_def)
qed

lemma revoke_cases:
  assumes "revoke_local_kid E (\<lambda>_. None) name F = (r, F')" and "kid_files_wf E F"
  shows "F' = F \<or> (\<exists>d json s n b key. pretty_document E d = Some json \<and> keyed E d key
    \<and> F (KeyFile s n) = FileText b \<and> key_from_slice E b = Some key \<and> F' = F(DidFile s n := FileText json))"
proof (cases "and_then (load_document_and_key E (normalize_name E name) F)
    (\<lambda>(doc, key). sign_document E key (doc\<lparr>deactivated := True, doc_signature := None\<rparr>))")
  case (Inl e)
  then show ?thesis using assms(1) by (simp add: revoke_local_kid_def Let_def)
next
  case (Inr p)
  then obtain d json doc key where *: "p = (d, json)" "load_document_and_key E (normalize_name E name) F = Ok (doc, key)"
    "doc_sign E (doc\<lparr>deactivated := True, doc_signature := None\<rparr>) key = Ok d" "pretty_document E d = Some json"
    by (cases p) (auto simp: result_simps sign_document_Ok)
  have "keyed E (doc\<lparr>deactivated := True, doc_signature := None\<rparr>) key \<longleftrightarrow> keyed E doc key" by (simp add: keyed_def)
  then have "keyed E d key" using load_document_and_key_Ok [OF *(2) assms(2)] keyed_signed [OF *(3)] by simp
  then show ?thesis
    using assms(1) Inr * load_document_and_key_Ok [OF *(2) assms(2)] by (simp add: revoke_local_kid_def Let_def) blast
qed

lemma manifest_cases:
  assumes "save_and_sign_local_manifest E (\<lambda>_. None) key_file name svcs current F = (m, F')"
  shows "F' = F \<or> (\<exists>s n f. F' = F(ManifestFile s n := f))"
  using assms by (auto simp: save_and_sign_local_manifest_def Let_def split: sum.splits prod.splits)

lemma kid_run_wf:
  assumes "kid_run E F" and "kid_codec E"
  shows "kid_files_wf E F"
  using assms
proof induction
  case empty
  then show ?case by (simp add: kid_files_wf_def)
next
  case (generate F key_file keypair name inherit force current g F')
  then show ?case using generate_cases [OF generate.hyps(2)] files_wf_update by blast
next
  case (rotate F key_file keypair name r F')
  then show ?case using rotate_cases [OF rotate.hyps(2)] files_wf_update by blast
next
  case (revoke F name d F')
  then show ?case using revoke_cases [OF revoke.hyps(2)] files_wf_document by blast
next
  case (manifest F key_file name svcs current m F')
  then show ?case using manifest_cases [OF manifest.hyps(2)] files_wf_manifest by blast
qed

section \<open>Correctness of local identities\<close>

text \<open>C29. The identity directory stays well-formed: after any sequence of creations, rotations, revocations and
  manifest updates whose writes succeed, every document file holds a document without revocation keys,
  and the key file beside it holds the one key the document names as its controller.\<close>

theorem kid_files_consistent:
  assumes "kid_run E F" and "kid_codec E" and "F (DidFile sub n) \<noteq> NoFile"
  shows "\<exists>c doc b key. F (DidFile sub n) = FileText c \<and> text_document E c = Some doc
    \<and> F (KeyFile sub n) = FileText b \<and> key_from_slice E b = Some key
    \<and> controller_keys doc = [primary_key E (as_str (doc_kid doc)) key] \<and> revocation_keys doc = []"
  using kid_run_wf [OF assms(1,2)] assms(3) unfolding kid_files_wf_def keyed_def by blast

lemma authorized_by_owner:
  assumes "authorize_kid_document E key_file name doc = Ok a" and "load_keypair E key_file = Ok owner" and "signing_sound E owner"
  shows "ak_kid_doc a = doc \<and> signed_by E (mldsa_pubkey E owner) (kid_signable_bytes E a (NETWORK_SALT E)) (ak_owner_signature a)"
  using assms by (auto simp: authorize_kid_document_def Let_def result_simps signing_sound_def kid_signable_bytes_def)

lemma primary_controller:
  assumes "signing_sound E key" and "primary_key E did key \<in> set (controller_keys d)" and "signed_by E (mldsa_pubkey E key) m s"
  shows "some_controller E d m s"
proof -
  have "eq_ignore_ascii_case (key_type (primary_key E did key)) ''Controller''"
    by (simp add: primary_key_def eq_ignore_ascii_case_def)
  moreover have "b64_decode E (public_key (primary_key E did key)) = Some (mldsa_pubkey E key)"
    using assms(1) by (simp add: primary_key_def signing_sound_def)
  ultimately show ?thesis using assms(2,3) unfolding some_controller_def by blast
qed

lemma created_document:
  assumes "new_document E keypair t = Ok d" and "doc_sign E d keypair = Ok d'" and "signing_sound E keypair"
    and "length (DID_PREFIX E) \<le> 184" and "length (b64_encode E (mldsa_pubkey E keypair)) \<le> KID_MAX_PUBLIC_KEY_BYTES E"
  shows "doc_verify E d' = Ok () \<and> verify_genesis E d' = Ok ()"
proof -
  let ?did = "DID_PREFIX E @ to_hex (sha256 E (mldsa_pubkey E keypair))"
  have n: "doc_kid d = Did ?did" "controller_keys d = [primary_key E ?did keypair]" "revocation_keys d = []"
    "\<not> deactivated d" "doc_manifest d = None" "length (to_hex (sha256 E (mldsa_pubkey E keypair))) = 64"
    using assms(1) by (auto simp: new_document_def Let_def result_simps did_new_Ok)
  note f = doc_sign_fields [OF assms(2)]
  have "controller_key_bounded E (primary_key E ?did keypair)"
    using n(6) assms(4,5) by (simp add: controller_key_bounded_def primary_key_def)
  moreover have "doc_signed E d' (some_controller E d')"
    using doc_sign_signed [OF assms(2,3)] primary_controller [OF assms(3), of ?did d'] f n(2) by simp
  ultimately have "doc_verify E d' = Ok ()" using f n by (simp add: doc_verify_Ok document_bounded_def)
  moreover have "verify_genesis E d' = Ok ()"
    using f n assms(3) by (simp add: verify_genesis_Ok primary_key_def signing_sound_def)
  ultimately show ?thesis by blast
qed


text \<open>C27. A rotation is never accepted: the manager signs the rotated document with the old key, as the chain of
  custody asks, but the document names the new key only, and every store also asks for a signature by a
  key of the document itself. The command succeeds, the old key is gone, and the network refuses the
  document whatever it has stored before.\<close>

theorem rotation_never_accepted:
  assumes "kid_run E F" and "kid_codec E"
    and "load_document_and_key E (normalize_name E name) F = Ok (doc, old)" and "signing_sound E old"
    and "rotate_name_kid E (\<lambda>_. None) key_file new name F = (Ok r, F')" and "signing_sound E new"
    and "\<forall>m. \<not> signed_by E (mldsa_pubkey E new) m (mldsa_sign E old m)"
  shows "doc_kid (ro_kid_doc r) = doc_kid doc \<and> is_authorized E (ro_kid_doc r) doc
    \<and> load_document_and_key E (normalize_name E name) F' = Ok (ro_kid_doc r, new)
    \<and> verify_authorized_kid E (ro_auth_kid r) active existing \<noteq> Ok ()"
proof -
  note k = load_document_and_key_Ok [OF assms(3) kid_run_wf [OF assms(1,2)]]
  obtain d json where d: "doc_sign E (rotated_document E new doc) old = Ok d" "pretty_document E d = Some json" "ro_kid_doc r = d"
      "ak_kid_doc (ro_auth_kid r) = d"
      "F' = F(key_path (kid_paths_of E (normalize_name E name)) := FileText (key_to_secret E new),
              did_path (kid_paths_of E (normalize_name E name)) := FileText json)"
    using assms(3,5) by (auto simp: rotate_name_kid_def Let_def result_simps sign_document_Ok authorize_kid_document_def
        split: sum.splits prod.splits)
  note f = doc_sign_fields [OF d(1)]
  have "is_authorized E d doc"
    using doc_sign_signed [OF d(1) assms(4)] primary_controller [OF assms(4), of "as_str (doc_kid doc)" doc] k
    by (simp add: is_authorized_iff keyed_def)
  moreover have "doc_kid d = doc_kid doc" using f by (simp add: rotated_document_def)
  moreover have "doc_verify E d \<noteq> Ok ()"
  proof
    assume "doc_verify E d = Ok ()"
    moreover have "controller_keys d = [primary_key E (as_str (doc_kid doc)) new]" "revocation_keys d = []"
      using f k by (simp_all add: rotated_document_def keyed_def)
    ultimately have s: "doc_signed E d (\<lambda>m s. signed_by E (mldsa_pubkey E new) m s)"
      using assms(6) by (auto simp: doc_verify_Ok doc_signed_def some_revocation_def some_controller_def primary_key_def
          signing_sound_def split: if_splits)
    moreover obtain t where "doc_canonicalize E d = Ok t"
      "doc_signature d = Some (b64_encode E (mldsa_sign E old (kid_message E t)))"
      using d(1) by (auto simp: doc_sign_def result_simps)
    ultimately show False using assms(4,7) by (auto simp: doc_signed_def signing_sound_def)
  qed
  moreover have "text_document E json = Some d" "key_from_slice E (key_to_secret E new) = Some new"
    using assms(2) d(2) by (simp_all add: kid_codec_def)
  ultimately show ?thesis
    by (simp add: d(3-5) verify_authorized_kid_Ok load_document_and_key_def Let_def read_document_def read_kid_file_def
        load_raw_signing_key_def)
qed

text \<open>A revocation is never accepted: documents the manager has made carry no revocation keys, and a
  deactivated document has to be signed by one. The local copy is deactivated for good, while every
  store refuses the revocation and keeps the identity active.\<close>

lemma revocation_never_accepted:
  assumes "kid_run E F" and "kid_codec E" and "revoke_local_kid E (\<lambda>_. None) name F = (Ok d, F')"
    and "authorize_kid_document E key_file name' d = Ok a"
  shows "deactivated d \<and> load_local_kid E name F' = Ok (d, did_path (kid_paths_of E (normalize_name E name)))
    \<and> (\<forall>active existing. verify_authorized_kid E a active existing \<noteq> Ok ())"
proof -
  obtain doc key json where *: "load_document_and_key E (normalize_name E name) F = Ok (doc, key)"
    "doc_sign E (doc\<lparr>deactivated := True, doc_signature := None\<rparr>) key = Ok d" "pretty_document E d = Some json"
    "F' = F(did_path (kid_paths_of E (normalize_name E name)) := FileText json)"
    using assms(3) by (auto simp: revoke_local_kid_def Let_def result_simps sign_document_Ok split: sum.splits prod.splits)
  have "revocation_keys d = []" "deactivated d"
    using doc_sign_fields [OF *(2)] load_document_and_key_Ok [OF *(1) kid_run_wf [OF assms(1,2)]] by (auto simp: keyed_def)
  moreover have "ak_kid_doc a = d" using assms(4) by (auto simp: authorize_kid_document_def Let_def result_simps)
  moreover have "text_document E json = Some d" using assms(2) *(3) by (simp add: kid_codec_def)
  ultimately show ?thesis
    using *(4) by (simp add: verify_authorized_kid_Ok doc_verify_Ok doc_signed_def some_revocation_def load_local_kid_def Let_def
        read_document_def read_kid_file_def)
qed

lemma saved_manifest:
  assumes "save_and_sign_local_manifest E (\<lambda>_. None) key_file name svcs current F = (Ok (m, auth), F')"
    and "load_local_kid E (normalize_name E name) F = Ok (doc, p)" and "load_local_manifest E (normalize_name E name) F = Ok existing"
    and "effective_key_path E (normalize_name E name) F = Ok path" and "load_raw_signing_key E F path = Ok key"
  shows "man_sign E \<lparr>man_type = ''kinetic.manifest.v1'', man_kid = doc_kid doc, version = next_version existing,
      valid_from = to_ukyn current (BEACON_GENESIS E), expires_at = None, services = svcs, man_signature = None\<rparr> key = Ok m
    \<and> authorize_manifest E key_file (normalize_name E name) doc m = Ok auth
    \<and> (\<exists>json. pretty_manifest E m = Some json \<and> F' = F(manifest_path (kid_paths_of E (normalize_name E name)) := FileText json))"
  using assms by (auto simp: save_and_sign_local_manifest_def prepare_manifest_def Let_def result_simps split: sum.splits prod.splits)

lemma man_sign_fields:
  "man_sign E m key = Ok m' \<Longrightarrow> man_kid m' = man_kid m \<and> version m' = version m \<and> valid_from m' = valid_from m
     \<and> expires_at m' = expires_at m \<and> services m' = services m"
  by (auto simp: man_sign_def result_simps)

lemma version_grows: "version m < 18446744073709551615 \<Longrightarrow> version m < next_version (Some m)"
proof -
  assume "version m < 18446744073709551615"
  then have "unat (version m) < 2 ^ 64 - 1" by (simp add: word_less_nat_alt)
  then show ?thesis by (simp add: next_version_def word_less_nat_alt unat_saturating_add)
qed


text \<open>A rotation whose second write fails has already replaced the key: the document on disk names a key that is lost.\<close>

lemma failed_rotation_loses_key:
  assumes "load_document_and_key E (normalize_name E name) F = Ok (doc, old)"
    and "sign_document E old (rotated_document E new doc) = Ok (d, json)"
    and "io (key_path (kid_paths_of E (normalize_name E name))) = None"
    and "io (did_path (kid_paths_of E (normalize_name E name))) = Some e"
  shows "rotate_name_kid E io key_file new name F
    = (Err (Io e), F(key_path (kid_paths_of E (normalize_name E name)) := FileText (key_to_secret E new)))"
  using assms by (simp add: rotate_name_kid_def Let_def write_key_and_document_def write_kid_file_def)

section \<open>Witnesses\<close>

text \<open>Signatures that name their key, and the documents of one name through its life.\<close>

definition sample_signer :: nrs_api_env where
  "sample_signer = sample_nrs (\<lambda>_. None)\<lparr>mldsa_verify := \<lambda>pk m s. s = pk @ m, mldsa_sign := \<lambda>k m. k @ m\<rparr>"

definition key_one :: bytes where "key_one = replicate 32 1"
definition key_two :: bytes where "key_two = replicate 32 2"

definition sample_did_text :: string where
  "sample_did_text = DID_PREFIX sample_signer @ to_hex key_one"

definition sample_signature :: "bytes \<Rightarrow> string" where
  "sample_signature key = b64_encode sample_signer (key @ kid_message sample_signer sample_did_text)"

definition sample_kid_doc :: document where
  "sample_kid_doc = \<lparr>doc_type = ''kinetic.kid.v1'', doc_kid = Did sample_did_text, created_at = to_ukyn 0 (BEACON_GENESIS sample_signer),
     controller_keys = [primary_key sample_signer sample_did_text key_one], doc_manifest = None, revocation_keys = [],
     deactivated = False, doc_signature = Some (sample_signature key_one)\<rparr>"

definition sample_rotated_doc :: document where
  "sample_rotated_doc = sample_kid_doc\<lparr>controller_keys := [primary_key sample_signer sample_did_text key_two]\<rparr>"

definition sample_revoked_doc :: document where
  "sample_revoked_doc = sample_kid_doc\<lparr>deactivated := True\<rparr>"

definition sample_saved_manifest :: manifest where
  "sample_saved_manifest = \<lparr>man_type = ''kinetic.manifest.v1'', man_kid = Did sample_did_text, version = 1,
     valid_from = to_ukyn 0 (BEACON_GENESIS sample_signer), expires_at = None, services = [],
     man_signature = Some (b64_encode sample_signer (key_one @ manifest_message sample_signer sample_did_text))\<rparr>"

definition sample_kid :: kid_env where
  "sample_kid = nrs_api_env.extend sample_signer (kid_env.fields
     (\<lambda>d. if d = sample_kid_doc then Some [1] else if d = sample_rotated_doc then Some [2]
          else if d = sample_revoked_doc then Some [3] else None)
     (\<lambda>b. if b = [1] then Some sample_kid_doc else if b = [2] then Some sample_rotated_doc
          else if b = [3] then Some sample_revoked_doc else None)
     (\<lambda>m. if m = sample_saved_manifest then Some [4] else None) (\<lambda>b. if b = [4] then Some sample_saved_manifest else None)
     id (\<lambda>_. Some []) (\<lambda>_. Some []) (\<lambda>_. None) (\<lambda>_. None) (\<lambda>_. []))"

lemmas sample_kid_simps = sample_kid_def sample_signer_def kid_env.defs nrs_api_env.defs sample_nrs_def api_env.defs sample_api_def sample_time_simps

lemma sample_kid_codec: "kid_codec sample_kid"
  by (auto simp: kid_codec_def sample_kid_def sample_signer_def kid_env.defs nrs_api_env.defs sample_nrs_def api_env.defs split: if_splits)

lemma sample_kid_fields:
  "DID_PREFIX sample_kid = DID_PREFIX sample_signer" "BEACON_GENESIS sample_kid = BEACON_GENESIS sample_signer"
  "sha256 sample_kid = id" "mldsa_pubkey sample_kid = id" "b64_encode sample_kid = b64_encode sample_signer"
  "jcs_document sample_kid d = Some (as_str (doc_kid d))" "jcs_manifest sample_kid m = Some (as_str (man_kid m))"
  "mldsa_sign sample_kid k b = k @ b" "key_to_secret sample_kid = id" "key_from_slice sample_kid b = Some b"
  "key_from_seed sample_kid b = replicate 1952 0" "NSP sample_kid = NSP sample_signer"
  "pretty_document sample_kid sample_kid_doc = Some [1]" "text_document sample_kid [1] = Some sample_kid_doc"
  by (simp_all add: sample_kid_simps)

lemma sample_kid_primary: "primary_key sample_kid = primary_key sample_signer"
  by (rule ext)+ (simp add: primary_key_def sample_kid_fields sample_signer_def sample_nrs_simps)

lemma sample_kid_message: "kid_message sample_kid = kid_message sample_signer" "manifest_message sample_kid = manifest_message sample_signer"
  by (rule ext, simp add: kid_message_def manifest_message_def sample_kid_fields)+

lemma sample_doc_sign:
  "doc_sign sample_kid d k = Ok (d\<lparr>doc_signature := Some (b64_encode sample_signer (k @ kid_message sample_signer (as_str (doc_kid d))))\<rparr>)"
  by (simp add: doc_sign_def doc_canonicalize_def sample_kid_fields sample_kid_message)

lemma sample_new_document:
  "new_document sample_kid key_one (to_ukyn 0 (BEACON_GENESIS sample_signer)) = Ok (sample_kid_doc\<lparr>doc_signature := None\<rparr>)"
proof -
  have "did_new sample_kid sample_did_text = Ok (Did sample_did_text)"
    by (simp add: did_new_Ok sample_did_text_def sample_kid_fields to_hex_lower key_one_def)
  then show ?thesis
    by (simp add: new_document_def Let_def sample_kid_fields sample_did_text_def [symmetric] sample_kid_doc_def sample_kid_primary)
qed

definition sample_kid_files :: kid_files where
  "sample_kid_files = (\<lambda>_. NoFile)(key_path (kid_paths_of sample_kid ''satoshi.kin'') := FileText key_one,
     did_path (kid_paths_of sample_kid ''satoshi.kin'') := FileText [1])"

lemma sample_kid_normal: "normalize_name sample_kid ''satoshi.kin'' = ''satoshi.kin''"
proof (rule satoshi_normal)
  show "names_ok sample_kid" by (rule sample_names_ok) (simp_all add: sample_kid_simps)
  show "NSP_SUFFIX sample_kid = ''.kin''" by (simp add: sample_kid_simps)
qed

lemma sample_kid_owner: "load_keypair sample_kid (Some (replicate 32 0)) = Ok (replicate 1952 0)"
  by (simp add: load_keypair_def sample_kid_fields)

lemma sample_kid_signing: "signing_sound sample_kid key"
  by (simp add: signing_sound_def signed_by_def sample_kid_simps sample_b64)

lemma sample_generated:
  "\<exists>g. get_or_create_kid_for_name sample_kid (\<lambda>_. None) (Some (replicate 32 0)) key_one ''satoshi.kin'' False False 0 (\<lambda>_. NoFile)
      = (Ok g, sample_kid_files) \<and> \<not> is_inherited g \<and> gk_kid_doc g = sample_kid_doc"
proof -
  have "doc_sign sample_kid (sample_kid_doc\<lparr>doc_signature := None\<rparr>) key_one = Ok sample_kid_doc"
    by (simp add: sample_doc_sign sample_kid_doc_def sample_signature_def)
  then have "sign_document sample_kid key_one (sample_kid_doc\<lparr>doc_signature := None\<rparr>) = Ok (sample_kid_doc, [1])"
    by (simp add: sign_document_Ok sample_kid_fields)
  then show ?thesis
    using sample_new_document
    by (simp add: get_or_create_kid_for_name_def create_kid_def Let_def sample_kid_normal sample_kid_fields
        authorize_kid_document_def sample_kid_owner sample_kid_files_def)
qed

lemma sample_kid_run: "kid_run sample_kid sample_kid_files"
  using sample_generated kid_run.generate [OF kid_run.empty] by blast

theorem kid_files_consistent_witness:
  "\<exists>doc key. text_document sample_kid [1] = Some doc \<and> controller_keys doc = [primary_key sample_kid (as_str (doc_kid doc)) key]"
proof -
  have "sample_kid_files (did_path (kid_paths_of sample_kid ''satoshi.kin'')) = FileText [1]" by (simp add: sample_kid_files_def)
  then have f: "sample_kid_files (DidFile (is_subname sample_kid ''satoshi.kin'') ''satoshi.kin'') = FileText [1]"
    by (simp add: sample_kid_normal)
  then have "sample_kid_files (DidFile (is_subname sample_kid ''satoshi.kin'') ''satoshi.kin'') \<noteq> NoFile" by simp
  from kid_files_consistent [OF sample_kid_run sample_kid_codec this] f show ?thesis by auto
qed


lemma sample_loaded: "load_document_and_key sample_kid (normalize_name sample_kid ''satoshi.kin'') sample_kid_files = Ok (sample_kid_doc, key_one)"
  by (simp add: load_document_and_key_def Let_def sample_kid_files_def sample_kid_normal read_document_def read_kid_file_def
      sample_kid_fields load_raw_signing_key_def)

lemma sample_signs_document:
  assumes "d\<lparr>doc_signature := Some (sample_signature k)\<rparr> = d'" and "doc_kid d = Did sample_did_text" and "pretty_document sample_kid d' = Some b"
  shows "sign_document sample_kid k d = Ok (d', b)"
  using assms by (simp add: sign_document_Ok sample_doc_sign sample_signature_def)

theorem rotation_never_accepted_witness:
  "\<exists>r F'. rotate_name_kid sample_kid (\<lambda>_. None) (Some (replicate 32 0)) key_two ''satoshi.kin'' sample_kid_files = (Ok r, F')
     \<and> is_authorized sample_kid (ro_kid_doc r) sample_kid_doc
     \<and> verify_authorized_kid sample_kid (ro_auth_kid r) (Some (Standard sample_reveal)) None \<noteq> Ok ()"
proof -
  have d: "sample_rotated_doc \<noteq> sample_kid_doc"
    by (simp add: sample_rotated_doc_def sample_kid_doc_def primary_key_def key_one_def key_two_def sample_signer_def sample_nrs_simps)
  have "(rotated_document sample_kid key_two sample_kid_doc)\<lparr>doc_signature := Some (sample_signature key_one)\<rparr> = sample_rotated_doc"
    "doc_kid (rotated_document sample_kid key_two sample_kid_doc) = Did sample_did_text"
    by (simp_all add: rotated_document_def sample_rotated_doc_def sample_kid_doc_def sample_kid_primary)
  moreover have "pretty_document sample_kid sample_rotated_doc = Some [2]"
    using d by (simp add: sample_kid_def kid_env.defs nrs_api_env.defs sample_signer_def sample_nrs_def api_env.defs)
  ultimately have "sign_document sample_kid key_one (rotated_document sample_kid key_two sample_kid_doc) = Ok (sample_rotated_doc, [2])"
    by (rule sample_signs_document)
  then obtain r F' where r: "rotate_name_kid sample_kid (\<lambda>_. None) (Some (replicate 32 0)) key_two ''satoshi.kin'' sample_kid_files = (Ok r, F')"
    using sample_loaded by (simp add: rotate_name_kid_def Let_def authorize_kid_document_def sample_kid_owner)
  have n: "\<forall>m. \<not> signed_by sample_kid (mldsa_pubkey sample_kid key_two) m (mldsa_sign sample_kid key_one m)"
    by (simp add: signed_by_def sample_kid_simps key_one_def key_two_def)
  show ?thesis
    using rotation_never_accepted [OF sample_kid_run sample_kid_codec sample_loaded sample_kid_signing r sample_kid_signing n] r by blast
qed


end
