(* ===== verification/Registration.thy ===== *)
theory Registration
  imports Kid_Manager Store_Properties Vdf
begin

text \<open>
  Registration and renewal of names as background tasks (\<open>kinetic-daemon/src/api/macro_api.rs\<close>), and the
  republisher of owned names (\<open>kinetic-daemon/src/services/network.rs\<close>). A task reads the beacon and the
  key, derives the commitment, computes the delay proof, publishes the commitment, waits for it to
  mature, and publishes the signed reveal.

  A task runs in three parts, cut where it waits: before the computation, from the computation to the
  published commitment, and after the waiting time. A part that has run queues the next one in
  \<open>dn_jobs\<close>; parts of different tasks and the handlers interleave. The semaphore that lets one computation
  run at a time is never closed, and the blocking call that computes does not panic, so these two
  failures are left out. The map of tasks is a list with distinct keys.
\<close>

section \<open>Tasks\<close>

datatype task_failure =
    NameNotFoundLocally string | RevealCorrupted | BeaconFailed kyn_provider_error | KeypairFailed identity_error
  | SaltFailed | BeaconHexFailed | EngineFailed vdf_error | CommitmentUnserialisable | CommitPublishFailed publish_error
  | IdentityFailed identity_error | ZoneUnserialisable | RevealUnserialisable | RevealPublishFailed publish_error

record vdf_task_status =
  vt_status :: string
  vt_iterations :: u64
  vt_progress :: u64
  vt_error :: "task_failure option"

type_synonym vdf_tasks = "(string \<times> vdf_task_status) list"

record prepared_task =
  pt_id :: string
  pt_fqdn :: string
  pt_kyn :: raw_kyn
  pt_key :: bytes
  pt_salt :: bytes
  pt_challenge :: commitment
  pt_iterations :: u64
  pt_previous :: "reveal option"

datatype vdf_job =
    Register string string u64 | Renew string string u64
  | Computing prepared_task | Maturing prepared_task vdf_proof

record 's macro_daemon = "'s kid_daemon" +
  dn_tasks :: vdf_tasks
  dn_jobs :: "vdf_job list"

record macro_env = kid_env +
  vec_reveal :: "reveal \<Rightarrow> bytes option"
  slice_reveal :: "bytes \<Rightarrow> reveal option"

text \<open>The files, the clock, the network and the randomness a part of a task meets.\<close>

record job_inputs =
  ji_client :: network_client
  ji_key_file :: "bytes option"
  ji_salt :: "bytes option"
  ji_keypair :: bytes
  ji_now :: u64
  ji_kid_io :: "kid_path \<Rightarrow> string option"
  ji_zone_io :: bool

datatype macro_error = MacroApp app_error | MacroVdf vdf_error | AlreadyInProgress string

definition update_task :: "(vdf_task_status \<Rightarrow> vdf_task_status) \<Rightarrow> string \<Rightarrow> vdf_tasks \<Rightarrow> vdf_tasks" where
  "update_task f tid ts = map (\<lambda>(k, t). (k, if k = tid then f t else t)) ts"

definition update_task_status :: "vdf_tasks \<Rightarrow> string \<Rightarrow> string \<Rightarrow> u64 \<Rightarrow> vdf_tasks" where
  "update_task_status ts tid status progress =
     update_task (\<lambda>t. t\<lparr>vt_status := status, vt_progress := progress\<rparr>) tid ts"

definition update_task_error :: "vdf_tasks \<Rightarrow> string \<Rightarrow> task_failure \<Rightarrow> vdf_tasks" where
  "update_task_error ts tid err = update_task (\<lambda>t. t\<lparr>vt_error := Some err, vt_status := ''Failed''\<rparr>) tid ts"

definition set_status :: "string \<Rightarrow> string \<Rightarrow> u64 \<Rightarrow> 's macro_daemon \<Rightarrow> 's macro_daemon" where
  "set_status tid status progress D = D\<lparr>dn_tasks := update_task_status (dn_tasks D) tid status progress\<rparr>"

definition task_fail :: "string \<Rightarrow> task_failure \<Rightarrow> 's macro_daemon \<Rightarrow> 's macro_daemon" where
  "task_fail tid err D = D\<lparr>dn_tasks := update_task_error (dn_tasks D) tid err\<rparr>"

section \<open>Starting a task\<close>

definition MAX_USER_ITERATIONS :: u64 where "MAX_USER_ITERATIONS = 10000000"

definition is_active :: "vdf_task_status \<Rightarrow> bool" where
  "is_active t \<longleftrightarrow> vt_progress t < 100 \<and> vt_error t = None"

definition requested_iterations :: "u64 option \<Rightarrow> u64" where
  "requested_iterations r = (case r of Some n \<Rightarrow> n | None \<Rightarrow> 4194304)"

definition insert_task :: "string \<Rightarrow> vdf_task_status \<Rightarrow> vdf_tasks \<Rightarrow> vdf_tasks" where
  "insert_task tid t ts = filter (\<lambda>(k, _). k \<noteq> tid) ts @ [(tid, t)]"

definition retain_active :: "vdf_tasks \<Rightarrow> vdf_tasks" where
  "retain_active ts = filter (\<lambda>(_, t). is_active t) ts"

definition check_request :: "'x crypto_scheme \<Rightarrow> role \<Rightarrow> string \<Rightarrow> u64 option \<Rightarrow> (macro_error, string) result" where
  "check_request E role name iters =
     (let fqdn = normalize_name E name in
      reject_if (\<not> can_vdf role) (MacroApp (AppRest InsufficientPrivileges))
     (and_then (map_err (MacroApp \<circ> AppNames) (is_valid_apex_name E fqdn)) (\<lambda>_.
      reject_if (MAX_USER_ITERATIONS < (case iters of Some n \<Rightarrow> n | None \<Rightarrow> 0)) (MacroVdf MaxIterationsExceeded)
     (Ok fqdn))))"

definition handle_macro_register_name ::
  "'x crypto_scheme \<Rightarrow> role \<Rightarrow> string \<Rightarrow> u64 option \<Rightarrow> string \<Rightarrow> 's macro_daemon \<Rightarrow> (macro_error, string) result \<times> 's macro_daemon" where
  "handle_macro_register_name E role name iters task_id D =
     (case check_request E role name iters of
        Inl e \<Rightarrow> (Err e, D)
      | Inr fqdn \<Rightarrow>
          if 1 \<le> length (filter (\<lambda>(_, t). is_active t) (dn_tasks D)) then (Err (AlreadyInProgress fqdn), D)
          else let ts = retain_active (dn_tasks D) in
            if 50 \<le> length ts then (Err (MacroVdf TooManyTasks), D\<lparr>dn_tasks := ts\<rparr>)
            else (Ok task_id, D\<lparr>dn_tasks := insert_task task_id \<lparr>vt_status = ''Initializing'',
                     vt_iterations = requested_iterations iters, vt_progress = 0, vt_error = None\<rparr> ts,
                   dn_jobs := dn_jobs D @ [Register task_id fqdn (requested_iterations iters)]\<rparr>))"

definition handle_macro_renew_name ::
  "'x crypto_scheme \<Rightarrow> role \<Rightarrow> string \<Rightarrow> u64 option \<Rightarrow> string \<Rightarrow> 's macro_daemon \<Rightarrow> (macro_error, string) result \<times> 's macro_daemon" where
  "handle_macro_renew_name E role name iters task_id D =
     (case check_request E role name iters of
        Inl e \<Rightarrow> (Err e, D)
      | Inr fqdn \<Rightarrow>
          let ts = retain_active (dn_tasks D) in
          if 50 \<le> length ts then (Err (MacroVdf TooManyTasks), D\<lparr>dn_tasks := ts\<rparr>)
          else (Ok task_id, D\<lparr>dn_tasks := insert_task task_id \<lparr>vt_status = ''Starting Renewal...'',
                   vt_iterations = requested_iterations iters, vt_progress = 0, vt_error = None\<rparr> ts,
                 dn_jobs := dn_jobs D @ [Renew task_id fqdn (requested_iterations iters)]\<rparr>))"

definition handle_macro_tasks :: "role \<Rightarrow> 's macro_daemon \<Rightarrow> (macro_error, vdf_tasks) result" where
  "handle_macro_tasks role D = reject_if (\<not> can_vdf role) (MacroApp (AppRest InsufficientPrivileges)) (Ok (dn_tasks D))"

definition handle_macro_status :: "role \<Rightarrow> string \<Rightarrow> 's macro_daemon \<Rightarrow> (macro_error, vdf_task_status option) result" where
  "handle_macro_status role task_id D =
     reject_if (\<not> can_vdf role) (MacroApp (AppRest InsufficientPrivileges)) (Ok (map_of (dn_tasks D) task_id))"

section \<open>The first part: beacon, key and commitment\<close>

text \<open>The cast of \<open>required * 0.2\<close> in double precision: both factors and the product are rounded to 53
  bits, ties to even; the constant is \<open>3602879701896397 / 2 ^ 54\<close>.\<close>

fun bit_length :: "nat \<Rightarrow> nat" where
  "bit_length n = (if n = 0 then 0 else Suc (bit_length (n div 2)))"

declare bit_length.simps [simp del]

definition f64_round :: "nat \<Rightarrow> nat" where
  "f64_round m =
     (let s = bit_length m - 53; q = m div 2 ^ s; r = m mod 2 ^ s
      in if 2 * r < 2 ^ s \<or> (2 * r = 2 ^ s \<and> even q) then q * 2 ^ s else Suc q * 2 ^ s)"

definition discounted_iterations :: "u64 \<Rightarrow> u64" where
  "discounted_iterations required = of_nat (f64_round (f64_round (unat required) * 3602879701896397) div 2 ^ 54)"

definition prepare_task ::
  "'x macro_env_scheme \<Rightarrow> ('s, 'y) storage_ops_scheme \<Rightarrow> job_inputs \<Rightarrow> reveal option \<Rightarrow> u64 \<Rightarrow> string \<Rightarrow> string \<Rightarrow> u64
     \<Rightarrow> 's macro_daemon \<Rightarrow> 's macro_daemon" where
  "prepare_task E S I previous required tid fqdn iters D =
     (let D = set_status tid ''Fetching Network Beacon'' 10 D in
      case load_cached E S (Some (dn_storage D)) of
        Inl e \<Rightarrow> task_fail tid (BeaconFailed e) D
      | Inr raw \<Rightarrow>
          let D = set_status tid ''Generating Commitment'' 20 D in
          case load_keypair E (ji_key_file I) of
            Inl e \<Rightarrow> task_fail tid (KeypairFailed e) D
          | Inr key \<Rightarrow>
              (case ji_salt I of
                 None \<Rightarrow> task_fail tid SaltFailed D
               | Some salt \<Rightarrow>
                   (case hex_decode E (rk_signature raw) of
                      None \<Rightarrow> task_fail tid BeaconHexFailed D
                    | Some sig_bytes \<Rightarrow>
                        let D = set_status tid ''Computing VDF'' 30 D
                        in D\<lparr>dn_jobs := dn_jobs D @ [Computing \<lparr>pt_id = tid, pt_fqdn = fqdn, pt_kyn = raw, pt_key = key,
                             pt_salt = salt, pt_challenge = derive E (NETWORK_SALT E) fqdn salt sig_bytes (mldsa_pubkey E key),
                             pt_iterations = max iters required, pt_previous = previous\<rparr>]\<rparr>)))"

definition begin_registration ::
  "'x macro_env_scheme \<Rightarrow> ('s, 'y) storage_ops_scheme \<Rightarrow> job_inputs \<Rightarrow> string \<Rightarrow> string \<Rightarrow> u64 \<Rightarrow> 's macro_daemon \<Rightarrow> 's macro_daemon" where
  "begin_registration E S I tid fqdn iters D = prepare_task E S I None (iterations E fqdn) tid fqdn iters D"

definition begin_renewal ::
  "'x macro_env_scheme \<Rightarrow> ('s, 'y) storage_ops_scheme \<Rightarrow> job_inputs \<Rightarrow> string \<Rightarrow> string \<Rightarrow> u64 \<Rightarrow> 's macro_daemon \<Rightarrow> 's macro_daemon" where
  "begin_renewal E S I tid fqdn iters D =
     (let D = set_status tid ''Loading previous reveal'' 5 D in
      case st_get S (dn_storage D) (reveal_key E fqdn) of
        Inr (Some b) \<Rightarrow>
          (case from_slice_envelope E b of
             Some (Standard old_reveal) \<Rightarrow>
               prepare_task E S I (Some old_reveal) (discounted_iterations (iterations E fqdn)) tid fqdn iters D
           | None \<Rightarrow> task_fail tid RevealCorrupted D)
      | _ \<Rightarrow> task_fail tid (NameNotFoundLocally fqdn) D)"

section \<open>The second part: delay proof and commitment\<close>

definition compute_and_commit ::
  "'x macro_env_scheme \<Rightarrow> (nat \<Rightarrow> bool) \<Rightarrow> job_inputs \<Rightarrow> prepared_task \<Rightarrow> 's macro_daemon \<Rightarrow> 's macro_daemon option" where
  "compute_and_commit E is_prime I pt D =
     (case evaluate E is_prime rsa_new (pt_challenge pt) (pt_iterations pt) of
        None \<Rightarrow> None
      | Some (Inl e) \<Rightarrow> Some (task_fail (pt_id pt) (EngineFailed e) D)
      | Some (Inr proof) \<Rightarrow>
          Some (let D = set_status (pt_id pt) ''Broadcasting Commitment'' 85 D in
            case vec_commitment E (pt_challenge pt) of
              None \<Rightarrow> task_fail (pt_id pt) CommitmentUnserialisable D
            | Some commit_bytes \<Rightarrow>
                (case publish_redundant_payload (ji_client I) (pt_fqdn pt) commit_bytes of
                   Inl e \<Rightarrow> task_fail (pt_id pt) (CommitPublishFailed e) D
                 | Inr _ \<Rightarrow>
                     let D = set_status (pt_id pt) ''Maturing commitment'' 88 D
                     in D\<lparr>dn_published := dn_published D @ [(pt_fqdn pt, commit_bytes)],
                          dn_jobs := dn_jobs D @ [Maturing pt proof]\<rparr>)))"

section \<open>The third part: the reveal\<close>

definition previous_proof_of :: "reveal \<Rightarrow> previous_proof" where
  "previous_proof_of old = \<lparr>pp_salt = rv_salt old, pp_kyn = rv_kyn old, pp_beacon_signature = beacon_signature old,
     pp_iterations = rv_iterations old, pp_vdf_proof = rv_vdf_proof old, pp_identity_signature = identity_signature old\<rparr>"

definition task_reveal :: "'x macro_env_scheme \<Rightarrow> prepared_task \<Rightarrow> vdf_proof \<Rightarrow> bytes \<Rightarrow> reveal" where
  "task_reveal E pt proof payload =
     (let reveal = \<lparr>protocol_version = 1, rv_name = pt_fqdn pt, embedded_nrs = payload, rv_salt = pt_salt pt,
            rv_kyn = rk_kyn E (pt_kyn pt), beacon_signature = rk_signature (pt_kyn pt), rv_iterations = pt_iterations pt,
            rv_vdf_proof = proof, rv_pubkey = mldsa_pubkey E (pt_key pt), identity_signature = [],
            rv_authorization = None, rv_previous_proof = map_option previous_proof_of (pt_previous pt)\<rparr>
      in reveal\<lparr>identity_signature := mldsa_sign E (pt_key pt) (reveal_signable_bytes reveal (NETWORK_SALT E))\<rparr>)"

text \<open>The reveal is published in the JSON form of \<open>Reveal\<close>; \<open>finish\<close> is what follows a success.\<close>

definition publish_reveal ::
  "'x macro_env_scheme \<Rightarrow> job_inputs \<Rightarrow> prepared_task \<Rightarrow> reveal \<Rightarrow> (bytes \<Rightarrow> 's macro_daemon \<Rightarrow> 's macro_daemon)
     \<Rightarrow> 's macro_daemon \<Rightarrow> 's macro_daemon" where
  "publish_reveal E I pt reveal finish D =
     (case vec_reveal E reveal of
        None \<Rightarrow> task_fail (pt_id pt) RevealUnserialisable D
      | Some reveal_bytes \<Rightarrow>
          (case publish_redundant_payload (ji_client I) (pt_fqdn pt) reveal_bytes of
             Inl e \<Rightarrow> task_fail (pt_id pt) (RevealPublishFailed e) D
           | Inr _ \<Rightarrow> set_status (pt_id pt) ''Complete'' 100
               (finish reveal_bytes (D\<lparr>dn_published := dn_published D @ [(pt_fqdn pt, reveal_bytes)]\<rparr>))))"

definition save_registration ::
  "'x macro_env_scheme \<Rightarrow> ('s, 'y) storage_ops_scheme \<Rightarrow> job_inputs \<Rightarrow> string \<Rightarrow> nrs_zone \<Rightarrow> 's macro_daemon \<Rightarrow> 's macro_daemon" where
  "save_registration E S I fqdn zone D =
     (let D = D\<lparr>dn_storage := persist_owned E S fqdn (dn_storage D)\<rparr> in
      case pretty_zone E zone of
        Some s \<Rightarrow> if ji_zone_io I then D\<lparr>dn_config_zones := (dn_config_zones D)(fqdn := FileText s)\<rparr> else D
      | None \<Rightarrow> D)"

definition finish_registration ::
  "'x macro_env_scheme \<Rightarrow> ('s, 'y) storage_ops_scheme \<Rightarrow> job_inputs \<Rightarrow> prepared_task \<Rightarrow> vdf_proof \<Rightarrow> 's macro_daemon \<Rightarrow> 's macro_daemon" where
  "finish_registration E S I pt proof D =
     (let fqdn = pt_fqdn pt;
          D = set_status (pt_id pt) ''Injecting Identity (KID)'' 92 (set_status (pt_id pt) ''Publishing Registration'' 90 D);
          current = (case load_cached E S (Some (dn_storage D)) of
                       Inr k \<Rightarrow> rk_kyn E k | Inl _ \<Rightarrow> now_local (ji_now I) (BEACON_GENESIS E))
      in case get_or_create_kid_for_name E (ji_kid_io I) (ji_key_file I) (ji_keypair I) fqdn True False current (dn_kid_files D) of
           (Inl e, F) \<Rightarrow> task_fail (pt_id pt) (IdentityFailed e) (D\<lparr>dn_kid_files := F\<rparr>)
         | (Inr res, F) \<Rightarrow>
             let D = D\<lparr>dn_kid_files := F\<rparr>; zone = [(''@'', [KID (gk_did res)])] in
             case vec_zone E zone of
               None \<Rightarrow> task_fail (pt_id pt) ZoneUnserialisable D
             | Some payload \<Rightarrow>
                 publish_reveal E I pt (task_reveal E pt proof payload) (\<lambda>_. save_registration E S I fqdn zone) D)"

definition finish_renewal ::
  "'x macro_env_scheme \<Rightarrow> ('s, 'y) storage_ops_scheme \<Rightarrow> job_inputs \<Rightarrow> prepared_task \<Rightarrow> reveal \<Rightarrow> vdf_proof \<Rightarrow> 's macro_daemon \<Rightarrow> 's macro_daemon" where
  "finish_renewal E S I pt old proof D =
     publish_reveal E I pt (task_reveal E pt proof (embedded_nrs old))
       (\<lambda>b D. D\<lparr>dn_storage := snd (st_put S (dn_storage D) (reveal_key E (pt_fqdn pt)) b)\<rparr>)
       (set_status (pt_id pt) ''Publishing Renewal'' 90 D)"

definition run_job ::
  "'x macro_env_scheme \<Rightarrow> (nat \<Rightarrow> bool) \<Rightarrow> ('s, 'y) storage_ops_scheme \<Rightarrow> job_inputs \<Rightarrow> vdf_job \<Rightarrow> 's macro_daemon \<Rightarrow> 's macro_daemon option" where
  "run_job E is_prime S I job D =
     (case job of
        Register tid fqdn iters \<Rightarrow> Some (begin_registration E S I tid fqdn iters D)
      | Renew tid fqdn iters \<Rightarrow> Some (begin_renewal E S I tid fqdn iters D)
      | Computing pt \<Rightarrow> compute_and_commit E is_prime I pt D
      | Maturing pt proof \<Rightarrow>
          Some (case pt_previous pt of
                  None \<Rightarrow> finish_registration E S I pt proof D
                | Some old \<Rightarrow> finish_renewal E S I pt old proof D))"

section \<open>The republisher (services/network.rs)\<close>

text \<open>One tick over the owned names; the names are handled in parallel in the source, each after a delay.\<close>

definition republish_name ::
  "'x macro_env_scheme \<Rightarrow> network_client \<Rightarrow> string \<Rightarrow> bytes \<Rightarrow> ('s, 'd) daemon_scheme \<Rightarrow> ('s, 'd) daemon_scheme" where
  "republish_name E C name reveal_bytes D =
     (case slice_reveal E reveal_bytes of
        None \<Rightarrow> D
      | Some reveal \<Rightarrow>
          (case hex_decode E (beacon_signature reveal) of
             None \<Rightarrow> D
           | Some sig \<Rightarrow>
               (case vec_commitment E (derive E (NETWORK_SALT E) (rv_name reveal) (rv_salt reveal) sig (rv_pubkey reveal)) of
                  None \<Rightarrow> D
                | Some commit_bytes \<Rightarrow>
                    publish_quietly C name (Some reveal_bytes) (publish_quietly C name (Some commit_bytes) D))))"

definition republish_tick ::
  "'x macro_env_scheme \<Rightarrow> ('s, 'y) storage_ops_scheme \<Rightarrow> network_client \<Rightarrow> ('s, 'd) daemon_scheme \<Rightarrow> ('s, 'd) daemon_scheme" where
  "republish_tick E S C D =
     fold (\<lambda>name D. case st_get S (dn_storage D) (reveal_key E name) of
                      Inr (Some b) \<Rightarrow> republish_name E C name b D | _ \<Rightarrow> D) (owned_or_empty E S (dn_storage D)) D"

section \<open>Runs\<close>

text \<open>Everything that may happen: requests, the parts of queued tasks in any order, and the other work of the
  daemon, which leaves the tasks alone and takes nothing back that was published.\<close>

inductive macro_run ::
  "'x macro_env_scheme \<Rightarrow> (nat \<Rightarrow> bool) \<Rightarrow> ('s, 'y) storage_ops_scheme \<Rightarrow> 's macro_daemon \<Rightarrow> bool" for E is_prime S where
  start: "dn_tasks D = [] \<Longrightarrow> dn_jobs D = [] \<Longrightarrow> macro_run E is_prime S D"
| register: "macro_run E is_prime S D \<Longrightarrow> handle_macro_register_name E role name iters tid D = (r, D') \<Longrightarrow> macro_run E is_prime S D'"
| renew: "macro_run E is_prime S D \<Longrightarrow> handle_macro_renew_name E role name iters tid D = (r, D') \<Longrightarrow> macro_run E is_prime S D'"
| job: "macro_run E is_prime S D \<Longrightarrow> job \<in> set (dn_jobs D) \<Longrightarrow>
    run_job E is_prime S I job (D\<lparr>dn_jobs := remove1 job (dn_jobs D)\<rparr>) = Some D' \<Longrightarrow> macro_run E is_prime S D'"
| other: "macro_run E is_prime S D \<Longrightarrow> dn_tasks D' = dn_tasks D \<Longrightarrow> dn_jobs D' = dn_jobs D \<Longrightarrow>
    set (dn_published D) \<subseteq> set (dn_published D') \<Longrightarrow> macro_run E is_prime S D'"

text \<open>What the parts of a task never change in the table of tasks.\<close>

definition task_summary :: "vdf_tasks \<Rightarrow> (string \<times> u64) list" where
  "task_summary ts = map (\<lambda>(k, t). (k, vt_iterations t)) ts"

definition tasks_wf :: "vdf_tasks \<Rightarrow> bool" where
  "tasks_wf ts \<longleftrightarrow> length ts \<le> 50 \<and> distinct (map fst ts) \<and> (\<forall>(k, t)\<in>set ts. vt_iterations t \<le> MAX_USER_ITERATIONS)"

definition prepared_wf :: "'x macro_env_scheme \<Rightarrow> prepared_task \<Rightarrow> bool" where
  "prepared_wf E pt \<longleftrightarrow> is_valid_apex_name E (pt_fqdn pt) = Ok ()
     \<and> (\<exists>sig. hex_decode E (rk_signature (pt_kyn pt)) = Some sig
          \<and> pt_challenge pt = derive E (NETWORK_SALT E) (pt_fqdn pt) (pt_salt pt) sig (mldsa_pubkey E (pt_key pt)))
     \<and> (pt_previous pt = None \<longrightarrow> iterations E (pt_fqdn pt) \<le> pt_iterations pt)"

fun job_wf :: "'x macro_env_scheme \<Rightarrow> (nat \<Rightarrow> bool) \<Rightarrow> (string \<times> bytes) set \<Rightarrow> vdf_job \<Rightarrow> bool" where
  "job_wf E is_prime P (Register tid fqdn iters) \<longleftrightarrow> is_valid_apex_name E fqdn = Ok ()"
| "job_wf E is_prime P (Renew tid fqdn iters) \<longleftrightarrow> is_valid_apex_name E fqdn = Ok ()"
| "job_wf E is_prime P (Computing pt) \<longleftrightarrow> prepared_wf E pt"
| "job_wf E is_prime P (Maturing pt proof) \<longleftrightarrow> prepared_wf E pt
     \<and> evaluate E is_prime rsa_new (pt_challenge pt) (pt_iterations pt) = Some (Ok proof)
     \<and> (\<exists>b. vec_commitment E (pt_challenge pt) = Some b \<and> (pt_fqdn pt, b) \<in> P)"

lemma job_wf_mono: "job_wf E is_prime P job \<Longrightarrow> P \<subseteq> P' \<Longrightarrow> job_wf E is_prime P' job"
  by (cases job) auto

lemma task_summary_update:
  assumes "\<And>t. vt_iterations (f t) = vt_iterations t"
  shows "task_summary (update_task f tid ts) = task_summary ts"
  using assms by (auto simp: task_summary_def update_task_def)

lemma task_steps [simp]:
  "task_summary (dn_tasks (set_status tid st n D)) = task_summary (dn_tasks D)"
  "task_summary (dn_tasks (task_fail tid e D)) = task_summary (dn_tasks D)"
  "dn_jobs (set_status tid st n D) = dn_jobs D" "dn_jobs (task_fail tid e D) = dn_jobs D"
  "dn_published (set_status tid st n D) = dn_published D" "dn_published (task_fail tid e D) = dn_published D"
  "dn_storage (set_status tid st n D) = dn_storage D" "dn_storage (task_fail tid e D) = dn_storage D"
  "dn_kid_files (set_status tid st n D) = dn_kid_files D" "dn_kid_files (task_fail tid e D) = dn_kid_files D"
  by (simp_all add: set_status_def task_fail_def update_task_status_def update_task_error_def task_summary_update)

lemma tasks_wf_summary:
  assumes "task_summary ts' = task_summary ts"
  shows "tasks_wf ts' \<longleftrightarrow> tasks_wf ts"
proof -
  have *: "tasks_wf ts \<longleftrightarrow> length (task_summary ts) \<le> 50 \<and> distinct (map fst (task_summary ts))
      \<and> (\<forall>n\<in>set (map snd (task_summary ts)). n \<le> MAX_USER_ITERATIONS)" for ts
    by (auto simp: tasks_wf_def task_summary_def case_prod_beta comp_def)
  show ?thesis unfolding * assms ..
qed

text \<open>What a part of a task does: the table keeps its shape, published payloads stay, and at most one
  well-formed part follows.\<close>

definition part_effect ::
  "'x macro_env_scheme \<Rightarrow> (nat \<Rightarrow> bool) \<Rightarrow> 's macro_daemon \<Rightarrow> 's macro_daemon \<Rightarrow> bool" where
  "part_effect E is_prime D D' \<longleftrightarrow> task_summary (dn_tasks D') = task_summary (dn_tasks D)
     \<and> set (dn_published D) \<subseteq> set (dn_published D')
     \<and> (dn_jobs D' = dn_jobs D \<or> (\<exists>j. dn_jobs D' = dn_jobs D @ [j] \<and> job_wf E is_prime (set (dn_published D')) j))"

lemma prepare_effect:
  assumes "is_valid_apex_name E fqdn = Ok ()" and "previous = None \<Longrightarrow> required = iterations E fqdn"
  shows "part_effect E is_prime D (prepare_task E S I previous required tid fqdn iters D)"
  using assms by (auto simp: part_effect_def prepare_task_def Let_def prepared_wf_def split: sum.split option.split)

lemma compute_effect:
  assumes "prepared_wf E pt" and "compute_and_commit E is_prime I pt D = Some D'"
  shows "part_effect E is_prime D D'"
  using assms by (auto simp: part_effect_def compute_and_commit_def Let_def split: option.splits sum.splits)

lemma publish_reveal_effect:
  assumes "\<And>b D. task_summary (dn_tasks (finish b D)) = task_summary (dn_tasks D)"
    and "\<And>b D. dn_jobs (finish b D) = dn_jobs D" and "\<And>b D. dn_published (finish b D) = dn_published D"
  shows "part_effect E is_prime D (publish_reveal E I pt r finish D)"
  using assms by (auto simp: part_effect_def publish_reveal_def split: option.split sum.split)

lemma save_registration_frame [simp]:
  "task_summary (dn_tasks (save_registration E S I fqdn zone D)) = task_summary (dn_tasks D)"
  "dn_jobs (save_registration E S I fqdn zone D) = dn_jobs D"
  "dn_published (save_registration E S I fqdn zone D) = dn_published D"
  "dn_storage (save_registration E S I fqdn zone D) = persist_owned E S fqdn (dn_storage D)"
  "dn_kid_files (save_registration E S I fqdn zone D) = dn_kid_files D"
  by (simp_all add: save_registration_def Let_def split: option.split)

lemma part_effect_from:
  assumes "part_effect E is_prime D1 D'" and "task_summary (dn_tasks D1) = task_summary (dn_tasks D)"
    and "dn_jobs D1 = dn_jobs D" and "dn_published D1 = dn_published D"
  shows "part_effect E is_prime D D'"
  using assms by (simp add: part_effect_def)

abbreviation injecting :: "prepared_task \<Rightarrow> 's macro_daemon \<Rightarrow> 's macro_daemon" where
  "injecting pt D \<equiv> set_status (pt_id pt) ''Injecting Identity (KID)'' 92 (set_status (pt_id pt) ''Publishing Registration'' 90 D)"

lemma finish_registration_cases:
  obtains (failed) e F where "finish_registration E S I pt p D = task_fail (pt_id pt) e ((injecting pt D)\<lparr>dn_kid_files := F\<rparr>)"
  | (published) F nrs zone where "finish_registration E S I pt p D
      = publish_reveal E I pt (task_reveal E pt p nrs) (\<lambda>_. save_registration E S I (pt_fqdn pt) zone) ((injecting pt D)\<lparr>dn_kid_files := F\<rparr>)"
proof -
  let ?current = "case load_cached E S (Some (dn_storage D)) of Inr k \<Rightarrow> rk_kyn E k | Inl _ \<Rightarrow> now_local (ji_now I) (BEACON_GENESIS E)"
  obtain r F where g: "get_or_create_kid_for_name E (ji_kid_io I) (ji_key_file I) (ji_keypair I) (pt_fqdn pt) True False ?current
      (dn_kid_files D) = (r, F)" by fastforce
  show thesis
  proof (cases r)
    case (Inl e)
    then show thesis using g by (intro failed [of "IdentityFailed e" F]) (simp add: finish_registration_def Let_def)
  next
    case (Inr res)
    show thesis
    proof (cases "vec_zone E [(''@'', [KID (gk_did res)])]")
      case None
      then show thesis using g Inr by (intro failed [of ZoneUnserialisable F]) (simp add: finish_registration_def Let_def)
    next
      case (Some nrs)
      then show thesis using g Inr by (intro published) (simp add: finish_registration_def Let_def)
    qed
  qed
qed

lemma finish_registration_effect: "part_effect E is_prime D (finish_registration E S I pt p D)"
proof (cases rule: finish_registration_cases [of E S I pt p D])
  case (failed e F)
  then show ?thesis by (simp add: part_effect_def)
next
  case (published F nrs zone)
  then show ?thesis by (simp only:) (rule part_effect_from [OF publish_reveal_effect], simp_all)
qed

lemma finish_renewal_effect: "part_effect E is_prime D (finish_renewal E S I pt old proof D)"
  unfolding finish_renewal_def by (rule part_effect_from [OF publish_reveal_effect]) simp_all

lemma run_job_effect:
  assumes "job_wf E is_prime (set (dn_published D)) job" and "run_job E is_prime S I job D = Some D'"
  shows "part_effect E is_prime D D'"
proof (cases job)
  case (Register tid fqdn iters)
  then show ?thesis using assms prepare_effect [of E fqdn None "iterations E fqdn"] by (auto simp: run_job_def begin_registration_def)
next
  case (Renew tid fqdn iters)
  let ?D = "set_status tid ''Loading previous reveal'' 5 D"
  have "part_effect E is_prime D (prepare_task E S I (Some old) n tid fqdn iters ?D)" for old n
    using assms Renew by (intro part_effect_from [OF prepare_effect]) simp_all
  moreover have "part_effect E is_prime D (task_fail tid e ?D)" for e by (simp add: part_effect_def)
  ultimately show ?thesis
    using assms Renew by (auto simp: run_job_def begin_renewal_def Let_def split: sum.splits option.splits name_envelope.splits)
next
  case (Computing pt)
  then show ?thesis using assms compute_effect by (auto simp: run_job_def)
next
  case (Maturing pt p)
  then show ?thesis
    using assms finish_registration_effect finish_renewal_effect by (auto simp: run_job_def split: option.splits)
qed

lemma insert_task_wf:
  assumes "tasks_wf ts" and "length (retain_active ts) < 50" and "vt_iterations t \<le> MAX_USER_ITERATIONS"
  shows "tasks_wf (insert_task tid t (retain_active ts))"
proof -
  have "length (filter (\<lambda>(k, _). k \<noteq> tid) (retain_active ts)) < 50" using assms(2) le_less_trans length_filter_le by blast
  moreover have "distinct (map fst (filter P ts))" for P using assms(1) by (simp add: tasks_wf_def distinct_map_filter)
  ultimately show ?thesis
    using assms by (auto simp: tasks_wf_def insert_task_def retain_active_def)
qed

lemma retain_active_wf: "tasks_wf ts \<Longrightarrow> tasks_wf (retain_active ts)"
  by (auto simp: tasks_wf_def retain_active_def distinct_map_filter intro: le_trans [OF length_filter_le])

lemma check_request_Ok:
  assumes "check_request E role name iters = Ok fqdn"
  shows "fqdn = normalize_name E name \<and> is_valid_apex_name E fqdn = Ok () \<and> can_vdf role
    \<and> requested_iterations iters \<le> MAX_USER_ITERATIONS"
  using assms by (auto simp: check_request_def Let_def result_simps requested_iterations_def MAX_USER_ITERATIONS_def
      split: option.splits)

definition macro_wf :: "'x macro_env_scheme \<Rightarrow> (nat \<Rightarrow> bool) \<Rightarrow> 's macro_daemon \<Rightarrow> bool" where
  "macro_wf E is_prime D \<longleftrightarrow> tasks_wf (dn_tasks D) \<and> (\<forall>j\<in>set (dn_jobs D). job_wf E is_prime (set (dn_published D)) j)"

lemma register_wf:
  assumes "macro_wf E is_prime D" and "handle_macro_register_name E role name iters tid D = (r, D')"
  shows "macro_wf E is_prime D'"
proof (cases "check_request E role name iters")
  case (Inl e)
  then show ?thesis using assms by (simp add: handle_macro_register_name_def)
next
  case (Inr fqdn)
  then have "is_valid_apex_name E fqdn = Ok ()" "requested_iterations iters \<le> MAX_USER_ITERATIONS"
    using check_request_Ok by blast+
  then show ?thesis
    using assms Inr
    by (auto simp: handle_macro_register_name_def Let_def macro_wf_def not_le intro!: insert_task_wf retain_active_wf split: if_splits)
qed

lemma renew_wf:
  assumes "macro_wf E is_prime D" and "handle_macro_renew_name E role name iters tid D = (r, D')"
  shows "macro_wf E is_prime D'"
proof (cases "check_request E role name iters")
  case (Inl e)
  then show ?thesis using assms by (simp add: handle_macro_renew_name_def)
next
  case (Inr fqdn)
  then have "is_valid_apex_name E fqdn = Ok ()" "requested_iterations iters \<le> MAX_USER_ITERATIONS"
    using check_request_Ok by blast+
  then show ?thesis
    using assms Inr
    by (auto simp: handle_macro_renew_name_def Let_def macro_wf_def not_le intro!: insert_task_wf retain_active_wf split: if_splits)
qed

lemma job_keeps_wf:
  assumes "macro_wf E is_prime D" and "job \<in> set (dn_jobs D)"
    and "run_job E is_prime S I job (D\<lparr>dn_jobs := remove1 job (dn_jobs D)\<rparr>) = Some D'"
  shows "macro_wf E is_prime D'"
proof -
  let ?D = "D\<lparr>dn_jobs := remove1 job (dn_jobs D)\<rparr>"
  have j: "job_wf E is_prime (set (dn_published D)) j" if "j \<in> set (dn_jobs D)" for j
    using assms(1) that by (simp add: macro_wf_def)
  then have e: "part_effect E is_prime ?D D'" using assms(2) by (intro run_job_effect [OF _ assms(3)]) simp
  then have p: "set (dn_published D) \<subseteq> set (dn_published D')" and s: "task_summary (dn_tasks D') = task_summary (dn_tasks D)"
    by (simp_all add: part_effect_def)
  have "job_wf E is_prime (set (dn_published D')) j" if "j \<in> set (remove1 job (dn_jobs D))" for j
    using j [OF set_remove1_subset [THEN subsetD, OF that]] p by (rule job_wf_mono)
  then have "\<forall>j\<in>set (dn_jobs D'). job_wf E is_prime (set (dn_published D')) j"
    using e unfolding part_effect_def by (elim conjE disjE exE) simp_all
  moreover have "tasks_wf (dn_tasks D')" using tasks_wf_summary [OF s] assms(1) by (simp add: macro_wf_def)
  ultimately show ?thesis by (simp add: macro_wf_def)
qed

lemma macro_run_wf: "macro_run E is_prime S D \<Longrightarrow> macro_wf E is_prime D"
proof (induction rule: macro_run.induct)
  case (start D)
  then show ?case by (simp add: macro_wf_def tasks_wf_def)
next
  case (register D role name iters tid r D')
  then show ?case using register_wf by blast
next
  case (renew D role name iters tid r D')
  then show ?case using renew_wf by blast
next
  case (job D job I D')
  then show ?case using job_keeps_wf by blast
next
  case (other D D')
  then show ?case by (simp add: macro_wf_def job_wf_mono [OF _ other.hyps(4)])
qed

section \<open>Correctness of registration tasks\<close>

text \<open>C25. The table of tasks stays small: over every interleaving of requests and task steps it holds at most 50
  tasks, one per identifier, each asked for at most 10,000,000 iterations; and a registration is started
  only when no task is active, as the only task of the table.\<close>

theorem tasks_bounded:
  assumes "macro_run E is_prime S D"
  shows "length (dn_tasks D) \<le> 50 \<and> distinct (map fst (dn_tasks D))
    \<and> (\<forall>(k, t)\<in>set (dn_tasks D). vt_iterations t \<le> MAX_USER_ITERATIONS)
    \<and> (\<forall>role name iters tid D'. handle_macro_register_name E role name iters tid D = (Ok tid, D') \<longrightarrow>
         (\<forall>(k, t)\<in>set (dn_tasks D). \<not> is_active t) \<and> map fst (dn_tasks D') = [tid])"
proof -
  have "(\<forall>(k, t)\<in>set (dn_tasks D). \<not> is_active t) \<and> map fst (dn_tasks D') = [tid]"
    if "handle_macro_register_name E role name iters tid D = (Ok tid, D')" for role name iters tid D'
  proof -
    have "filter (\<lambda>(_, t). is_active t) (dn_tasks D) = []"
      using that by (auto simp: handle_macro_register_name_def Let_def Suc_le_eq split: sum.splits if_splits)
    then show ?thesis
      using that by (auto simp: handle_macro_register_name_def Let_def insert_task_def retain_active_def filter_empty_conv
          split: sum.splits if_splits)
  qed
  moreover have "tasks_wf (dn_tasks D)" using macro_run_wf [OF assms] by (simp add: macro_wf_def)
  ultimately show ?thesis unfolding tasks_wf_def by blast
qed

lemma evaluate_verifies:
  assumes "evaluate E is_prime rsa_new c n = Some (Ok p)" and "\<And>m. length (sha256 E m) = 32"
    and "\<And>x y. \<exists>counter. is_prime (prime_candidate E x y counter)"
  shows "verify E is_prime rsa_new c p n = Some (Ok True) \<and> length (proof_bytes p) = 512"
proof -
  have "n \<noteq> 0" using assms(1) by (rule contrapos_pn) (simp add: evaluate_def)
  moreover have "be_value (cm_hash c) \<noteq> 0" using assms(1) by (rule contrapos_pn) (simp add: evaluate_def Let_def)
  ultimately show ?thesis using evaluate_complete [OF assms(2) _ _ assms(3)] assms(1) by fastforce
qed

lemma task_reveal_fields [simp]:
  "rv_name (task_reveal E pt p nrs) = pt_fqdn pt" "protocol_version (task_reveal E pt p nrs) = 1"
  "embedded_nrs (task_reveal E pt p nrs) = nrs" "rv_salt (task_reveal E pt p nrs) = pt_salt pt"
  "rv_kyn (task_reveal E pt p nrs) = rk_kyn E (pt_kyn pt)" "beacon_signature (task_reveal E pt p nrs) = rk_signature (pt_kyn pt)"
  "rv_iterations (task_reveal E pt p nrs) = pt_iterations pt" "rv_vdf_proof (task_reveal E pt p nrs) = p"
  "rv_pubkey (task_reveal E pt p nrs) = mldsa_pubkey E (pt_key pt)" "rv_authorization (task_reveal E pt p nrs) = None"
  "rv_previous_proof (task_reveal E pt p nrs) = map_option previous_proof_of (pt_previous pt)"
  by (simp_all add: task_reveal_def Let_def)

lemma task_reveal_signature:
  "identity_signature (task_reveal E pt p nrs)
     = mldsa_sign E (pt_key pt) (reveal_signable_bytes (task_reveal E pt p nrs) (NETWORK_SALT E))"
  by (simp add: task_reveal_def Let_def reveal_signable_bytes_def)


section \<open>What is published\<close>

text \<open>The members of the JSON form of \<open>Reveal\<close>, and what the code relies on of \<open>serde\<close>: a struct is written with its
  members, and an enum with a tag is read only from an object that has the tag.\<close>

definition reveal_fields :: "reveal \<Rightarrow> string list" where
  "reveal_fields r =
     [''protocol_version'', ''name'', ''embedded_nrs'', ''salt'', ''kyn'', ''beacon_signature'', ''iterations'', ''vdf_proof'',
      ''pubkey'', ''identity_signature''] @ (if rv_authorization r = None then [] else [''authorization'']) @ [''previous_proof'']"

definition serde_reveals :: "'x macro_env_scheme \<Rightarrow> bool" where
  "serde_reveals E \<longleftrightarrow> (\<forall>r b. vec_reveal E r = Some b \<longrightarrow> json_has_field E b = Some (\<lambda>f. f \<in> set (reveal_fields r)))
     \<and> (\<forall>b. value_name_envelope E b \<noteq> None \<or> from_slice_envelope E b \<noteq> None \<longrightarrow>
          (\<exists>has. json_has_field E b = Some has \<and> has ''record_type''))"

lemma bare_reveal_refused:
  assumes "serde_reveals E" and "vec_reveal E r = Some b"
  shows "from_slice_envelope E b = None \<and> value_name_envelope E b = None
    \<and> (kr_value rec = b \<longrightarrow> (\<exists>e. put_record_internal E G B now s rec skip = Some (Err e, s)))"
proof -
  have f: "json_has_field E b = Some (\<lambda>f. f \<in> set (reveal_fields r))" using assms by (simp add: serde_reveals_def)
  moreover have "''record_type'' \<notin> set (reveal_fields r)" by (simp add: reveal_fields_def)
  ultimately have "from_slice_envelope E b = None" "value_name_envelope E b = None"
    using assms(1) unfolding serde_reveals_def by fastforce+
  then show ?thesis using f by (simp add: put_record_internal_def reveal_fields_def)
qed

lemma publish_reveal_published:
  assumes "\<And>b D. dn_published (finish b D) = dn_published D"
  shows "dn_published (publish_reveal E I pt r finish D) = dn_published D
    \<or> (\<exists>b. vec_reveal E r = Some b \<and> dn_published (publish_reveal E I pt r finish D) = dn_published D @ [(pt_fqdn pt, b)])"
  using assms by (simp add: publish_reveal_def split: option.split sum.split)

lemma maturing_published:
  assumes "run_job E is_prime S I (Maturing pt p) D = Some D'"
  shows "dn_published D' = dn_published D
    \<or> (\<exists>nrs b. vec_reveal E (task_reveal E pt p nrs) = Some b \<and> dn_published D' = dn_published D @ [(pt_fqdn pt, b)])"
proof (cases "pt_previous pt")
  case None
  then have "D' = finish_registration E S I pt p D" using assms by (simp add: run_job_def)
  then show ?thesis
  proof (cases rule: finish_registration_cases [of E S I pt p D])
    case (published F nrs zone)
    then show ?thesis
      using \<open>D' = _\<close> publish_reveal_published [of "\<lambda>_. save_registration E S I (pt_fqdn pt) zone" E I pt "task_reveal E pt p nrs"
          "(injecting pt D)\<lparr>dn_kid_files := F\<rparr>"] by auto
  qed simp
next
  case (Some old)
  then show ?thesis
    using assms publish_reveal_published [of "\<lambda>b D. D\<lparr>dn_storage := snd (st_put S (dn_storage D) (reveal_key E (pt_fqdn pt)) b)\<rparr>" E I pt
        "task_reveal E pt p (embedded_nrs old)" "set_status (pt_id pt) ''Publishing Renewal'' 90 D"]
    by (auto simp: run_job_def finish_renewal_def)
qed

text \<open>C24. What a task publishes as its reveal is refused everywhere: the payload is the JSON form of the reveal
  itself, without the tag \<open>record_type\<close> of a name record. No store accepts it, whatever its state, and it
  does not decode as a record of the name, although the task reports success.\<close>

theorem task_reveals_refused:
  assumes "serde_reveals E" and "run_job E is_prime S I (Maturing pt p) D = Some D'" and "dn_published D' \<noteq> dn_published D"
  shows "\<exists>b. dn_published D' = dn_published D @ [(pt_fqdn pt, b)] \<and> from_slice_envelope E b = None
    \<and> (\<forall>G B now s rec skip. kr_value rec = b \<longrightarrow> (\<exists>e. put_record_internal E G B now s rec skip = Some (Err e, s)))"
  using maturing_published [OF assms(2)] assms(3) bare_reveal_refused [OF assms(1)] by blast

section \<open>Retries and renewals\<close>

text \<open>A registration asks for a new identity document: when the name already has one, made by hand or by an
  earlier attempt whose publication failed, the task fails after the delay has been computed.\<close>

lemma retry_fails:
  assumes "dn_kid_files D (did_path (kid_paths_of E (pt_fqdn pt))) \<noteq> NoFile"
    and "normalize_name E (pt_fqdn pt) = pt_fqdn pt" and "\<not> is_subname E (pt_fqdn pt)"
  shows "\<exists>D1. finish_registration E S I pt p D = task_fail (pt_id pt) (IdentityFailed (KidAlreadyExists (pt_fqdn pt))) D1
    \<and> dn_published D1 = dn_published D"
proof -
  have "get_or_create_kid_for_name E io key_file keypair (pt_fqdn pt) True False current (dn_kid_files D)
      = (Err (KidAlreadyExists (pt_fqdn pt)), dn_kid_files D)" for io key_file keypair current
    using assms by (simp add: get_or_create_kid_for_name_def Let_def)
  then have "finish_registration E S I pt p D = task_fail (pt_id pt) (IdentityFailed (KidAlreadyExists (pt_fqdn pt)))
      ((injecting pt D)\<lparr>dn_kid_files := dn_kid_files D\<rparr>)"
    by (simp add: finish_registration_def Let_def)
  then show ?thesis by (intro exI [of _ "(injecting pt D)\<lparr>dn_kid_files := dn_kid_files D\<rparr>"] conjI) simp_all
qed

text \<open>A registration does not store its reveal, so the registered name can be neither renewed nor updated here.\<close>

lemma registration_not_renewable:
  assumes "total_storage_engine S contents intact" and "intact (dn_storage D)" and "contents (dn_storage D) (reveal_key E (pt_fqdn pt)) = None"
    and "DB_PREFIX_OWNED_NAMES E \<noteq> reveal_key E (pt_fqdn pt)" and "dn_storage D' = dn_storage (finish_registration E S I pt p D)"
    and "\<And>k. is_ok (st_get S (dn_storage D') k)"
  shows "\<exists>D1. begin_renewal E S I' tid (pt_fqdn pt) iters D' = task_fail tid (NameNotFoundLocally (pt_fqdn pt)) D1"
proof -
  have "dn_storage D' = dn_storage D \<or> dn_storage D' = persist_owned E S (pt_fqdn pt) (dn_storage D)"
    by (cases rule: finish_registration_cases [of E S I pt p D])
       (simp_all add: assms(5) publish_reveal_def split: option.split sum.split)
  moreover have "intact (persist_owned E S (pt_fqdn pt) (dn_storage D))"
    using total_storage_engine.persist_owned_wf [OF assms(1,2)] .
  moreover have "contents (persist_owned E S (pt_fqdn pt) (dn_storage D)) (reveal_key E (pt_fqdn pt)) = None"
    using assms(3,4) storage_engine.put_frame [OF total_storage_engine.axioms(1) [OF assms(1)] assms(2)]
    by (auto simp: persist_owned_def Let_def split: option.split) (metis prod.collapse)
  ultimately have "intact (dn_storage D')" "contents (dn_storage D') (reveal_key E (pt_fqdn pt)) = None"
    using assms(2,3) by auto
  moreover obtain x where "st_get S (dn_storage D') (reveal_key E (pt_fqdn pt)) = Ok x" 
    using assms(6) [of "reveal_key E (pt_fqdn pt)"] by (auto simp: is_ok_def split: sum.splits)
  ultimately have "st_get S (dn_storage D') (reveal_key E (pt_fqdn pt)) = Ok None"
    using storage_engine.get_ok [OF total_storage_engine.axioms(1) [OF assms(1)]] by metis
  then show ?thesis by (auto simp: begin_renewal_def Let_def)
qed

text \<open>A renewal overwrites the stored record with the JSON of the bare reveal, which no reader of that key decodes.\<close>

lemma renewal_corrupts_record:
  assumes "serde_reveals E" and "vec_reveal E r = Some b" and "st_get S st (reveal_key E fqdn) = Ok (Some b)"
  shows "load_reveal E S fqdn st = Err (AppStorage (DeserializationFailed ''Stored registration data is corrupted.''))
    \<and> (dn_storage D = st \<longrightarrow> (\<exists>D1. begin_renewal E S I tid fqdn iters D = task_fail tid RevealCorrupted D1))"
proof -
  have "from_slice_envelope E b = None" using bare_reveal_refused [OF assms(1,2)] by blast
  then show ?thesis using assms(3) by (auto simp: load_reveal_def begin_renewal_def Let_def)
qed

text \<open>The proof of the previous registration carries the signature of the old reveal, while a renewal is verified
  against a signature of the proof itself: under signatures that fit one message only, no renewal verifies.\<close>

lemma renewal_never_verifies:
  assumes "pt_previous pt = Some old" and "\<not> dev_mode E"
    and "identity_signature old = mldsa_sign E key (reveal_signable_bytes old (NETWORK_SALT E))"
    and "\<And>m m'. signed_by E (mldsa_pubkey E (pt_key pt)) m' (mldsa_sign E key m) \<Longrightarrow> m' = m"
  shows "verify_reveal E G S st (task_reveal E pt p nrs) t \<noteq> Ok ()"
proof -
  let ?s = "NETWORK_SALT E"
  have "previous_signable_bytes (previous_proof_of old) ?s \<noteq> reveal_signable_bytes old ?s"
    unfolding previous_sig.layout reveal_sig.layout by (rule tag_separation) (simp_all add: tags_differ_def)
  then have "\<not> signed_by E (mldsa_pubkey E (pt_key pt)) (previous_signable_bytes (previous_proof_of old) ?s) (identity_signature old)"
    using assms(3,4) by metis
  then have "reveal_verify_signature E (task_reveal E pt p nrs) ?s \<noteq> Ok ()"
    using assms(1) by (auto simp: reveal_verify_signature_def Let_def result_simps previous_proof_of_def)
  then show ?thesis using assms(2) by (simp add: verify_reveal_Ok)
qed

text \<open>The discount of a renewal is at most a quarter of the difficulty, while a store asks names of two to six
  letters for half of it: such a renewal with the default iterations brings too few.\<close>

lemma bit_length_le: "0 < m \<Longrightarrow> 2 ^ (bit_length m - 1) \<le> m"
proof (induction m rule: bit_length.induct)
  case (1 n)
  show ?case
  proof (cases "n div 2 = 0")
    case True
    then show ?thesis using 1 by (simp add: bit_length.simps)
  next
    case False
    then obtain k where k: "bit_length (n div 2) = Suc k" by (simp add: bit_length.simps [of "n div 2"])
    with False 1 have "2 ^ k \<le> n div 2" by simp
    then show ?thesis using 1(2) k by (simp add: bit_length.simps [of n])
  qed
qed

lemma f64_round_le: "f64_round m * 2 ^ 52 \<le> m * (2 ^ 52 + 1)"
proof (cases "bit_length m \<le> 53")
  case True
  then show ?thesis by (simp add: f64_round_def)
next
  case False
  define s where "s = bit_length m - 53"
  have "0 < m" using False by (cases m) (simp_all add: bit_length.simps)
  moreover have "bit_length m - 1 = s + 52" using False by (simp add: s_def)
  ultimately have "2 ^ (s + 52) \<le> m" using bit_length_le [of m] by metis
  then have "2 ^ s * 2 ^ 52 \<le> m" by (simp only: power_add)
  moreover have "f64_round m \<le> m + 2 ^ s"
    unfolding f64_round_def Let_def s_def by (auto intro: trans_le_add1 [OF div_times_less_eq_dividend])
  ultimately show ?thesis by (simp add: algebra_simps)
qed

lemma discounted_quarter: "unat (discounted_iterations n) \<le> unat n div 4"
proof -
  let ?c = "3602879701896397 :: nat" let ?f = "f64_round (unat n)" let ?x = "f64_round (?f * ?c)"
  have "?x * 2 ^ 52 * 2 ^ 52 \<le> (?f * ?c) * (2 ^ 52 + 1) * 2 ^ 52" using f64_round_le [of "?f * ?c"] by simp
  also have "\<dots> = (?f * 2 ^ 52) * (?c * (2 ^ 52 + 1))" by (simp add: mult.assoc)
  also have "\<dots> \<le> (unat n * (2 ^ 52 + 1)) * (?c * (2 ^ 52 + 1))" using f64_round_le [of "unat n"] by (rule mult_le_mono1)
  finally have "4 * ?x \<le> unat n * 2 ^ 54" by simp
  then have "?x div 2 ^ 54 \<le> unat n div 4" by (simp add: div_le_mono less_eq_div_iff_mult_less_eq)
  then show ?thesis
    unfolding discounted_iterations_def unat_of_nat by (rule le_trans [OF mod_less_eq_dividend])
qed

lemma short_renewal_underpays:
  assumes "length (case strip_suffix (normalize_name E name) (NSP_SUFFIX E) of Some l \<Rightarrow> l | None \<Rightarrow> normalize_name E name) \<in> {2..6}"
    and "unat iters < unat base div 2" and "4 \<le> unat base"
  shows "max iters (discounted_iterations base) < discount_iterations E name base"
proof -
  have "unat (discounted_iterations base) < unat base div 2" using discounted_quarter [of base] assms(3) by linarith
  then have "unat (max iters (discounted_iterations base)) < unat (base div 2)" using assms(2) by (simp add: max_def unat_div)
  then show ?thesis using assms(1) by (simp add: discount_iterations_def Let_def word_less_nat_alt)
qed

section \<open>Republishing\<close>

text \<open>A stored name is republished as its commitment followed by its reveal; a name without a stored reveal, such
  as one registered by a task, is not republished.\<close>

lemma republished_in_order:
  assumes "slice_reveal E b = Some r" and "hex_decode E (beacon_signature r) = Some sig"
    and "vec_commitment E (derive E (NETWORK_SALT E) (rv_name r) (rv_salt r) sig (rv_pubkey r)) = Some c"
    and "publish_redundant_payload C name c = Ok ()" and "publish_redundant_payload C name b = Ok ()"
  shows "dn_published (republish_name E C name b D) = dn_published D @ [(name, c), (name, b)]"
  using assms by (simp add: republish_name_def publish_quietly_def)

lemma unstored_not_republished:
  assumes "\<And>name. name \<in> set (owned_or_empty E S (dn_storage D)) \<Longrightarrow> st_get S (dn_storage D) (reveal_key E name) = Ok None"
  shows "republish_tick E S C D = D"
proof -
  have "fold (\<lambda>name D. case st_get S (dn_storage D) (reveal_key E name) of
      Inr (Some b) \<Rightarrow> republish_name E C name b D | _ \<Rightarrow> D) names D = D"
    if "\<And>name. name \<in> set names \<Longrightarrow> st_get S (dn_storage D) (reveal_key E name) = Ok None" for names
    using that by (induction names) simp_all
  then show ?thesis using assms unfolding republish_tick_def by blast
qed

section \<open>Witnesses\<close>

text \<open>A node that accepts signatures, beacons and proofs, with a cached beacon round; every reveal is written as the
  same bytes, whose members are those of a reveal.\<close>

definition sample_round :: raw_kyn where
  "sample_round = \<lparr>beacon_idx = 1000, randomness = replicate 32 (char_of (7 :: nat)), rk_signature = replicate 192 CHR ''a'',
     is_from_cache = True, is_unavailable = False\<rparr>"

definition sample_macro :: macro_env where
  "sample_macro = kid_env.extend
     (sample_kid\<lparr>sha256 := \<lambda>_. replicate 32 7, mldsa_sign := \<lambda>_ _. replicate 3309 0, mldsa_verify := \<lambda>_ _ _. True,
        slice_raw_kyn := \<lambda>_. Some sample_round, json_has_field := \<lambda>_. Some (\<lambda>f. f \<in> set (reveal_fields sample_reveal)),
        from_slice_envelope := \<lambda>_. None, value_name_envelope := \<lambda>_. None\<rparr>)
     (macro_env.fields (\<lambda>r. if rv_authorization r = None then Some [2] else None) (\<lambda>_. None))"

lemmas sample_macro_simps = sample_macro_def kid_env.defs macro_env.defs sample_kid_simps

definition sample_macro_daemon :: "bytes wasm_storage macro_daemon" where
  "sample_macro_daemon = \<lparr>dn_storage = \<lparr>db = [([1], [0])], opfs_handle = None\<rparr>, dn_config_zones = \<lambda>_. NoFile,
     dn_local_zones = \<lambda>_. NoFile, dn_published = [], dn_heartbeats = [], dn_quorums = [], dn_kid_files = \<lambda>_. NoFile,
     dn_tasks = [], dn_jobs = []\<rparr>"

definition sample_inputs :: job_inputs where
  "sample_inputs = \<lparr>ji_client = sample_client, ji_key_file = Some (replicate 32 0), ji_salt = Some (replicate 32 0),
     ji_keypair = key_one, ji_now = 0, ji_kid_io = \<lambda>_. None, ji_zone_io = True\<rparr>"

lemma sample_macro_fields:
  "DB_PREFIX_LAST_KYN sample_macro = [1]" "slice_raw_kyn sample_macro b = Some sample_round"
  "key_from_seed sample_macro d = replicate 1952 0" "hex_decode sample_macro h = Some (as_bytes h)" "mldsa_pubkey sample_macro k = k"
  "vec_commitment sample_macro c = Some [0]" "sha256 sample_macro m = replicate 32 7"
  "vec_reveal sample_macro r = (if rv_authorization r = None then Some [2] else None)" "\<not> dev_mode sample_macro"
  "vdf_engine_verify sample_macro c p n = Ok True" "mldsa_sign sample_macro k m = replicate 3309 0" "KYN_PERIOD sample_macro = 1"
  "MINIMUM_COMMIT_AGE_KYNS sample_macro = 30"
  by (simp_all add: sample_macro_simps)

lemma sample_macro_names: "names_ok sample_macro" "NSP_SUFFIX sample_macro = ''.kin''"
  by (rule sample_names_ok) (simp_all add: sample_macro_simps)

lemma sample_registered:
  "\<exists>D'. handle_macro_register_name sample_macro admin_role ''satoshi.kin'' (Some 1) ''t'' sample_macro_daemon = (Ok ''t'', D')
     \<and> dn_jobs D' = [Register ''t'' ''satoshi.kin'' 1] \<and> dn_storage D' = dn_storage sample_macro_daemon"
  using satoshi_normal [OF sample_macro_names] satoshi_valid [OF sample_macro_names]
  by (simp add: handle_macro_register_name_def check_request_def Let_def admin_role_def can_vdf_def sample_macro_daemon_def
      MAX_USER_ITERATIONS_def requested_iterations_def retain_active_def)

lemma sample_start: "macro_run sample_macro (\<lambda>_. True) sample_engine sample_macro_daemon"
  by (rule macro_run.start) (simp_all add: sample_macro_daemon_def)

theorem tasks_bounded_witness:
  "\<exists>D'. handle_macro_register_name sample_macro admin_role ''satoshi.kin'' (Some 1) ''t'' sample_macro_daemon = (Ok ''t'', D')
     \<and> map fst (dn_tasks D') = [''t'']"
  using tasks_bounded [OF sample_start] sample_registered by blast

text \<open>The three parts of the registration of one name.\<close>

lemma sample_matured:
  obtains D pt p where "macro_run sample_macro (\<lambda>_. True) sample_engine D" and "Maturing pt p \<in> set (dn_jobs D)"
    and "pt_previous pt = None" and "pt_kyn pt = sample_round" and "pt_key pt = replicate 1952 0"
    and "cm_hash (pt_challenge pt) = replicate 32 7" and "pt_fqdn pt = ''satoshi.kin''"
proof -
  let ?E = sample_macro and ?run = "macro_run sample_macro (\<lambda>_. True) sample_engine"
  obtain D1 where D1: "?run D1" "dn_jobs D1 = [Register ''t'' ''satoshi.kin'' 1]" "dn_storage D1 = dn_storage sample_macro_daemon"
    using sample_registered macro_run.register [OF sample_start] by blast
  have l: "load_cached ?E sample_engine (Some (dn_storage sample_macro_daemon)) = Ok sample_round"
    by (simp add: load_cached_def sample_macro_daemon_def sample_macro_fields storage_get_def) (simp add: sample_round_def)
  define pt where "pt = \<lparr>pt_id = ''t'', pt_fqdn = ''satoshi.kin'', pt_kyn = sample_round, pt_key = replicate 1952 0,
     pt_salt = replicate 32 0, pt_challenge = \<lparr>cm_hash = replicate 32 7\<rparr>, pt_iterations = max 1 (iterations ?E ''satoshi.kin''),
     pt_previous = None\<rparr>"
  obtain D2 where j2: "run_job ?E (\<lambda>_. True) sample_engine sample_inputs (Register ''t'' ''satoshi.kin'' 1)
      (D1\<lparr>dn_jobs := remove1 (Register ''t'' ''satoshi.kin'' 1) (dn_jobs D1)\<rparr>) = Some D2" and D2: "dn_jobs D2 = [Computing pt]"
    using D1 l by (simp add: run_job_def begin_registration_def prepare_task_def Let_def sample_inputs_def load_keypair_def
        sample_macro_fields derive_def pt_def)
  have r2: "?run D2" by (rule macro_run.job [OF D1(1) _ j2]) (simp add: D1(2))
  have "replicate 32 7 = (7 :: u8) # replicate 31 7" by (simp flip: replicate_Suc)
  then have "be_value (cm_hash (pt_challenge pt)) \<noteq> 0" by (simp add: pt_def)
  moreover have "pt_iterations pt \<noteq> 0"
    by (auto simp: pt_def max_def)
  ultimately obtain p where p: "evaluate ?E (\<lambda>_. True) rsa_new (pt_challenge pt) (pt_iterations pt) = Some (Ok p)"
    using evaluate_complete [of ?E "pt_challenge pt" "pt_iterations pt" "\<lambda>_. True"] by (auto simp: sample_macro_fields)
  then obtain D3 where j3: "run_job ?E (\<lambda>_. True) sample_engine sample_inputs (Computing pt) (D2\<lparr>dn_jobs := remove1 (Computing pt) (dn_jobs D2)\<rparr>)
      = Some D3" and D3: "dn_jobs D3 = [Maturing pt p]"
    by (simp add: run_job_def compute_and_commit_def Let_def D2 sample_macro_fields sample_inputs_def publish_redundant_payload_def
        publish_reply_def sample_client_def)
  have "?run D3" by (rule macro_run.job [OF r2 _ j3]) (simp add: D2)
  with D3 show thesis by (intro that [of D3 pt p]) (simp_all add: pt_def)
qed

definition sample_commit_db :: "bytes wasm_storage" where
  "sample_commit_db = \<lparr>db = [(KRS_COMMIT_PREFIX @ replicate 32 7, u64_to_be_bytes 900)], opfs_handle = None\<rparr>"


lemma sample_serde: "serde_reveals sample_macro"
  by (simp add: serde_reveals_def sample_macro_simps reveal_fields_def sample_reveal_def)

definition sample_renewal :: prepared_task where
  "sample_renewal = \<lparr>pt_id = ''t'', pt_fqdn = ''satoshi.kin'', pt_kyn = sample_round, pt_key = [], pt_salt = replicate 32 0,
     pt_challenge = \<lparr>cm_hash = []\<rparr>, pt_iterations = 1, pt_previous = Some sample_reveal\<rparr>"

theorem task_reveals_refused_witness:
  "\<exists>D' b. run_job sample_macro (\<lambda>_. True) sample_engine sample_inputs (Maturing sample_renewal \<lparr>proof_bytes = []\<rparr>) sample_macro_daemon
       = Some D' \<and> dn_published D' = [(''satoshi.kin'', b)] \<and> from_slice_envelope sample_macro b = None"
proof -
  obtain D' where d: "run_job sample_macro (\<lambda>_. True) sample_engine sample_inputs (Maturing sample_renewal \<lparr>proof_bytes = []\<rparr>)
      sample_macro_daemon = Some D'" "dn_published D' = [(''satoshi.kin'', [2])]"
    by (simp add: run_job_def sample_renewal_def finish_renewal_def publish_reveal_def sample_macro_fields publish_redundant_payload_def
        publish_reply_def sample_inputs_def sample_client_def sample_macro_daemon_def)
  then have n: "dn_published D' \<noteq> dn_published sample_macro_daemon" by (simp add: sample_macro_daemon_def)
  show ?thesis
    using task_reveals_refused [OF sample_serde d(1) n] d by (auto simp: sample_macro_daemon_def sample_renewal_def)
qed

end
