(* ===== verification/Proxy.thy ===== *)
theory Proxy
  imports Daemon_Nrs Nrs_Server
begin

text \<open>
  The local HTTP proxy of the daemon (\<open>kinetic-daemon/src/proxy\<close>): dispatch of browser requests, resolution of
  a name to a target over its aliases, and forwarding to an address, a Web2 host, an IPFS gateway or a peer;
  and the other end, which passes requests of peers to a local web server.

  A request is its parsed form; what is sent to a backend is the result of a function, and the answer of the
  backend an argument. HTTP, TLS, the LRU cache, DNS and the address and peer parsers are parameters.
\<close>

section \<open>Requests, caches and errors\<close>

datatype web_proxy_error =
    NameNotFoundErr string | InvalidPayloadErr string | SecurityViolationErr security_error | SpoofedRecord
  | PeerUnreachableErr string | ReqwestErr string | OtherErr string

text \<open>\<open>rq_headers\<close> has lower-case names, and \<open>None\<close> for a value that is not text; \<open>rq_body\<close> are the frames of the
  body, each an error, data or something else.\<close>

datatype body_frame = FrameError string | FrameData bytes | FrameOther

record http_request =
  rq_method :: string
  rq_uri_host :: "string option"
  rq_uri_port :: "u16 option"
  rq_path :: "string option"
  rq_headers :: "(string \<times> string option) list"
  rq_body :: "body_frame list"

record 'c lru_ops =
  lru_get :: "'c \<Rightarrow> string \<Rightarrow> (bytes \<times> nat) option \<times> 'c"
  lru_put :: "'c \<Rightarrow> string \<Rightarrow> bytes \<times> nat \<Rightarrow> 'c"
  lru_clear :: "'c \<Rightarrow> 'c"

record 'c dns_cache =
  dc_cache :: 'c
  dc_ttl :: nat

text \<open>Ports the daemon itself listens on, and the configured gateways.\<close>

record proxy_config =
  proxy_port :: u16
  api_port :: u16
  nrs_port :: u16
  backend_port :: u16
  daemon_port :: u16
  pac_port :: u16
  ipfs_gateway :: string

record proxy_env = nrs_api_env +
  px_parse_ip :: "string \<Rightarrow> ip_addr option"
  px_parse_socket :: "string \<Rightarrow> ip_addr option"
  px_ip_text :: "ip_addr \<Rightarrow> string"
  px_parse_peer :: "string \<Rightarrow> string option"
  px_slice_host_route :: "bytes \<Rightarrow> host_route option"
  px_trim :: "string \<Rightarrow> string"
  px_percent_decode :: "string \<Rightarrow> string option"
  px_method_ok :: "string \<Rightarrow> bool"
  px_refusal_text :: "security_error \<Rightarrow> bytes"
  px_failure_text :: "string \<Rightarrow> bytes"
  PROXY_MAX_BODY_BYTES :: nat

definition dns_cache_get :: "('c, 'y) lru_ops_scheme \<Rightarrow> nat \<Rightarrow> 'c dns_cache \<Rightarrow> string \<Rightarrow> bytes option \<times> 'c dns_cache" where
  "dns_cache_get L now self name =
     (let (found, c) = lru_get L (dc_cache self) name; self = self\<lparr>dc_cache := c\<rparr>
      in (case found of Some (payload, stamp) \<Rightarrow> if now - stamp \<le> dc_ttl self then Some payload else None | None \<Rightarrow> None, self))"

definition dns_cache_insert :: "('c, 'y) lru_ops_scheme \<Rightarrow> nat \<Rightarrow> 'c dns_cache \<Rightarrow> string \<Rightarrow> bytes \<Rightarrow> 'c dns_cache" where
  "dns_cache_insert L now self name payload = self\<lparr>dc_cache := lru_put L (dc_cache self) name (payload, now)\<rparr>"

definition dns_cache_flush :: "('c, 'y) lru_ops_scheme \<Rightarrow> 'c dns_cache \<Rightarrow> 'c dns_cache" where
  "dns_cache_flush L self = self\<lparr>dc_cache := lru_clear L (dc_cache self)\<rparr>"

definition header_text :: "string \<Rightarrow> http_request \<Rightarrow> string option" where
  "header_text name req = Option.bind (map_of (rq_headers req) name) id"

definition request_path :: "http_request \<Rightarrow> string" where
  "request_path req = (case rq_path req of Some p \<Rightarrow> p | None \<Rightarrow> ''/'')"

section \<open>Resolving a name to a target (http.rs)\<close>

datatype hop = Target string | Alias string | NoTarget

text \<open>The loop over the entries of a label: the first usable one wins.\<close>

fun pick_entry :: "'x proxy_env_scheme \<Rightarrow> nrs_entry list \<Rightarrow> hop" where
  "pick_entry E [] = NoTarget"
| "pick_entry E (r # rs) =
     (case r of
        A ip \<Rightarrow> Target (px_ip_text E (V4 ip))
      | AAAA ip \<Rightarrow> Target (px_ip_text E (V6 ip))
      | PeerId p \<Rightarrow> Target p
      | CNAME t \<Rightarrow> Alias t
      | IPFS cid \<Rightarrow> Target (''ipfs://'' @ cid)
      | _ \<Rightarrow> pick_entry E rs)"

definition proxy_subname :: "string \<Rightarrow> string \<Rightarrow> string" where
  "proxy_subname current apex =
     (let sub = (if current = apex then ''@''
                 else trim_end_matches ''.'' (trim_end_matches (''.'' @ apex) current))
      in if sub = [] then ''@'' else sub)"

text \<open>The record of an apex name, from the cache or the network; it is cached before it is checked.\<close>

definition fetch_payload ::
  "network_client \<Rightarrow> ('c, 'y) lru_ops_scheme \<Rightarrow> nat \<Rightarrow> string \<Rightarrow> 'c dns_cache \<Rightarrow> (web_proxy_error, bytes) result \<times> 'c dns_cache" where
  "fetch_payload C L now apex cache =
     (case dns_cache_get L now cache apex of
        (Some payload, cache) \<Rightarrow> (Ok payload, cache)
      | (None, cache) \<Rightarrow>
          (case resolve_redundant_payload C apex of
             Inl _ \<Rightarrow> (Err (NameNotFoundErr apex), cache)
           | Inr b \<Rightarrow> (Ok b, dns_cache_insert L now cache apex b)))"

definition payload_hop ::
  "'x proxy_env_scheme \<Rightarrow> 'z zone_env_scheme \<Rightarrow> string \<Rightarrow> string \<Rightarrow> bytes \<Rightarrow> (web_proxy_error, hop) result" where
  "payload_hop E Z current apex payload =
     and_then (ok_or (InvalidPayloadErr ''Failed to deserialize NameEnvelope JSON from DHT'') (from_slice_envelope E payload)) (\<lambda>record.
     reject_if (\<not> dev_mode E \<and> is_err (envelope_verify_signature E record (NETWORK_SALT E))) SpoofedRecord
    (and_then (map_err (\<lambda>_. InvalidPayloadErr ''Invalid NrsZone payload'') (zone_parse_payload Z (env_embedded_nrs record))) (\<lambda>zone.
     case map_of zone (proxy_subname current apex) of
       None \<Rightarrow> Err (NameNotFoundErr (proxy_subname current apex))
     | Some records \<Rightarrow> Ok (pick_entry E records))))"

datatype resolved = ResolvedTarget string | ResolvedWeb2 string

text \<open>\<open>while recursion_count < 10\<close>; the first argument counts the rounds that are left.\<close>

fun resolve_target ::
  "nat \<Rightarrow> 'x proxy_env_scheme \<Rightarrow> 'z zone_env_scheme \<Rightarrow> network_client \<Rightarrow> ('c, 'y) lru_ops_scheme \<Rightarrow> nat \<Rightarrow> string \<Rightarrow> 'c dns_cache
     \<Rightarrow> (web_proxy_error, resolved) result \<times> 'c dns_cache" where
  "resolve_target 0 E Z C L now current cache = (Ok (ResolvedTarget []), cache)"
| "resolve_target (Suc n) E Z C L now current cache =
     (let apex = extract_apex_name E current in
      case fetch_payload C L now apex cache of
        (Inl e, cache) \<Rightarrow> (Err e, cache)
      | (Inr payload, cache) \<Rightarrow>
          (case payload_hop E Z current apex payload of
             Inl e \<Rightarrow> (Err e, cache)
           | Inr (Target t) \<Rightarrow> (Ok (ResolvedTarget t), cache)
           | Inr (Alias t) \<Rightarrow>
               if ends_with t (NSP_SUFFIX E) then resolve_target n E Z C L now t cache
               else (Ok (ResolvedWeb2 t), cache)
           | Inr NoTarget \<Rightarrow> (Ok (ResolvedTarget []), cache)))"

datatype route = RouteIpfs string | RouteIp string | RoutePeer string | RouteWeb2 string

definition proxy_route ::
  "'x proxy_env_scheme \<Rightarrow> 'z zone_env_scheme \<Rightarrow> network_client \<Rightarrow> ('c, 'y) lru_ops_scheme \<Rightarrow> nat \<Rightarrow> string \<Rightarrow> 'c dns_cache
     \<Rightarrow> (web_proxy_error, route) result \<times> 'c dns_cache" where
  "proxy_route E Z C L now name cache =
     (case resolve_target 10 E Z C L now name cache of
        (Inl e, cache) \<Rightarrow> (Err e, cache)
      | (Inr (ResolvedWeb2 t), cache) \<Rightarrow> (Ok (RouteWeb2 t), cache)
      | (Inr (ResolvedTarget t), cache) \<Rightarrow>
          (if t = [] then Err (NameNotFoundErr name)
           else if starts_with t ''ipfs://'' then Ok (RouteIpfs (trim_start_matches ''ipfs://'' t))
           else if px_parse_ip E t \<noteq> None \<or> px_parse_socket E t \<noteq> None then Ok (RouteIp t)
           else case px_parse_peer E t of Some p \<Rightarrow> Ok (RoutePeer p) | None \<Rightarrow> Err (InvalidPayloadErr ''Unrecognized target format''),
           cache))"

section \<open>Forwarding to an address (route\_ip.rs)\<close>

text \<open>What is sent to a backend, with the address that is connected to.\<close>

record backend_request =
  be_scheme :: string
  be_ip :: ip_addr
  be_port :: u16
  be_path :: string
  be_method :: string
  be_headers :: "(string \<times> string option) list"
  be_body :: bytes

text \<open>\<open>str::parse::<u16>\<close>\<close>

definition parse_u16 :: "string \<Rightarrow> u16 option" where
  "parse_u16 s =
     (let digits = (case s of [] \<Rightarrow> [] | c # rest \<Rightarrow> if c = CHR ''+'' then rest else s);
          n = foldl (\<lambda>a c. a * 10 + (code c - 48)) 0 digits
      in if digits = [] \<or> \<not> list_all is_ascii_digit digits \<or> 65535 < n then None else Some (of_nat n))"

definition original_port :: "http_request \<Rightarrow> u16" where
  "original_port req =
     (case rq_uri_port req of
        Some p \<Rightarrow> p
      | None \<Rightarrow>
          (case header_text ''host'' req of
             None \<Rightarrow> 80
           | Some h \<Rightarrow>
               (case split_on CHR '':'' h of
                  _ # p # _ \<Rightarrow> (case parse_u16 p of Some n \<Rightarrow> n | None \<Rightarrow> 80)
                | _ \<Rightarrow> 80)))"

definition ip_is_loopback :: "ip_addr \<Rightarrow> bool" where
  "ip_is_loopback ip = (case ip of V4 v \<Rightarrow> v4_is_loopback v | V6 v \<Rightarrow> v6_is_loopback v)"

definition ip_is_unspecified :: "ip_addr \<Rightarrow> bool" where
  "ip_is_unspecified ip = (case ip of V4 v \<Rightarrow> v4_is_unspecified v | V6 v \<Rightarrow> v6_is_unspecified v)"

definition hop_by_hop :: "string list" where
  "hop_by_hop = [''connection'', ''keep-alive'', ''proxy-authenticate'', ''proxy-authorization'', ''te'', ''trailer'',
     ''transfer-encoding'', ''upgrade'', ''host'']"

text \<open>Frames that fail or carry no data are skipped; the limit is checked after every frame.\<close>

fun read_body :: "nat \<Rightarrow> bytes \<Rightarrow> body_frame list \<Rightarrow> (web_proxy_error, bytes) result" where
  "read_body limit body [] = Ok body"
| "read_body limit body (FrameData d # frames) =
     (if limit < length (body @ d) then Err (InvalidPayloadErr ''Blocked oversized proxy request body'')
      else read_body limit (body @ d) frames)"
| "read_body limit body (_ # frames) = read_body limit body frames"

definition forward_to_ip ::
  "'x proxy_env_scheme \<Rightarrow> proxy_config \<Rightarrow> string \<Rightarrow> http_request \<Rightarrow> string \<Rightarrow> string \<Rightarrow> (web_proxy_error, backend_request) result" where
  "forward_to_ip E cfg node_peer_id req name ip_str =
     and_then (case px_parse_ip E ip_str of
                 Some ip \<Rightarrow> Ok ip | None \<Rightarrow> ok_or (NameNotFoundErr name) (px_parse_socket E ip_str)) (\<lambda>ip.
     let original = original_port req;
         is_ssrf = (is_err (validate_ssrf_safe ip) \<or> ip_is_unspecified ip)
     in reject_if ((ip_is_loopback ip \<or> ip_is_unspecified ip)
          \<and> original \<in> {proxy_port cfg, api_port cfg, nrs_port cfg, backend_port cfg, daemon_port cfg, pac_port cfg}) (OtherErr ''Proxy Loop Detected'')
       (reject_if (is_ssrf \<and> \<not> dev_mode E)
          (SecurityViolationErr (if ip_is_unspecified ip then Unspecified
             else case validate_ssrf_safe ip of Inl e \<Rightarrow> e | Inr _ \<Rightarrow> Unspecified))
       (and_then (read_body (PROXY_MAX_BODY_BYTES E) [] (rq_body req)) (\<lambda>body.
        Ok \<lparr>be_scheme = (if is_ssrf then ''http'' else ''https''), be_ip = ip,
             be_port = (if \<not> is_ssrf \<and> original = 80 then 443 else original), be_path = request_path req, be_method = rq_method req,
             be_headers = filter (\<lambda>(n, _). n \<notin> set hop_by_hop) (rq_headers req)
               @ [(''host'', Some name), (''x-kinetic-loop-protect'', Some node_peer_id)],
             be_body = body\<rparr>))))"

text \<open>The headers of the backend's answer that reach the browser.\<close>

definition ip_response_headers :: "(string \<times> string option) list \<Rightarrow> (string \<times> string option) list" where
  "ip_response_headers hs = filter (\<lambda>(n, _). n \<notin> set (hop_by_hop @ [''strict-transport-security''])) hs"

section \<open>Forwarding to a Web2 host (external\_http.rs)\<close>

definition clean_target_domain :: "string \<Rightarrow> string" where
  "clean_target_domain target = (case split_on CHR '':'' target of d # _ \<Rightarrow> d | [] \<Rightarrow> target)"

text \<open>\<open>str::replace\<close>\<close>

fun replace_from :: "nat \<Rightarrow> string \<Rightarrow> string \<Rightarrow> string \<Rightarrow> string" where
  "replace_from skip p to [] = []"
| "replace_from (Suc skip) p to (c # s) = replace_from skip p to s"
| "replace_from 0 p to (c # s) =
     (if starts_with (c # s) p then to @ replace_from (length p - 1) p to s else c # replace_from 0 p to s)"

definition str_replace :: "string \<Rightarrow> string \<Rightarrow> string \<Rightarrow> string" where
  "str_replace s p to = (if p = [] then to @ concat (map (\<lambda>c. c # to) s) else replace_from 0 p to s)"

definition rewrite_location_header :: "string \<Rightarrow> string \<Rightarrow> string \<Rightarrow> string option" where
  "rewrite_location_header loc target original_host =
     (if contains_str loc target then Some (str_replace loc target original_host) else None)"

text \<open>The request to the host, at the first address it resolves to; no body is attached.\<close>

definition forward_to_web2_backend ::
  "(string \<Rightarrow> (string, ip_addr list) result) \<Rightarrow> http_request \<Rightarrow> string \<Rightarrow> (web_proxy_error, backend_request) result" where
  "forward_to_web2_backend lookup_host req target_domain =
     (let target = clean_target_domain target_domain in
      and_then (map_err (\<lambda>_. NameNotFoundErr target) (lookup_host (target @ '':443''))) (\<lambda>addrs.
      and_then (case addrs of [] \<Rightarrow> Err (NameNotFoundErr target) | ip # _ \<Rightarrow> Ok ip) (\<lambda>ip.
      reject_if (is_err (validate_ssrf_safe ip) \<or> ip_is_unspecified ip)
        (SecurityViolationErr (if ip_is_unspecified ip then Unspecified
           else case validate_ssrf_safe ip of Inl e \<Rightarrow> e | Inr _ \<Rightarrow> Unspecified))
     (Ok \<lparr>be_scheme = ''https'', be_ip = ip, be_port = 443, be_path = request_path req, be_method = rq_method req,
           be_headers = filter (\<lambda>(n, _). n \<noteq> ''host'') (rq_headers req) @ [(''host'', Some target)], be_body = []\<rparr>))))"

definition web2_response_headers ::
  "(string \<Rightarrow> bool) \<Rightarrow> string \<Rightarrow> string \<Rightarrow> (string \<times> string option) list \<Rightarrow> (string \<times> string option) list" where
  "web2_response_headers value_ok target original_host hs =
     map (\<lambda>(n, v). (n, if n = ''location'' then
            (case Option.bind v (\<lambda>l. rewrite_location_header l target original_host) of
               Some l \<Rightarrow> if value_ok l then Some l else v | None \<Rightarrow> v) else v))
       (filter (\<lambda>(n, _). n \<noteq> ''strict-transport-security'') hs)"

section \<open>Forwarding to an IPFS gateway (route\_ipfs.rs)\<close>

definition gateways :: "'x proxy_env_scheme \<Rightarrow> proxy_config \<Rightarrow> string list" where
  "gateways E cfg = filter (\<lambda>s. s \<noteq> []) (map (\<lambda>s. trim_end_matches ''/'' (px_trim E s)) (split_on CHR '','' (ipfs_gateway cfg)))"

definition ipfs_url :: "string \<Rightarrow> string \<Rightarrow> string \<Rightarrow> string" where
  "ipfs_url gateway cid path = (if path = [] then gateway @ ''/'' @ cid else gateway @ ''/'' @ cid @ ''/'' @ path)"

text \<open>The gateways in turn: \<open>get\<close> gives the answer to a URL, a status or a failure.\<close>

fun try_gateways :: "(string \<Rightarrow> (string, nat) result) \<Rightarrow> string \<Rightarrow> string \<Rightarrow> string list \<Rightarrow> (web_proxy_error, string \<times> nat) result" where
  "try_gateways get cid path [] = Err (PeerUnreachableErr ''All gateways failed'')"
| "try_gateways get cid path (g # gs) =
     (case get (ipfs_url g cid path) of
        Inl _ \<Rightarrow> try_gateways get cid path gs
      | Inr status \<Rightarrow> if 500 \<le> status \<and> status < 600 \<or> status = 404 then try_gateways get cid path gs
                      else Ok (ipfs_url g cid path, status))"

text \<open>\<open>HeaderMap::insert\<close> replaces earlier values of the header, in their place.\<close>

fun header_insert :: "string \<Rightarrow> string option \<Rightarrow> (string \<times> string option) list \<Rightarrow> (string \<times> string option) list" where
  "header_insert n v [] = [(n, v)]"
| "header_insert n v ((m, w) # hs) = (if m = n then (n, v) # hs else (m, w) # header_insert n v hs)"

definition ipfs_request_headers :: "(string \<times> string option) list \<Rightarrow> (string \<times> string option) list" where
  "ipfs_request_headers hs = foldl (\<lambda>acc (n, v). if n = ''host'' then acc else header_insert n v acc) [] hs"

definition forward_to_ipfs ::
  "'x proxy_env_scheme \<Rightarrow> proxy_config \<Rightarrow> (string \<Rightarrow> (string \<times> string option) list \<Rightarrow> bytes \<Rightarrow> (string, nat) result) \<Rightarrow> http_request
     \<Rightarrow> string \<Rightarrow> (web_proxy_error, string \<times> nat) result" where
  "forward_to_ipfs E cfg get req cid =
     and_then (read_body (PROXY_MAX_BODY_BYTES E) [] (rq_body req)) (\<lambda>body.
     reject_if (gateways E cfg = []) (OtherErr ''No IPFS gateways configured'')
    (try_gateways (\<lambda>url. get url (ipfs_request_headers (rq_headers req)) body) cid
       (trim_start_matches ''/'' (request_path req)) (gateways E cfg)))"

definition ipfs_response_headers :: "(string \<times> string option) list \<Rightarrow> (string \<times> string option) list" where
  "ipfs_response_headers hs = filter (\<lambda>(n, _). n \<noteq> ''strict-transport-security'') hs"

section \<open>Forwarding to a peer (route\_p2p.rs)\<close>

definition resolve_host_routing_record ::
  "'x proxy_env_scheme \<Rightarrow> network_client \<Rightarrow> string \<Rightarrow> (unit, host_route option) result" where
  "resolve_host_routing_record E C hid =
     (case cl_current_kyn C of
        Answered current \<Rightarrow>
          (case resolve_redundant_payload C (''host_route_'' @ hid) of
             Inr b \<Rightarrow>
               and_then (ok_or () (px_slice_host_route E b)) (\<lambda>record.
               and_then (map_err (\<lambda>_. ()) (verify_host_routing_record E record current)) (\<lambda>_. Ok (Some record)))
           | Inl (ResNotFound _ _) \<Rightarrow> Ok None
           | Inl _ \<Rightarrow> Err ())
      | _ \<Rightarrow> Err ())"

definition peer_target :: "'x proxy_env_scheme \<Rightarrow> network_client \<Rightarrow> string \<Rightarrow> string" where
  "peer_target E C peer =
     (case resolve_host_routing_record E C peer of
        Inr (Some record) \<Rightarrow> (case px_parse_peer E (current_peer_id record) of Some p \<Rightarrow> p | None \<Rightarrow> peer)
      | _ \<Rightarrow> peer)"

definition p2p_stripped :: "string list" where
  "p2p_stripped = [''authorization'', ''cookie'', ''x-api-key'', ''proxy-authorization'', ''connection'', ''keep-alive'', ''te'',
     ''trailer'', ''transfer-encoding'', ''upgrade'']"

fun read_body_strict :: "bytes \<Rightarrow> body_frame list \<Rightarrow> (web_proxy_error, bytes) result" where
  "read_body_strict body [] = Ok body"
| "read_body_strict body (FrameError e # frames) = Err (InvalidPayloadErr ''Failed to read P2P request body stream'')"
| "read_body_strict body (FrameOther # frames) = read_body_strict body frames"
| "read_body_strict body (FrameData d # frames) =
     (if 1048576 < length (body @ d) then Err (InvalidPayloadErr ''Blocked P2P proxy request payload exceeding 1MB Libp2p limit'')
      else read_body_strict (body @ d) frames)"

definition forward_to_p2p ::
  "'x proxy_env_scheme \<Rightarrow> network_client \<Rightarrow> http_request \<Rightarrow> string \<Rightarrow> string \<Rightarrow> (web_proxy_error, string \<times> proxy_request) result" where
  "forward_to_p2p E C req name peer =
     and_then (read_body_strict [] (rq_body req)) (\<lambda>body.
     Ok (peer_target E C peer,
         \<lparr>pr_method = rq_method req, pr_path = request_path req,
          pr_headers = List.map_filter (\<lambda>(n, v). if n \<notin> set p2p_stripped \<and> n \<noteq> ''host'' then map_option (Pair n) v else None)
            (rq_headers req) @ [(''host'', name)],
          pr_body = body\<rparr>))"

definition p2p_response_headers :: "'x crypto_scheme \<Rightarrow> (string \<times> string) list \<Rightarrow> (string \<times> string) list" where
  "p2p_response_headers E hs =
     filter (\<lambda>(n, _). lower E n \<notin> set [''strict-transport-security'', ''public-key-pins'', ''connection'', ''keep-alive'', ''te'',
       ''trailer'', ''transfer-encoding'', ''upgrade'']) hs"

section \<open>Dispatch (http.rs, tunnel.rs)\<close>

datatype proxied = ViaIp backend_request | ViaWeb2 backend_request | ViaIpfs string nat | ViaPeer string proxy_request

text \<open>The outside world of a request: the resolver, the gateways, and the time in seconds.\<close>

record outside =
  os_lookup :: "string \<Rightarrow> (string, ip_addr list) result"
  os_gateway :: "string \<Rightarrow> (string \<times> string option) list \<Rightarrow> bytes \<Rightarrow> (string, nat) result"
  os_now :: nat

definition forward_to_backend_direct ::
  "'x proxy_env_scheme \<Rightarrow> 'z zone_env_scheme \<Rightarrow> network_client \<Rightarrow> ('c, 'y) lru_ops_scheme \<Rightarrow> outside \<Rightarrow> proxy_config \<Rightarrow> string
     \<Rightarrow> http_request \<Rightarrow> string \<Rightarrow> 'c dns_cache \<Rightarrow> (web_proxy_error, proxied) result \<times> 'c dns_cache" where
  "forward_to_backend_direct E Z C L W cfg node_peer_id req name cache =
     (let (r, cache) = proxy_route E Z C L (os_now W) name cache
      in (and_then r (\<lambda>target.
          case target of
            RouteWeb2 t \<Rightarrow> and_then (forward_to_web2_backend (os_lookup W) req t) (\<lambda>b. Ok (ViaWeb2 b))
          | RouteIpfs cid \<Rightarrow> and_then (forward_to_ipfs E cfg (os_gateway W) req cid) (\<lambda>(url, status). Ok (ViaIpfs url status))
          | RouteIp t \<Rightarrow> and_then (forward_to_ip E cfg node_peer_id req name t) (\<lambda>b. Ok (ViaIp b))
          | RoutePeer p \<Rightarrow> and_then (forward_to_p2p E C req name p) (\<lambda>(peer, q). Ok (ViaPeer peer q))), cache))"

definition error_status :: "web_proxy_error \<Rightarrow> nat" where
  "error_status e =
     (case e of SecurityViolationErr _ \<Rightarrow> 403 | SpoofedRecord \<Rightarrow> 403 | PeerUnreachableErr _ \<Rightarrow> 504 | NameNotFoundErr _ \<Rightarrow> 404 | _ \<Rightarrow> 502)"

datatype proxy_answer = Status nat | Tunnel string string | Proxied proxied

definition handle_proxy_request ::
  "'x proxy_env_scheme \<Rightarrow> 'z zone_env_scheme \<Rightarrow> network_client \<Rightarrow> ('c, 'y) lru_ops_scheme \<Rightarrow> outside \<Rightarrow> proxy_config \<Rightarrow> string
     \<Rightarrow> http_request \<Rightarrow> 'c dns_cache \<Rightarrow> proxy_answer \<times> 'c dns_cache" where
  "handle_proxy_request E Z C L W cfg node_peer_id req cache =
     (if header_text ''x-kinetic-loop-protect'' req = Some node_peer_id then (Status 508, cache)
      else if rq_method req = ''CONNECT'' then
        let raw_host = (case rq_uri_host req of Some h \<Rightarrow> h | None \<Rightarrow> []); full_name = normalize_name E raw_host
        in (if ends_with full_name (NSP_SUFFIX E) then Tunnel raw_host full_name else Status 403, cache)
      else
        let host = (case header_text ''host'' req of Some h \<Rightarrow> clean_target_domain h | None \<Rightarrow> []);
            host_name = normalize_name E host
        in if \<not> ends_with host_name (NSP_SUFFIX E) then (Status 502, cache)
           else case forward_to_backend_direct E Z C L W cfg node_peer_id req host_name cache of
             (Inr p, cache) \<Rightarrow> (Proxied p, cache)
           | (Inl e, cache) \<Rightarrow> (Status (error_status e), cache))"

text \<open>A request inside a tunnel, once the TLS handshake is done.\<close>

definition handle_tunnel_request ::
  "'x proxy_env_scheme \<Rightarrow> 'z zone_env_scheme \<Rightarrow> network_client \<Rightarrow> ('c, 'y) lru_ops_scheme \<Rightarrow> outside \<Rightarrow> proxy_config \<Rightarrow> string
     \<Rightarrow> string \<Rightarrow> http_request \<Rightarrow> 'c dns_cache \<Rightarrow> proxy_answer \<times> 'c dns_cache" where
  "handle_tunnel_request E Z C L W cfg node_peer_id full_name req cache =
     (case forward_to_backend_direct E Z C L W cfg node_peer_id req full_name cache of
        (Inr p, cache) \<Rightarrow> (Proxied p, cache)
      | (Inl _, cache) \<Rightarrow> (Status 502, cache))"

section \<open>Requests of peers (p2p.rs, kinetic-host/src/proxy.rs)\<close>

text \<open>The local web server: method, URL, headers and body give an error or a status, headers and the chunks of the
  body, of which some may fail.\<close>

type_synonym web_server =
  "string \<Rightarrow> string \<Rightarrow> (string \<times> string) list \<Rightarrow> bytes \<Rightarrow> (string, u16 \<times> (string \<times> string option) list \<times> bytes option list) result"

definition refusal :: "'x proxy_env_scheme \<Rightarrow> u16 \<Rightarrow> security_error \<Rightarrow> proxy_response" where
  "refusal E status err = \<lparr>pr_status = status, pr_res_headers = [], pr_res_body = px_refusal_text E err\<rparr>"

definition path_refused :: "'x proxy_env_scheme \<Rightarrow> string \<Rightarrow> bool" where
  "path_refused E path =
     (let decoded = (case px_percent_decode E path of Some d \<Rightarrow> d | None \<Rightarrow> path)
      in contains_str decoded ''..'' \<or> \<not> starts_with decoded ''/'')"

fun collect_response :: "'x proxy_env_scheme \<Rightarrow> u16 \<Rightarrow> bytes \<Rightarrow> bytes option list \<Rightarrow> u16 \<times> bytes" where
  "collect_response E status body [] = (status, body)"
| "collect_response E status body (None # chunks) = collect_response E status body chunks"
| "collect_response E status body (Some c # chunks) =
     (if PROXY_MAX_BODY_BYTES E < length (body @ c) then (502, px_refusal_text E BackendResponseTooLarge)
      else collect_response E status (body @ c) chunks)"

text \<open>The request that is sent to the web server, and its answer for the peer; \<open>dropped\<close> are the response headers
  that are not passed on.\<close>

definition send_local ::
  "'x proxy_env_scheme \<Rightarrow> web_server \<Rightarrow> string list \<Rightarrow> string \<Rightarrow> string \<Rightarrow> string \<Rightarrow> proxy_request \<Rightarrow> proxy_response" where
  "send_local E server dropped meth host port req =
     (case server meth (''http://'' @ host @ '':'' @ port @ pr_path req)
             (filter (\<lambda>(k, _). lower E k \<noteq> ''host'') (pr_headers req) @ [(''Host'', host @ '':'' @ port)]) (pr_body req) of
        Inr (status, hs, chunks) \<Rightarrow>
          (let (status, body) = collect_response E status [] chunks
           in \<lparr>pr_status = status,
               pr_res_headers = List.map_filter (\<lambda>(k, v). if k \<in> set dropped then None else map_option (Pair k) v) hs,
               pr_res_body = body\<rparr>)
      | Inl e \<Rightarrow> \<lparr>pr_status = 502, pr_res_headers = [], pr_res_body = px_failure_text E e\<rparr>)"

text \<open>The daemon refuses unknown methods; the host sends them as \<open>GET\<close>.\<close>

definition handle_incoming_proxy_request :: "'x proxy_env_scheme \<Rightarrow> web_server \<Rightarrow> string \<Rightarrow> string \<Rightarrow> proxy_request \<Rightarrow> proxy_response" where
  "handle_incoming_proxy_request E server bind_ip port req =
     (if path_refused E (pr_path req) then refusal E 400 PathTraversalAttempt
      else if PROXY_MAX_BODY_BYTES E < length (pr_body req) then refusal E 413 SecPayloadTooLarge
      else if \<not> px_method_ok E (pr_method req) then refusal E 400 InvalidMethod
      else send_local E server [] (pr_method req) bind_ip port req)"

definition forward_request :: "'x proxy_env_scheme \<Rightarrow> web_server \<Rightarrow> string \<Rightarrow> string \<Rightarrow> proxy_request \<Rightarrow> proxy_response" where
  "forward_request E server backend_host port req =
     send_local E server [''content-encoding'', ''transfer-encoding'', ''content-length'', ''connection'', ''keep-alive'', ''upgrade'']
       (if px_method_ok E (pr_method req) then pr_method req else ''GET'') backend_host port req"

definition host_incoming_proxy_request :: "'x proxy_env_scheme \<Rightarrow> web_server \<Rightarrow> string \<Rightarrow> string \<Rightarrow> proxy_request \<Rightarrow> proxy_response" where
  "host_incoming_proxy_request E server backend_host port req =
     (if path_refused E (pr_path req) then refusal E 400 PathTraversalAttempt
      else if PROXY_MAX_BODY_BYTES E < length (pr_body req) then refusal E 413 SecPayloadTooLarge
      else forward_request E server backend_host port req)"

section \<open>Where requests go\<close>

text \<open>The entry of a zone a route was taken from.\<close>

definition entry_route :: "'x proxy_env_scheme \<Rightarrow> nrs_entry \<Rightarrow> route \<Rightarrow> bool" where
  "entry_route E entry r \<longleftrightarrow>
     (case r of
        RouteWeb2 t \<Rightarrow> entry = CNAME t \<and> \<not> ends_with t (NSP_SUFFIX E)
      | RouteIpfs cid \<Rightarrow> (\<exists>t. pick_entry E [entry] = Target t \<and> cid = trim_start_matches ''ipfs://'' t)
      | RouteIp t \<Rightarrow> pick_entry E [entry] = Target t
      | RoutePeer p \<Rightarrow> (\<exists>t. pick_entry E [entry] = Target t \<and> px_parse_peer E t = Some p))"

text \<open>What a signed record says about a label.\<close>

definition signed_entry :: "'x proxy_env_scheme \<Rightarrow> 'z zone_env_scheme \<Rightarrow> bytes \<Rightarrow> nrs_entry \<Rightarrow> bool" where
  "signed_entry E Z payload entry \<longleftrightarrow> (\<exists>record zone label entries. from_slice_envelope E payload = Some record
     \<and> envelope_verify_signature E record (NETWORK_SALT E) = Ok () \<and> zone_parse_payload Z (env_embedded_nrs record) = Ok zone
     \<and> map_of zone label = Some entries \<and> entry \<in> set entries)"

lemma pick_entry_elim:
  "pick_entry E rs = h \<Longrightarrow> h \<noteq> NoTarget \<Longrightarrow> \<exists>r\<in>set rs. pick_entry E [r] = h"
  by (induction rs) (auto split: nrs_entry.splits)

lemma pick_alias: "pick_entry E [r] = Alias t \<longleftrightarrow> r = CNAME t"
  by (cases r) simp_all

lemma payload_hop_signed:
  assumes "payload_hop E Z current apex payload = Ok h" and "\<not> dev_mode E" and "h \<noteq> NoTarget"
  shows "\<exists>entry. signed_entry E Z payload entry \<and> pick_entry E [entry] = h"
proof -
  obtain rec zone entries where *: "from_slice_envelope E payload = Some rec"
    "envelope_verify_signature E rec (NETWORK_SALT E) = Ok ()" "zone_parse_payload Z (env_embedded_nrs rec) = Ok zone"
    "map_of zone (proxy_subname current apex) = Some entries" "pick_entry E entries = h"
    using assms(1,2) unfolding payload_hop_def by (auto simp: result_simps is_ok_iff_Ok split: option.splits)
  with pick_entry_elim [OF *(5) assms(3)] show ?thesis unfolding signed_entry_def by blast
qed

lemma resolve_target_signed:
  assumes "resolve_target n E Z C L now current cache = (Ok r, cache')" and "\<not> dev_mode E" and "r \<noteq> ResolvedTarget []"
  shows "\<exists>payload entry. signed_entry E Z payload entry
    \<and> (case r of ResolvedTarget t \<Rightarrow> pick_entry E [entry] = Target t
                | ResolvedWeb2 t \<Rightarrow> entry = CNAME t \<and> \<not> ends_with t (NSP_SUFFIX E))"
  using assms
proof (induction n arbitrary: current cache)
  case (Suc n)
  let ?apex = "extract_apex_name E current"
  obtain payload c h where f: "fetch_payload C L now ?apex cache = (Ok payload, c)" "payload_hop E Z current ?apex payload = Ok h"
    using Suc.prems(1) by (auto simp: Let_def split: prod.splits sum.splits)
  show ?case
  proof (cases h)
    case (Target t)
    then show ?thesis using Suc.prems f payload_hop_signed [OF f(2) Suc.prems(2)] by (auto simp: Let_def)
  next
    case (Alias t)
    show ?thesis
    proof (cases "ends_with t (NSP_SUFFIX E)")
      case True
      then show ?thesis using Suc.IH [of t c] Suc.prems f Alias by (simp add: Let_def)
    next
      case False
      obtain entry where "signed_entry E Z payload entry" "pick_entry E [entry] = Alias t"
        using payload_hop_signed [OF f(2) Suc.prems(2)] Alias by blast
      moreover from this(2) have "entry = CNAME t" by (simp only: pick_alias)
      moreover have "r = ResolvedWeb2 t" using False Suc.prems(1) f Alias by (simp add: Let_def)
      ultimately show ?thesis using False by auto
    qed
  next
    case NoTarget
    then show ?thesis using Suc.prems f by (simp add: Let_def)
  qed
qed simp

lemma proxy_route_signed:
  assumes "proxy_route E Z C L now name cache = (Ok r, cache')" and "\<not> dev_mode E"
  shows "\<exists>payload entry. signed_entry E Z payload entry \<and> entry_route E entry r"
proof -
  obtain q where q: "resolve_target 10 E Z C L now name cache = (Ok q, cache')"
    using assms(1) by (auto simp: proxy_route_def split: prod.splits sum.splits resolved.splits)
  show ?thesis
  proof (cases q)
    case (ResolvedTarget t)
    then have "t \<noteq> []" using assms(1) q by (auto simp: proxy_route_def)
    with resolve_target_signed [OF q assms(2)] ResolvedTarget obtain payload entry where
      "signed_entry E Z payload entry" "pick_entry E [entry] = Target t" by auto
    moreover have "entry_route E entry r"
      using assms(1) q ResolvedTarget calculation(2) by (auto simp: proxy_route_def entry_route_def split: if_splits option.splits)
    ultimately show ?thesis by blast
  next
    case (ResolvedWeb2 t)
    then show ?thesis
      using assms(1) q resolve_target_signed [OF q assms(2)] by (auto simp: proxy_route_def entry_route_def)
  qed
qed

text \<open>Where a request was sent, from the route.\<close>

lemma forward_direct_elim:
  assumes "forward_to_backend_direct E Z C L W cfg node req name cache = (Ok p, cache')"
  obtains (web2) t b where "proxy_route E Z C L (os_now W) name cache = (Ok (RouteWeb2 t), cache')"
      "forward_to_web2_backend (os_lookup W) req t = Ok b" "p = ViaWeb2 b"
  | (ipfs) cid url status where "proxy_route E Z C L (os_now W) name cache = (Ok (RouteIpfs cid), cache')"
      "forward_to_ipfs E cfg (os_gateway W) req cid = Ok (url, status)" "p = ViaIpfs url status"
  | (ip) t b where "proxy_route E Z C L (os_now W) name cache = (Ok (RouteIp t), cache')"
      "forward_to_ip E cfg node req name t = Ok b" "p = ViaIp b"
  | (peer) t q x where "proxy_route E Z C L (os_now W) name cache = (Ok (RoutePeer t), cache')"
      "forward_to_p2p E C req name t = Ok (x, q)" "p = ViaPeer x q"
proof -
  obtain r where r: "proxy_route E Z C L (os_now W) name cache = (Ok r, cache')"
    using assms by (auto simp: forward_to_backend_direct_def result_simps split: prod.splits)
  show thesis
    using assms r web2 ipfs ip peer
    by (cases r) (auto simp: forward_to_backend_direct_def result_simps split: prod.splits)
qed

lemma read_body_limit: "read_body limit body frames = Ok b \<Longrightarrow> length body \<le> limit \<Longrightarrow> length b \<le> limit"
  by (induction limit body frames rule: read_body.induct) (auto split: if_splits)

lemma read_body_strict_limit: "read_body_strict body frames = Ok b \<Longrightarrow> length body \<le> 1048576 \<Longrightarrow> length b \<le> 1048576"
  by (induction body frames rule: read_body_strict.induct) (auto split: if_splits)

lemma forward_to_ip_safe:
  assumes "forward_to_ip E cfg node req name t = Ok b" and "\<not> dev_mode E"
  shows "validate_ssrf_safe (be_ip b) = Ok () \<and> \<not> ip_is_unspecified (be_ip b) \<and> be_scheme b = ''https''
    \<and> length (be_body b) \<le> PROXY_MAX_BODY_BYTES E \<and> (px_parse_ip E t = Some (be_ip b) \<or> px_parse_socket E t = Some (be_ip b))"
  using assms read_body_limit [of "PROXY_MAX_BODY_BYTES E" "[]"]
  by (auto simp: forward_to_ip_def Let_def result_simps is_ok_iff_Ok split: option.splits)

lemma forward_to_web2_safe:
  assumes "forward_to_web2_backend lookup req t = Ok b"
  shows "validate_ssrf_safe (be_ip b) = Ok () \<and> \<not> ip_is_unspecified (be_ip b) \<and> be_scheme b = ''https'' \<and> be_port b = 443 \<and> be_body b = []
    \<and> (\<exists>ips. lookup (clean_target_domain t @ '':443'') = Ok (be_ip b # ips))"
proof -
  obtain addrs where addrs: "lookup (clean_target_domain t @ '':443'') = Ok addrs"
    using assms by (auto simp: forward_to_web2_backend_def Let_def result_simps)
  with assms show ?thesis
    by (cases addrs) (auto simp: forward_to_web2_backend_def Let_def result_simps is_ok_iff_Ok)
qed

lemma try_gateways_Ok:
  "try_gateways get cid path gs = Ok (url, status) \<Longrightarrow> \<exists>g\<in>set gs. url = ipfs_url g cid path"
  by (induction gs) (auto split: sum.splits if_splits)

lemma ipfs_url_prefix: "starts_with (ipfs_url g cid path) (g @ ''/'')"
  by (simp add: ipfs_url_def starts_with_def)

lemma forward_to_ipfs_gateway:
  assumes "forward_to_ipfs E cfg get req cid = Ok (url, status)"
  shows "\<exists>g\<in>set (gateways E cfg). url = ipfs_url g cid (trim_start_matches ''/'' (request_path req))"
proof -
  obtain body where "try_gateways (\<lambda>url. get url (ipfs_request_headers (rq_headers req)) body) cid (trim_start_matches ''/'' (request_path req)) (gateways E cfg) = Ok (url, status)"
    using assms by (auto simp: forward_to_ipfs_def result_simps)
  then show ?thesis by (rule try_gateways_Ok)
qed

lemma map_filter_names:
  "(k, w) \<in> set (List.map_filter (\<lambda>(n, v). if P n then map_option (Pair n) v else None) hs) \<Longrightarrow> P k"
  by (induction hs) (auto simp: map_filter_simps split: option.splits if_splits)

lemma forward_to_p2p_safe:
  assumes "forward_to_p2p E C req name t = Ok (x, q)"
  shows "x = peer_target E C t" and "length (pr_body q) \<le> 1048576" and "(k, w) \<in> set (pr_headers q) \<Longrightarrow> k \<notin> set p2p_stripped"
proof -
  obtain body where body: "read_body_strict [] (rq_body req) = Ok body"
    using assms by (auto simp: forward_to_p2p_def result_simps)
  show "x = peer_target E C t" using assms body by (simp add: forward_to_p2p_def)
  show "length (pr_body q) \<le> 1048576"
    using assms body read_body_strict_limit [OF body] by (auto simp: forward_to_p2p_def)
  assume "(k, w) \<in> set (pr_headers q)"
  moreover have "''host'' \<notin> set p2p_stripped" by (simp add: p2p_stripped_def)
  ultimately show "k \<notin> set p2p_stripped"
    using assms body map_filter_names [of k w "\<lambda>n. n \<notin> set p2p_stripped \<and> n \<noteq> ''host''" "rq_headers req"]
    by (auto simp: forward_to_p2p_def)
qed

text \<open>Requests of peers: what may reach the local web server. Both ends answer the same with any two servers that
  agree on these requests.\<close>

definition contained_request :: "'x proxy_env_scheme \<Rightarrow> string \<Rightarrow> string \<Rightarrow> string \<Rightarrow> string \<Rightarrow> (string \<times> string) list \<Rightarrow> bytes \<Rightarrow> bool" where
  "contained_request E host port meth url hs body \<longleftrightarrow>
     px_method_ok E meth \<and> (\<exists>path. url = ''http://'' @ host @ '':'' @ port @ path \<and> \<not> path_refused E path)
     \<and> (\<forall>(k, v)\<in>set hs. lower E k = ''host'' \<longrightarrow> v = host @ '':'' @ port) \<and> length body \<le> PROXY_MAX_BODY_BYTES E"

lemma send_local_contained:
  assumes "\<And>meth url hs body. contained_request E host port meth url hs body \<Longrightarrow> s1 meth url hs body = s2 meth url hs body"
    and "px_method_ok E meth" and "\<not> path_refused E (pr_path req)" and "length (pr_body req) \<le> PROXY_MAX_BODY_BYTES E"
  shows "send_local E s1 dropped meth host port req = send_local E s2 dropped meth host port req"
proof -
  have "contained_request E host port meth (''http://'' @ host @ '':'' @ port @ pr_path req)
      (filter (\<lambda>(k, _). lower E k \<noteq> ''host'') (pr_headers req) @ [(''Host'', host @ '':'' @ port)]) (pr_body req)"
    using assms(2,3,4) by (auto simp: contained_request_def)
  then show ?thesis unfolding send_local_def by (simp only: assms(1))
qed

lemma peer_requests_contained:
  assumes "\<And>meth url hs body. contained_request E host port meth url hs body \<Longrightarrow> s1 meth url hs body = s2 meth url hs body"
    and "px_method_ok E ''GET''"
  shows "handle_incoming_proxy_request E s1 host port req = handle_incoming_proxy_request E s2 host port req"
    and "host_incoming_proxy_request E s1 host port req = host_incoming_proxy_request E s2 host port req"
  using send_local_contained [of E host port s1 s2, OF assms(1)] assms(2)
  by (auto simp: handle_incoming_proxy_request_def host_incoming_proxy_request_def forward_request_def)

lemma collect_response_limit:
  assumes "length (px_refusal_text E BackendResponseTooLarge) \<le> PROXY_MAX_BODY_BYTES E"
  shows "length body \<le> PROXY_MAX_BODY_BYTES E \<Longrightarrow> length (snd (collect_response E status body chunks)) \<le> PROXY_MAX_BODY_BYTES E"
  using assms by (induction E status body chunks rule: collect_response.induct) auto

lemma peer_responses_bounded:
  assumes "\<And>e. length (px_refusal_text E e) \<le> PROXY_MAX_BODY_BYTES E" and "\<And>e. length (px_failure_text E e) \<le> PROXY_MAX_BODY_BYTES E"
  shows "length (pr_res_body (handle_incoming_proxy_request E server host port req)) \<le> PROXY_MAX_BODY_BYTES E"
    and "length (pr_res_body (host_incoming_proxy_request E server host port req)) \<le> PROXY_MAX_BODY_BYTES E"
proof -
  have "length (pr_res_body (send_local E server dropped meth host port req)) \<le> PROXY_MAX_BODY_BYTES E" for dropped meth
  proof (cases "server meth (''http://'' @ host @ '':'' @ port @ pr_path req)
      (filter (\<lambda>(k, _). lower E k \<noteq> ''host'') (pr_headers req) @ [(''Host'', host @ '':'' @ port)]) (pr_body req)")
    case (Inl e)
    then show ?thesis using assms(2) by (simp add: send_local_def)
  next
    case (Inr answer)
    then show ?thesis
      using collect_response_limit [of E "[]" "fst answer" "snd (snd answer)"] assms(1)
      by (auto simp: send_local_def split: prod.splits)
  qed
  then show "length (pr_res_body (handle_incoming_proxy_request E server host port req)) \<le> PROXY_MAX_BODY_BYTES E"
    and "length (pr_res_body (host_incoming_proxy_request E server host port req)) \<le> PROXY_MAX_BODY_BYTES E"
    using assms(1) by (auto simp: handle_incoming_proxy_request_def host_incoming_proxy_request_def forward_request_def refusal_def)
qed

section \<open>Correctness of the proxy\<close>

text \<open>C12. Outside of development mode the proxy never reaches into the local network: a request forwarded to an
  address or to a Web2 host, over plain HTTP or inside a tunnel, goes by HTTPS to an address that passes the SSRF
  filter and is not unspecified; a request to a peer carries no credentials and at most one megabyte, and a
  request to IPFS goes to a configured gateway.\<close>

theorem proxy_forwards_safely:
  assumes "forward_to_backend_direct E Z C L W cfg node req name cache = (Ok p, cache')" and "\<not> dev_mode E"
  shows "case p of
      ViaIp b \<Rightarrow> validate_ssrf_safe (be_ip b) = Ok () \<and> \<not> ip_is_unspecified (be_ip b) \<and> be_scheme b = ''https''
        \<and> length (be_body b) \<le> PROXY_MAX_BODY_BYTES E
    | ViaWeb2 b \<Rightarrow> validate_ssrf_safe (be_ip b) = Ok () \<and> \<not> ip_is_unspecified (be_ip b) \<and> be_scheme b = ''https'' \<and> be_port b = 443
    | ViaIpfs url status \<Rightarrow> (\<exists>g\<in>set (gateways E cfg). starts_with url (g @ ''/''))
    | ViaPeer x q \<Rightarrow> length (pr_body q) \<le> 1048576 \<and> fst ` set (pr_headers q) \<inter> set p2p_stripped = {}"
  using assms(1)
proof (cases rule: forward_direct_elim)
  case (ipfs cid url status)
  from forward_to_ipfs_gateway [OF ipfs(2)] obtain g where "g \<in> set (gateways E cfg)" "starts_with url (g @ ''/'')"
    using ipfs_url_prefix by metis
  then show ?thesis using ipfs(3) by auto
next
  case (peer t q x)
  then show ?thesis using forward_to_p2p_safe [OF peer(2)] by auto
qed (use assms(2) in \<open>auto dest: forward_to_ip_safe forward_to_web2_safe\<close>)


section \<open>A sample request\<close>

definition sample_proxy :: proxy_env where
  "sample_proxy = nrs_api_env.extend (sample_nrs sample_vec) (proxy_env.fields
     (\<lambda>s. if s = ''8.8.8.8'' then Some (V4 (Ipv4 8 8 8 8)) else None) (\<lambda>_. None) (\<lambda>_. ''8.8.8.8'') (\<lambda>_. None) (\<lambda>_. None)
     (\<lambda>s. s) Some (\<lambda>_. True) (\<lambda>_. []) (\<lambda>_. []) 5242880)"

lemmas sample_proxy_simps = sample_proxy_def nrs_api_env.defs proxy_env.defs sample_nrs_simps

definition sample_config :: proxy_config where
  "sample_config = \<lparr>proxy_port = 16000, api_port = 16001, nrs_port = 16002, backend_port = 8080, daemon_port = 16003, pac_port = 16004,
     ipfs_gateway = []\<rparr>"

definition sample_request :: http_request where
  "sample_request = \<lparr>rq_method = ''GET'', rq_uri_host = None, rq_uri_port = None, rq_path = Some ''/'',
     rq_headers = [(''host'', Some ''satoshi.kin'')], rq_body = []\<rparr>"

definition map_lru :: "(string \<Rightarrow> (bytes \<times> nat) option) lru_ops" where
  "map_lru = \<lparr>lru_get = (\<lambda>c k. (c k, c)), lru_put = (\<lambda>c k v. c(k \<mapsto> v)), lru_clear = (\<lambda>_ _. None)\<rparr>"

definition sample_outside :: outside where
  "sample_outside = \<lparr>os_lookup = \<lambda>_. Err [], os_gateway = \<lambda>_ _ _. Err [], os_now = 0\<rparr>"

abbreviation online_client :: network_client where
  "online_client \<equiv> sample_client\<lparr>cl_resolve := \<lambda>_. Answered (Ok [1])\<rparr>"

abbreviation empty_dns_cache :: "(string \<Rightarrow> (bytes \<times> nat) option) dns_cache" where
  "empty_dns_cache \<equiv> \<lparr>dc_cache = \<lambda>_. None, dc_ttl = 60\<rparr>"

lemma sample_proxy_apex: "extract_apex_name sample_proxy ''satoshi.kin'' = ''satoshi.kin''"
proof -
  have "names_ok sample_proxy" by (rule sample_names_ok) (simp_all add: sample_proxy_simps)
  moreover have "NSP_SUFFIX sample_proxy = ''.kin''" by (simp add: sample_proxy_simps)
  ultimately show ?thesis using extract_apex_in_suffix [of sample_proxy "''satoshi''"] satoshi_label by simp
qed

lemma sample_proxy_record:
  "from_slice_envelope sample_proxy [1] = Some (Standard sample_reveal)"
  "envelope_verify_signature sample_proxy (Standard sample_reveal) (NETWORK_SALT sample_proxy) = Ok ()"
  by (simp_all add: envelope_verify_signature_def reveal_verify_signature_def signed_by_def sample_proxy_simps sample_reveal_def result_simps)

lemma sample_proxy_fields: "\<not> dev_mode sample_proxy" "px_parse_ip sample_proxy ''8.8.8.8'' = Some (V4 (Ipv4 8 8 8 8))"
  "px_ip_text sample_proxy ip = ''8.8.8.8''" "PROXY_MAX_BODY_BYTES sample_proxy = 5242880"
  by (simp_all add: sample_proxy_simps)

lemma sample_proxy_route:
  "fst (proxy_route sample_proxy sample_dns online_client map_lru now ''satoshi.kin'' empty_dns_cache) = Ok (RouteIp ''8.8.8.8'')"
proof -
  have f: "fetch_payload online_client map_lru now ''satoshi.kin'' empty_dns_cache
      = (Ok [1], dns_cache_insert map_lru now empty_dns_cache ''satoshi.kin'' [1])"
    by (simp add: fetch_payload_def dns_cache_get_def map_lru_def resolve_redundant_payload_def resolve_reply_def)
  have "embedded_nrs sample_reveal = []" by (simp add: sample_reveal_def)
  then have "payload_hop sample_proxy sample_dns ''satoshi.kin'' ''satoshi.kin'' [1] = Ok (Target ''8.8.8.8'')"
    by (simp add: payload_hop_def sample_proxy_record sample_proxy_fields env_embedded_nrs_def sample_zone_parsed proxy_subname_def)
  with f have "resolve_target (Suc n) sample_proxy sample_dns online_client map_lru now ''satoshi.kin'' empty_dns_cache
      = (Ok (ResolvedTarget ''8.8.8.8''), dns_cache_insert map_lru now empty_dns_cache ''satoshi.kin'' [1])" for n
    by (simp add: sample_proxy_apex Let_def)
  from this [of 9] show ?thesis by (simp add: proxy_route_def sample_proxy_fields starts_with_def)
qed

lemma sample_forward:
  "\<exists>b c. forward_to_backend_direct sample_proxy sample_dns online_client map_lru sample_outside sample_config ''me'' sample_request
     ''satoshi.kin'' empty_dns_cache = (Ok (ViaIp b), c) \<and> be_ip b = V4 (Ipv4 8 8 8 8)"
proof -
  obtain c where c: "proxy_route sample_proxy sample_dns online_client map_lru (os_now sample_outside) ''satoshi.kin'' empty_dns_cache
      = (Ok (RouteIp ''8.8.8.8''), c)" using sample_proxy_route by (metis prod.collapse)
  have u: "\<not> ip_is_unspecified (V4 (Ipv4 8 8 8 8))" "\<not> ip_is_loopback (V4 (Ipv4 8 8 8 8))" by code_simp+
  have "\<exists>b. forward_to_ip sample_proxy sample_config ''me'' sample_request ''satoshi.kin'' ''8.8.8.8'' = Ok b \<and> be_ip b = V4 (Ipv4 8 8 8 8)"
    by (simp add: forward_to_ip_def sample_proxy_fields u public_resolver_safe Let_def sample_request_def)
  with c show ?thesis by (auto simp: forward_to_backend_direct_def)
qed

theorem proxy_forwards_safely_witness:
  "\<exists>b c. forward_to_backend_direct sample_proxy sample_dns online_client map_lru sample_outside sample_config ''me'' sample_request
     ''satoshi.kin'' empty_dns_cache = (Ok (ViaIp b), c) \<and> validate_ssrf_safe (be_ip b) = Ok () \<and> be_scheme b = ''https''"
proof -
  obtain b c where f: "forward_to_backend_direct sample_proxy sample_dns online_client map_lru sample_outside sample_config ''me''
      sample_request ''satoshi.kin'' empty_dns_cache = (Ok (ViaIp b), c)" using sample_forward by blast
  show ?thesis using proxy_forwards_safely [OF f sample_proxy_fields(1)] f by auto
qed


section \<open>Limits of the proxy\<close>

text \<open>The body of a request to a Web2 host is lost.\<close>

lemma web2_body_dropped: "forward_to_web2_backend lookup req t = Ok b \<Longrightarrow> be_body b = []"
  by (simp add: forward_to_web2_safe)

text \<open>The loop guard reads the first value of its header. A value the client sent is passed on in front of the
  daemon's own, so that the guard of the receiver does not see the latter.\<close>

lemma map_of_filter_names: "P k \<Longrightarrow> map_of (filter (\<lambda>(n, _). P n) hs) k = map_of hs k"
  by (induction hs) auto

lemma loop_guard_shadowed:
  assumes "forward_to_ip E cfg node req name t = Ok b" and "map_of (rq_headers req) ''x-kinetic-loop-protect'' = Some v"
  shows "map_of (be_headers b) ''x-kinetic-loop-protect'' = Some v"
proof -
  have "''x-kinetic-loop-protect'' \<notin> set hop_by_hop" by (simp add: hop_by_hop_def)
  then have "map_of (filter (\<lambda>(n, _). n \<notin> set hop_by_hop) (rq_headers req)) ''x-kinetic-loop-protect'' = Some v"
    using assms(2) by (simp only: map_of_filter_names [where P = "\<lambda>n. n \<notin> set hop_by_hop"] not_False_eq_True simp_thms)
  moreover have "be_headers b = filter (\<lambda>(n, _). n \<notin> set hop_by_hop) (rq_headers req)
      @ [(''host'', Some name), (''x-kinetic-loop-protect'', Some node)]"
    using assms(1) by (auto simp: forward_to_ip_def Let_def result_simps)
  ultimately show ?thesis by simp
qed

text \<open>Requests inside a tunnel do not pass through the router: the loop guard does not apply to them.\<close>

lemma tunnel_skips_loop_guard:
  assumes "header_text ''x-kinetic-loop-protect'' req = Some node"
  shows "fst (handle_proxy_request E Z C L W cfg node req cache) = Status 508"
    and "fst (handle_tunnel_request E Z C L W cfg node name req cache) \<noteq> Status 508"
  using assms by (auto simp: handle_proxy_request_def handle_tunnel_request_def split: prod.splits sum.splits)

text \<open>A host route is followed whatever host it is for.\<close>

lemma host_route_unbound:
  assumes "cl_current_kyn C = Answered now" and "resolve_redundant_payload C (''host_route_'' @ peer) = Ok b"
    and "px_slice_host_route E b = Some route" and "verify_host_routing_record E route now = Ok ()" and "host_id route \<noteq> peer"
    and "px_parse_peer E (current_peer_id route) = Some p"
  shows "peer_target E C peer = p"
  using assms by (simp add: peer_target_def resolve_host_routing_record_def)

text \<open>A path whose percent-encoding is not UTF-8 is checked as it was sent, with encoded dots and all.\<close>

lemma undecodable_path_passes:
  assumes "px_percent_decode E ''/%2e%2e/secret%ff'' = None"
  shows "\<not> path_refused E ''/%2e%2e/secret%ff''"
  using assms by (simp add: path_refused_def) code_simp

text \<open>The proxy does not know the wildcard label, which the DNS server answers for.\<close>

lemma wildcard_not_proxied:
  assumes "zone_parse_payload Z (env_embedded_nrs rec) = Ok zone" and "from_slice_envelope E payload = Some rec"
    and "envelope_verify_signature E rec (NETWORK_SALT E) = Ok ()" and "map_of zone (proxy_subname current apex) = None"
    and "map_of zone ''*'' = Some entries"
  shows "payload_hop E Z current apex payload = Err (NameNotFoundErr (proxy_subname current apex))"
    and "served_entries zone (proxy_subname current apex) = Some entries"
  using assms by (simp_all add: payload_hop_def served_entries_def)

end
