(* ===== verification/Spec2Isabelle.thy ===== *)
theory Spec2Isabelle
  imports Store_Properties Zone Resolution Challenge Event_Loop_Properties Nrs_Server Registration Proxy
begin

text \<open>
  A verification of the core of Kinetic, a peer-to-peer name system: names are registered by a
  commitment, a verifiable delay and a signed reveal, records live in a Kademlia table whose
  nodes verify what they store, and identities, zones and host routes hang off a name.

  \<^bold>\<open>The program.\<close> A node runs one event loop (\<open>kinetic-network/src/event_loop\<close>) that owns the libp2p
  swarm and the record store (\<open>kinetic-network/src/store\<close>). Clients send it commands; it opens
  queries, collects their results and answers. Records that arrive are decoded, verified in
  spawned work (signatures, beacon, commitment age, difficulty, delay proof) and committed when
  the verdict comes back. The rules rest on names (\<open>kinetic-core/src/types/names.rs\<close>), the
  difficulty curve (\<open>physics.rs\<close>), network time (\<open>kinetic-kyn\<close>), signed actions that halt and resume
  the network (\<open>kinetic-action\<close>), identity documents (\<open>kinetic-kid\<close>) and canonical signed bytes
  (\<open>kinetic-types\<close>); state is kept in a storage engine (\<open>kinetic-storage\<close>). Around the loop the daemon
  (\<open>kinetic-daemon\<close>) serves an authenticated API that publishes names, zones, heartbeats and identities
  through the client handle, keeps the time from gossip and a beacon client, and stores keys and
  identity documents in files (\<open>kinetic-local\<close>); a local DNS server answers for the names, and a local HTTP
  proxy forwards browser requests to what their zones point to.

  \<^bold>\<open>Theories, in the order of their dependence.\<close>
  \<^item> \<open>Prelude\<close>, \<open>Rust_Strings\<close>, \<open>Encoding\<close>: results with an error, machine integers as words, the
    string functions of Rust over UTF-8 bytes, integers to and from bytes.
  \<^item> \<open>Network_Config\<close>: the build-time constants and the third-party primitives (SHA-256, ML-DSA,
    BLS, Base64, hex) as fields of records that every definition takes as an argument \<open>E\<close>.
  \<^item> \<open>Kyn\<close>, \<open>Physics\<close>, \<open>Names\<close>: kyn arithmetic and the beacon; name difficulty and takeover decay;
    normalisation and validity of names.
  \<^item> \<open>Records\<close>, \<open>Signable\<close>: the record types and the bytes they sign. The locale \<open>signable\<close> is the
    contract of a signed record (tag, length-prefixed body), interpreted for each record type; it
    gives that signatures bind the content and are not reusable across types.
  \<^item> \<open>Kid\<close>, \<open>Zone\<close>, \<open>Action\<close>: identity documents and manifests; zones; halting and resuming, replay
    protection and the accounting of paused time, as a reachability proof over messages.
  \<^item> \<open>Vdf\<close>: the RSA delay function. The prover's block-wise long division and multi-exponentiation
    are proved equal to the quotient and power they compute; the search for the Fiat-Shamir prime
    is a \<open>partial_function\<close> and returns whenever a prime lies ahead of the start.
  \<^item> \<open>Storage\<close>: the log-structured browser engine. The locale \<open>storage_engine\<close> is the trait
    \<open>StorageEngine\<close> and \<open>total_storage_engine\<close> adds that writes succeed; both are interpreted on the
    engine, which refines a map and survives a reopening and a torn log.
  \<^item> \<open>Store_Verification\<close>, \<open>Store\<close>, \<open>Store_Properties\<close>: what a record must satisfy, the record store with
    its handlers, and what it guarantees (takeovers, updates, heartbeats, rate limit, pruning).
  \<^item> \<open>Nrs_Server\<close>: the local DNS server (\<open>kinetic-nrs\<close>): dispatch, fetching and checking of records, answers
    from a zone, the cache. Over every run from an empty cache the answers come from signed,
    authorised records and pass the address filter.
  \<^item> \<open>Net_Security\<close>, \<open>Challenge\<close>, \<open>Dns_Tree\<close>, \<open>Resolution\<close>: address filters, proof of work of peer
    identities, seed discovery (at most 20 lookups), choice among the records found.
  \<^item> \<open>Net_State\<close>, \<open>Event_Loop\<close>: the messages and the state of the event loop, and every handler.
  \<^item> \<open>Reactor\<close>, \<open>Verified_Commits\<close>, \<open>Event_Loop_Properties\<close>: the loop as a transition system \<open>net_step\<close> whose
    steps are commands, network events, loopback messages, spawned work, deferred store tasks and
    timers in any order; the invariants \<open>accounted\<close>, \<open>served\<close> and \<open>vetted\<close> over it and their consequences.

  \<^item> \<open>Time_Sync\<close>: the beacon client (\<open>client/beacon.rs\<close>), the gossip services of daemon, node and host, the
    heartbeat service and the action file (\<open>kinetic-local/src/action.rs\<close>): which time and which actions are
    taken over, and that an executed action survives a restart.
  \<^item> \<open>Api_Auth\<close>: tokens, roles and sessions of the daemon's API (\<open>api/mod.rs\<close>, \<open>api/auth.rs\<close>): a session never
    becomes an administrator, a created one is recognised and a revoked one refused.
  \<^item> \<open>Daemon_Nrs\<close>: the client handle's publishing and resolving calls and the name system and heartbeat
    handlers (\<open>api/nrs.rs\<close>, \<open>api/heartbeat.rs\<close>): exactly which reveals are published, that a published name
    resolves, who may sign, and which scope every handler asks for.
  \<^item> \<open>Kid_Manager\<close>: the identity files (\<open>kid_manager.rs\<close>) and their handlers (\<open>api/kid.rs\<close>). The directory is
    well-formed over every run; created documents and manifests are accepted by the store of
    \<open>Store_Verification\<close>, rotations and revocations never are.
  \<^item> \<open>Registration\<close>: the background tasks that register and renew a name (\<open>api/macro_api.rs\<close>) and the republisher
    (\<open>services/network.rs\<close>). A task is cut into parts where it waits; \<open>macro_run\<close> interleaves them with requests and
    other work. The table of tasks is bounded, and a registration composes \<open>Vdf\<close>, \<open>Records\<close>, \<open>Kid_Manager\<close> and
    \<open>Store_Verification\<close>: the reveal it builds meets every rule, but its published form is refused.
  \<^item> \<open>Proxy\<close>: the HTTP proxy (\<open>kinetic-daemon/src/proxy\<close>) and its receiving ends (\<open>p2p.rs\<close>, \<open>kinetic-host/src/proxy.rs\<close>).
    Resolution follows at most ten aliases, as in the source. Requests leave only for targets of signed records
    that pass the address filter of \<open>Net_Security\<close>, and only contained requests reach a local web server.

  \<^bold>\<open>Conventions.\<close> A struct is a \<open>record\<close>, an enum a \<open>datatype\<close>; a fallible function returns \<open>Ok\<close> or \<open>Err\<close>
  (a sum); a panic or a call that does not return is \<open>None\<close>. \<open>u8\<close> to \<open>u128\<close> are words, so arithmetic
  wraps as in a release build where the source does not saturate or check. A mutable receiver is
  passed and returned. Spawned tasks are queued and run as steps of their own; a \<open>oneshot\<close> sender
  is a number and what is sent on it joins \<open>answers\<close>. Logging is left out. An \<open>Instant\<close> is a number of
  nanoseconds and the current time an argument. Third-party code is a parameter; what a theorem
  relies on is a named hypothesis (\<open>names_ok\<close>, \<open>opfs_works\<close>, \<open>rv_laws\<close>, \<open>ts_laws\<close>, \<open>cache_laws\<close>,
  \<open>query_ids_fresh\<close>, \<open>moka_laws\<close>, \<open>bincode_laws\<close>, \<open>session_codec\<close>, \<open>envelope_codec\<close>, \<open>kid_codec\<close>,
  \<open>serde_reveals\<close>, \<open>signing_sound\<close>), and each has a concrete instance in the witnesses.

  \<^bold>\<open>Bounds and termination.\<close> Everything is total except the search for the Fiat-Shamir prime, a
  \<open>partial_function (option)\<close> with a theorem that it returns when a prime lies ahead. The mining of a
  peer identity recurses over the list of key pairs the generator hands out, and returns as soon as
  one of them reaches the difficulty. The walk over the DNS tree is bounded by its 20 lookups as in
  the source. No other fuel is used.

  \<^bold>\<open>Not modelled.\<close> The code generator \<open>build.rs\<close> (its constants are fields of \<open>network_constants\<close>); the
  construction of the libp2p swarm (\<open>behavior.rs\<close>, transports); of the client handle the calls that only
  send a command and await its answer; the native storage engine, a thin layer over \<open>redb\<close>; the
  configuration file; the router, start-up and shut-down of the daemons, the
  listener and certificates of the proxy (\<open>kinetic-daemon\<close>, \<open>kinetic-host\<close>, \<open>kinetic-node\<close>); the command line, installer and RPC types.
  These are I/O, presentation or third-party calls around the parts above.
\<close>

end
